(* ===== verification/Prelude.thy ===== *)
theory Prelude
  imports Main "HOL-Library.Sublist"
begin

text \<open>
  Shared vocabulary of the development: Go error values, the result type of a fallible call,
  64-bit signed arithmetic, and the generic list lemmas (association by key, stable
  \<open>ORDER BY\<close>, splitting a path at its separators) the component theories use.
\<close>

named_theorems store_defs "unfolding rules of the SQL operations"
named_theorems world_frame "which parts of the application state an operation leaves alone"

section \<open>Errors and results\<close>

text \<open>
  Go's \<^verbatim>\<open>error\<close> values that the code distinguishes: the sentinels of \<^verbatim>\<open>internal/store\<close>, a
  violated SQL constraint, a failed driver call, a cancelled request context, and everything
  else by its message.
\<close>

datatype gerr =
    ErrNotFound
  | ErrOutOfSync int int \<comment> \<open>expected and received line id\<close>
  | ErrNoUpdate
  | ErrConstraint
  | ErrDriver
  | ErrNotExist \<comment> \<open>\<^verbatim>\<open>os.IsNotExist\<close>\<close>
  | ErrCanceled \<comment> \<open>\<^verbatim>\<open>context.Canceled\<close>\<close>
  | ErrDeadlineExceeded \<comment> \<open>\<^verbatim>\<open>context.DeadlineExceeded\<close>\<close>
  | ErrOther string

type_synonym 'a res = "gerr + 'a"

section \<open>Go's 64-bit \<^verbatim>\<open>int\<close>\<close>

definition wrap64 :: "int \<Rightarrow> int" where
  "wrap64 x = (x + 2 ^ 63) mod 2 ^ 64 - 2 ^ 63"

definition int64_range :: "int \<Rightarrow> bool" where
  "int64_range x \<longleftrightarrow> - (2 ^ 63) \<le> x \<and> x < 2 ^ 63"

lemma wrap64_range: "int64_range (wrap64 x)"
  by (simp add: wrap64_def int64_range_def)

lemma wrap64_id: "int64_range x \<Longrightarrow> wrap64 x = x"
  by (simp add: wrap64_def int64_range_def)

lemma wrap64_small [simp]: "- (2 ^ 63) \<le> x \<Longrightarrow> x < 2 ^ 63 \<Longrightarrow> wrap64 x = x"
  by (simp add: wrap64_id int64_range_def)

section \<open>Lists\<close>

text \<open>Splitting a string at its last separator is unambiguous.\<close>

lemma append_sep_last_inject:
  assumes "x \<notin> set ys" and "x \<notin> set ys'"
  shows "xs @ x # ys = xs' @ x # ys' \<longleftrightarrow> xs = xs' \<and> ys = ys'"
proof
  assume eq: "xs @ x # ys = xs' @ x # ys'"
  then consider us where "xs = xs' @ us" "us @ x # ys = x # ys'"
    | us where "xs' = xs @ us" "us @ x # ys' = x # ys"
    by (auto simp: append_eq_append_conv2)
  then show "xs = xs' \<and> ys = ys'"
    by cases (use assms in \<open>auto simp: append_eq_Cons_conv Cons_eq_append_conv\<close>)
qed simp

text \<open>Splitting at the first separator is unambiguous as well.\<close>

lemma append_sep_first_inject:
  assumes "x \<notin> set xs" and "x \<notin> set xs'"
  shows "xs @ x # ys = xs' @ x # ys' \<longleftrightarrow> xs = xs' \<and> ys = ys'"
  using assms
proof (induction xs arbitrary: xs')
  case Nil
  then show ?case by (cases xs') auto
next
  case (Cons a xs)
  then show ?case by (cases xs') auto
qed

section \<open>SQL-style selection on tables\<close>

text \<open>
  A table is the list of its rows. \<open>ORDER BY k ASC\<close> and \<open>DESC\<close> are stable sorts; \<open>LIMIT\<close> is
  \<^const>\<open>take\<close>; a single-row query reads the head of the result.
\<close>

definition order_asc :: "('a \<Rightarrow> int) \<Rightarrow> 'a list \<Rightarrow> 'a list" where
  "order_asc k = sort_key k"

definition order_desc :: "('a \<Rightarrow> int) \<Rightarrow> 'a list \<Rightarrow> 'a list" where
  "order_desc k = sort_key (\<lambda>x. - k x)"

definition first_row :: "'a list \<Rightarrow> 'a option" where
  "first_row xs = (case xs of [] \<Rightarrow> None | x # _ \<Rightarrow> Some x)"

lemma set_order_asc [simp]: "set (order_asc k xs) = set xs"
  by (simp add: order_asc_def)

lemma set_order_desc [simp]: "set (order_desc k xs) = set xs"
  by (simp add: order_desc_def)

lemma length_order [simp]:
  "length (order_asc k xs) = length xs" "length (order_desc k xs) = length xs"
  by (simp_all add: order_asc_def order_desc_def)

lemma sorted_order_asc: "sorted (map k (order_asc k xs))"
  by (simp add: order_asc_def)

lemma sorted_order_desc: "sorted_wrt (\<lambda>x y. k y \<le> k x) (order_desc k xs)"
proof -
  have "sorted (map (\<lambda>x. - k x) (order_desc k xs))"
    by (simp add: order_desc_def)
  then show ?thesis by (simp add: sorted_map)
qed

lemma distinct_order_desc [simp]: "distinct (order_desc k xs) = distinct xs"
  by (simp add: order_desc_def)

lemma first_row_None [simp]: "first_row xs = None \<longleftrightarrow> xs = []"
  by (auto simp: first_row_def split: list.splits)

lemma first_row_set: "first_row xs = Some x \<Longrightarrow> x \<in> set xs"
  by (auto simp: first_row_def split: list.splits)

lemma order_desc_Nil [simp]: "order_desc k xs = [] \<longleftrightarrow> xs = []"
  by (metis length_0_conv length_order(2))

lemma order_asc_Nil [simp]: "order_asc k xs = [] \<longleftrightarrow> xs = []"
  by (metis length_0_conv length_order(1))

text \<open>The first row of a descending order carries the greatest key.\<close>

lemma first_row_order_desc:
  assumes "first_row (order_desc k xs) = Some x"
  shows "x \<in> set xs" and "y \<in> set xs \<Longrightarrow> k y \<le> k x"
proof -
  from assms obtain ys where ys: "order_desc k xs = x # ys"
    by (auto simp: first_row_def split: list.splits)
  then have s: "set (x # ys) = set xs" by (metis set_order_desc)
  then show "x \<in> set xs" by auto
  assume "y \<in> set xs"
  with s have "y = x \<or> y \<in> set ys" by auto
  moreover have "sorted_wrt (\<lambda>x y. k y \<le> k x) (x # ys)"
    using sorted_order_desc [of k xs] ys by simp
  ultimately show "k y \<le> k x" by auto
qed

text \<open>A strict maximum is the first row, whatever the tie-breaking.\<close>

lemma first_row_order_desc_max:
  assumes "x \<in> set xs" and "\<And>y. y \<in> set xs \<Longrightarrow> y \<noteq> x \<Longrightarrow> k y < k x"
  shows "first_row (order_desc k xs) = Some x"
proof -
  from assms(1) have "order_desc k xs \<noteq> []" by auto
  then obtain z where z: "first_row (order_desc k xs) = Some z"
    by (metis first_row_None not_None_eq)
  then have "k x \<le> k z" and "z \<in> set xs"
    using first_row_order_desc [OF z] assms(1) by auto
  then have "z = x" using assms(2) by fastforce
  with z show ?thesis by simp
qed

lemma filter_order_desc: "filter P (order_desc k xs) = order_desc k (filter P xs)"
  by (simp add: order_desc_def filter_sort)

lemma filter_order_asc: "filter P (order_asc k xs) = order_asc k (filter P xs)"
  by (simp add: order_asc_def filter_sort)

lemma order_asc_sorted: "sorted (map k xs) \<Longrightarrow> order_asc k xs = xs"
  by (simp add: order_asc_def sorted_sort_id sort_key_id_if_sorted)

end
