(* ===== verification/Tables.thy ===== *)
theory Tables
  imports Prelude
begin

text \<open>
  SQL tables and connections. A table is the list of its rows; the statements the program uses
  (\<open>INSERT\<close>, \<open>INSERT .. ON CONFLICT DO UPDATE\<close>, \<open>UPDATE .. WHERE\<close>, \<open>DELETE .. WHERE\<close>) are list
  functions. A connection holds the committed database and a schedule of driver faults: every
  statement consumes one entry, which decides whether the driver reports an error. The
  combinators model \<^verbatim>\<open>db.Query\<close>, \<^verbatim>\<open>db.Exec\<close>, \<^verbatim>\<open>db.BeginTx\<close>, \<^verbatim>\<open>tx.Exec\<close> and \<^verbatim>\<open>tx.Commit\<close> of
  \<^verbatim>\<open>database/sql\<close>; a transaction works on its own copy, which only \<^verbatim>\<open>Commit\<close> publishes, so
  returning without it is the deferred \<^verbatim>\<open>Rollback\<close>.
\<close>

section \<open>Row operations\<close>

fun upsert_row :: "('r \<Rightarrow> 'k) \<Rightarrow> ('r \<Rightarrow> 'r \<Rightarrow> 'r) \<Rightarrow> 'r \<Rightarrow> 'r list \<Rightarrow> 'r list" where
  "upsert_row key merge new [] = [new]"
| "upsert_row key merge new (r # rs) =
     (if key r = key new then merge r new # rs else r # upsert_row key merge new rs)"

definition insert_row :: "('r \<Rightarrow> 'k) \<Rightarrow> 'r \<Rightarrow> 'r list \<Rightarrow> 'r list res" where
  "insert_row key new rows =
     (if key new \<in> set (map key rows) then Inl ErrConstraint else Inr (rows @ [new]))"

definition delete_where :: "('r \<Rightarrow> bool) \<Rightarrow> 'r list \<Rightarrow> 'r list" where
  "delete_where P rows = filter (\<lambda>r. \<not> P r) rows"

definition update_where :: "('r \<Rightarrow> bool) \<Rightarrow> ('r \<Rightarrow> 'r) \<Rightarrow> 'r list \<Rightarrow> 'r list" where
  "update_where P f rows = map (\<lambda>r. if P r then f r else r) rows"

definition count_where :: "('r \<Rightarrow> bool) \<Rightarrow> 'r list \<Rightarrow> int" where
  "count_where P rows = int (length (filter P rows))"

definition lookup_row :: "('r \<Rightarrow> 'k) \<Rightarrow> 'k \<Rightarrow> 'r list \<Rightarrow> 'r option" where
  "lookup_row key k rows = first_row (filter (\<lambda>r. key r = k) rows)"

lemma count_where_0 [simp]: "count_where P rows = 0 \<longleftrightarrow> (\<forall>r \<in> set rows. \<not> P r)"
  by (auto simp: count_where_def filter_empty_conv)

lemma count_where_nonneg [simp]: "0 \<le> count_where P rows"
  by (simp add: count_where_def)

lemma set_delete_where [simp]: "set (delete_where P rows) = {r \<in> set rows. \<not> P r}"
  by (simp add: delete_where_def)

lemma distinct_map_filter_key: "distinct (map key rows) \<Longrightarrow> distinct (map key (filter P rows))"
  by (rule distinct_map_filter)

lemma distinct_delete_where: "distinct (map key rows) \<Longrightarrow> distinct (map key (delete_where P rows))"
  by (simp add: delete_where_def distinct_map_filter_key)

lemma map_key_update_where:
  "(\<And>r. key (f r) = key r) \<Longrightarrow> map key (update_where P f rows) = map key rows"
  by (simp add: update_where_def)

lemma insert_row_Inr:
  "insert_row key new rows = Inr rows' \<longleftrightarrow> rows' = rows @ [new] \<and> key new \<notin> set (map key rows)"
  by (auto simp: insert_row_def)

lemma distinct_insert_row:
  "insert_row key new rows = Inr rows' \<Longrightarrow> distinct (map key rows) \<Longrightarrow> distinct (map key rows')"
  by (auto simp: insert_row_Inr)

lemma lookup_row_Some: "lookup_row key k rows = Some r \<Longrightarrow> r \<in> set rows \<and> key r = k"
  by (auto simp: lookup_row_def dest: first_row_set)

lemma lookup_row_None: "lookup_row key k rows = None \<longleftrightarrow> k \<notin> key ` set rows"
  by (auto simp: lookup_row_def filter_empty_conv)

text \<open>With a unique key, at most one row matches it.\<close>

lemma filter_key_unique:
  assumes "distinct (map key rows)" and "r \<in> set rows"
  shows "filter (\<lambda>x. key x = key r) rows = [r]"
  using assms
proof (induction rows)
  case (Cons a rows)
  show ?case
  proof (cases "a = r")
    case True
    with Cons.prems have "\<forall>x \<in> set rows. key x \<noteq> key r" by (auto simp: image_iff)
    with True show ?thesis by (simp add: filter_empty_conv)
  next
    case False
    with Cons.prems have "key a \<noteq> key r" by auto
    with False Cons show ?thesis by simp
  qed
qed simp

lemma lookup_row_unique: "distinct (map key rows) \<Longrightarrow> r \<in> set rows \<Longrightarrow> lookup_row key (key r) rows = Some r"
  by (simp add: lookup_row_def filter_key_unique first_row_def)

section \<open>Tables with a primary key\<close>

text \<open>
  The contract of an upsert statement: the conflict clause never touches the key columns.
  Everything the stores need to know about \<open>INSERT .. ON CONFLICT\<close> follows once, here.
\<close>

locale keyed_table =
  fixes key :: "'r \<Rightarrow> 'k" and merge :: "'r \<Rightarrow> 'r \<Rightarrow> 'r"
  assumes key_merge: "key old = key new \<Longrightarrow> key (merge old new) = key old"
begin

lemma keys_upsert: "set (map key (upsert_row key merge new rows)) = insert (key new) (set (map key rows))"
  by (induction rows) (auto simp: key_merge)

lemma distinct_upsert: "distinct (map key rows) \<Longrightarrow> distinct (map key (upsert_row key merge new rows))"
proof (induction rows)
  case (Cons r rows)
  then show ?case using keys_upsert [of new rows] by (auto simp: key_merge)
qed simp

lemma lookup_upsert:
  "lookup_row key k (upsert_row key merge new rows) =
     (if k = key new
      then Some (case lookup_row key k rows of None \<Rightarrow> new | Some old \<Rightarrow> merge old new)
      else lookup_row key k rows)"
  by (induction rows) (auto simp: lookup_row_def first_row_def key_merge)

lemma upsert_new:
  "key new \<notin> set (map key rows) \<Longrightarrow> upsert_row key merge new rows = rows @ [new]"
  by (induction rows) auto

lemma set_upsert:
  assumes "distinct (map key rows)"
  shows "set (upsert_row key merge new rows) =
     {r \<in> set rows. key r \<noteq> key new} \<union>
     {case lookup_row key (key new) rows of None \<Rightarrow> new | Some old \<Rightarrow> merge old new}"
  using assms
proof (induction rows)
  case (Cons r rows)
  show ?case
  proof (cases "key r = key new")
    case True
    with Cons.prems have "\<forall>x \<in> set rows. key x \<noteq> key new" by (auto simp: image_iff)
    with True show ?thesis by (auto simp: lookup_row_def first_row_def)
  next
    case False
    with Cons show ?thesis by (auto simp: lookup_row_def)
  qed
qed (simp add: lookup_row_def first_row_def)

lemma filter_upsert_other:
  assumes "\<not> P new" and "\<And>r. key r = key new \<Longrightarrow> P (merge r new) = P r"
    and "\<And>r. key r = key new \<Longrightarrow> \<not> P r"
  shows "filter P (upsert_row key merge new rows) = filter P rows"
  using assms by (induction rows) auto

end

section \<open>Connections and transactions\<close>

record 'd conn =
  conn_db :: 'd
  faults :: "gerr option list"

definition sql_tick :: "'d conn \<Rightarrow> gerr option \<times> 'd conn" where
  "sql_tick c = (case faults c of [] \<Rightarrow> (None, c) | f # fs \<Rightarrow> (f, c\<lparr>faults := fs\<rparr>))"

definition db_query :: "('d \<Rightarrow> 'a) \<Rightarrow> 'd conn \<Rightarrow> 'a res \<times> 'd conn" where
  "db_query f c =
     (case sql_tick c of (Some e, c1) \<Rightarrow> (Inl e, c1) | (None, c1) \<Rightarrow> (Inr (f (conn_db c1)), c1))"

definition db_exec :: "('d \<Rightarrow> ('d \<times> 'a) res) \<Rightarrow> 'd conn \<Rightarrow> 'a res \<times> 'd conn" where
  "db_exec f c =
     (case sql_tick c of
        (Some e, c1) \<Rightarrow> (Inl e, c1)
      | (None, c1) \<Rightarrow> (case f (conn_db c1) of
           Inl e \<Rightarrow> (Inl e, c1)
         | Inr (d, x) \<Rightarrow> (Inr x, c1\<lparr>conn_db := d\<rparr>)))"

text \<open>\<^verbatim>\<open>result.RowsAffected()\<close> is a call of its own that can fail after the statement ran.\<close>

definition db_exec_rows :: "('d \<Rightarrow> ('d \<times> int) res) \<Rightarrow> 'd conn \<Rightarrow> int res \<times> 'd conn" where
  "db_exec_rows f c =
     (case db_exec f c of
        (Inl e, c1) \<Rightarrow> (Inl e, c1)
      | (Inr n, c1) \<Rightarrow> (case sql_tick c1 of (Some e, c2) \<Rightarrow> (Inl e, c2) | (None, c2) \<Rightarrow> (Inr n, c2)))"

definition begin_tx :: "'d conn \<Rightarrow> 'd res \<times> 'd conn" where
  "begin_tx c = db_query (\<lambda>d. d) c"

definition tx_query :: "('d \<Rightarrow> 'a) \<Rightarrow> 'd \<Rightarrow> 'd conn \<Rightarrow> 'a res \<times> 'd conn" where
  "tx_query f tx c = db_query (\<lambda>_. f tx) c"

definition tx_exec :: "('d \<Rightarrow> 'd res) \<Rightarrow> 'd \<Rightarrow> 'd conn \<Rightarrow> 'd res \<times> 'd conn" where
  "tx_exec f tx c =
     (case sql_tick c of (Some e, c1) \<Rightarrow> (Inl e, c1) | (None, c1) \<Rightarrow> (f tx, c1))"

definition tx_prepare :: "'d conn \<Rightarrow> unit res \<times> 'd conn" where
  "tx_prepare c = db_query (\<lambda>_. ()) c"

definition tx_commit :: "'d \<Rightarrow> 'd conn \<Rightarrow> unit res \<times> 'd conn" where
  "tx_commit tx c = db_exec (\<lambda>_. Inr (tx, ())) c"

fun tx_exec_each :: "('x \<Rightarrow> 'd \<Rightarrow> 'd res) \<Rightarrow> 'x list \<Rightarrow> 'd \<Rightarrow> 'd conn \<Rightarrow> 'd res \<times> 'd conn" where
  "tx_exec_each f [] tx c = (Inr tx, c)"
| "tx_exec_each f (x # xs) tx c =
     (case tx_exec (f x) tx c of
        (Inl e, c1) \<Rightarrow> (Inl e, c1)
      | (Inr tx1, c1) \<Rightarrow> tx_exec_each f xs tx1 c1)"

lemmas sql_defs = db_query_def db_exec_def db_exec_rows_def begin_tx_def tx_query_def tx_exec_def
  tx_prepare_def tx_commit_def

lemma sql_tick_db: "sql_tick c = (r, c1) \<Longrightarrow> conn_db c1 = conn_db c"
  by (auto simp: sql_tick_def split: list.splits)

lemma sql_tick_no_fault [simp]: "faults c = [] \<Longrightarrow> sql_tick c = (None, c)"
  by (simp add: sql_tick_def)

lemma db_query_db: "db_query f c = (r, c1) \<Longrightarrow> conn_db c1 = conn_db c"
  by (auto simp: db_query_def dest: sql_tick_db split: prod.splits option.splits)

lemma db_query_Inr: "db_query f c = (Inr x, c1) \<Longrightarrow> x = f (conn_db c) \<and> conn_db c1 = conn_db c"
  by (auto simp: db_query_def dest: sql_tick_db split: prod.splits option.splits)

lemma db_query_ok [simp]: "faults c = [] \<Longrightarrow> db_query f c = (Inr (f (conn_db c)), c)"
  by (simp add: db_query_def)

lemma db_exec_ok [simp]:
  "faults c = [] \<Longrightarrow> db_exec f c =
     (case f (conn_db c) of Inl e \<Rightarrow> (Inl e, c) | Inr (d, x) \<Rightarrow> (Inr x, c\<lparr>conn_db := d\<rparr>))"
  by (simp add: db_exec_def)

text \<open>A single statement either takes effect and succeeds or leaves the database alone.\<close>

lemma db_exec_Inr: "db_exec f c = (Inr x, c1) \<Longrightarrow> f (conn_db c) = Inr (conn_db c1, x)"
  by (auto simp: db_exec_def dest: sql_tick_db split: prod.splits option.splits sum.splits)

lemma db_exec_Inl: "db_exec f c = (Inl e, c1) \<Longrightarrow> conn_db c1 = conn_db c"
  by (auto simp: db_exec_def dest: sql_tick_db split: prod.splits option.splits sum.splits)

lemma db_exec_cases:
  assumes "db_exec f c = (r, c1)"
  obtains (fail) e where "r = Inl e" "conn_db c1 = conn_db c"
    | (ok) x where "r = Inr x" "f (conn_db c) = Inr (conn_db c1, x)"
proof (cases r)
  case (Inl e)
  with assms db_exec_Inl [of f c e c1] show ?thesis by (intro fail) auto
next
  case (Inr x)
  with assms db_exec_Inr [of f c x c1] show ?thesis by (intro ok) auto
qed

lemma db_exec_rows_Inr: "db_exec_rows f c = (Inr n, c1) \<Longrightarrow> f (conn_db c) = Inr (conn_db c1, n)"
  by (auto simp: db_exec_rows_def dest!: sql_tick_db db_exec_Inr
      split: prod.splits option.splits sum.splits)

lemma db_exec_rows_effect:
  "db_exec_rows f c = (r, c1) \<Longrightarrow>
     conn_db c1 = conn_db c \<or> (\<exists>n. f (conn_db c) = Inr (conn_db c1, n))"
  by (auto simp: db_exec_rows_def dest!: sql_tick_db db_exec_Inr db_exec_Inl
      split: prod.splits option.splits sum.splits)

lemma db_exec_rows_ok [simp]:
  "faults c = [] \<Longrightarrow> f (conn_db c) = Inr (d, n) \<Longrightarrow> db_exec_rows f c = (Inr n, c\<lparr>conn_db := d\<rparr>)"
  by (simp add: db_exec_rows_def)

lemma begin_tx_Inr: "begin_tx c = (Inr tx, c1) \<Longrightarrow> tx = conn_db c \<and> conn_db c1 = conn_db c"
  by (auto simp: begin_tx_def dest: db_query_Inr)

lemma begin_tx_db: "begin_tx c = (r, c1) \<Longrightarrow> conn_db c1 = conn_db c"
  by (simp add: begin_tx_def db_query_db)

lemma tx_query_db: "tx_query f tx c = (r, c1) \<Longrightarrow> conn_db c1 = conn_db c"
  by (simp add: tx_query_def db_query_db)

lemma tx_query_Inr: "tx_query f tx c = (Inr x, c1) \<Longrightarrow> x = f tx \<and> conn_db c1 = conn_db c"
  by (auto simp: tx_query_def dest: db_query_Inr)

lemma tx_exec_db: "tx_exec f tx c = (r, c1) \<Longrightarrow> conn_db c1 = conn_db c"
  by (auto simp: tx_exec_def dest: sql_tick_db split: prod.splits option.splits)

lemma tx_exec_Inr: "tx_exec f tx c = (Inr tx1, c1) \<Longrightarrow> f tx = Inr tx1 \<and> conn_db c1 = conn_db c"
  by (auto simp: tx_exec_def dest: sql_tick_db split: prod.splits option.splits)

lemma tx_prepare_db: "tx_prepare c = (r, c1) \<Longrightarrow> conn_db c1 = conn_db c"
  by (simp add: tx_prepare_def db_query_db)

lemma tx_commit_Inr: "tx_commit tx c = (Inr u, c1) \<Longrightarrow> conn_db c1 = tx"
  by (auto simp: tx_commit_def dest: db_exec_Inr)

lemma tx_commit_Inl: "tx_commit tx c = (Inl e, c1) \<Longrightarrow> conn_db c1 = conn_db c"
  by (auto simp: tx_commit_def dest: db_exec_Inl)

lemma tx_exec_each_db: "tx_exec_each f xs tx c = (r, c1) \<Longrightarrow> conn_db c1 = conn_db c"
  by (induction xs arbitrary: tx c)
    (auto dest: tx_exec_db split: prod.splits sum.splits)

text \<open>The pure effect of a list of statements on one database.\<close>

fun run_each :: "('x \<Rightarrow> 'd \<Rightarrow> 'd res) \<Rightarrow> 'x list \<Rightarrow> 'd \<Rightarrow> 'd res" where
  "run_each f [] d = Inr d"
| "run_each f (x # xs) d = (case f x d of Inl e \<Rightarrow> Inl e | Inr d1 \<Rightarrow> run_each f xs d1)"

lemma tx_exec_each_Inr: "tx_exec_each f xs tx c = (Inr tx1, c1) \<Longrightarrow> run_each f xs tx = Inr tx1"
proof (induction xs arbitrary: tx c)
  case (Cons x xs)
  then obtain tx2 c2 where x: "tx_exec (f x) tx c = (Inr tx2, c2)"
    and rest: "tx_exec_each f xs tx2 c2 = (Inr tx1, c1)"
    by (auto split: prod.splits sum.splits)
  from tx_exec_Inr [OF x] Cons.IH [OF rest] show ?case by simp
qed simp

lemma tx_exec_each_ok: "faults c = [] \<Longrightarrow> tx_exec_each f xs tx c = (run_each f xs tx, c)"
  by (induction xs arbitrary: tx) (auto simp: tx_exec_def split: sum.splits)

end
