(* ===== verification/GoStrings.thy ===== *)
theory GoStrings
  imports Prelude
begin

text \<open>
  The part of Go's \<^verbatim>\<open>strings\<close>, \<^verbatim>\<open>strconv\<close> and \<^verbatim>\<open>path/filepath\<close> packages the program calls, on
  byte strings. Strings are lists of bytes (UTF-8), as in Go: \<^const>\<open>length\<close> is \<^verbatim>\<open>len\<close>.
\<close>

section \<open>\<^verbatim>\<open>strings\<close>\<close>

definition has_prefix :: "string \<Rightarrow> string \<Rightarrow> bool" where
  "has_prefix s p \<longleftrightarrow> take (length p) s = p"

definition has_suffix :: "string \<Rightarrow> string \<Rightarrow> bool" where
  "has_suffix s t \<longleftrightarrow> length t \<le> length s \<and> drop (length s - length t) s = t"

definition trim_suffix :: "string \<Rightarrow> string \<Rightarrow> string" where
  "trim_suffix s t = (if has_suffix s t then take (length s - length t) s else s)"

fun str_contains :: "string \<Rightarrow> string \<Rightarrow> bool" where
  "str_contains [] sub = (sub = [])"
| "str_contains (c # s) sub = (has_prefix (c # s) sub \<or> str_contains s sub)"

fun split_on :: "char \<Rightarrow> string \<Rightarrow> string list" where
  "split_on c [] = [[]]"
| "split_on c (x # xs) =
     (if x = c then [] # split_on c xs
      else (case split_on c xs of [] \<Rightarrow> [[x]] | y # ys \<Rightarrow> (x # y) # ys))"

lemma has_prefix_append: "has_prefix s p \<longleftrightarrow> (\<exists>t. s = p @ t)"
proof
  assume "has_prefix s p"
  then have "s = p @ drop (length p) s"
    by (metis has_prefix_def append_take_drop_id)
  then show "\<exists>t. s = p @ t" ..
qed (auto simp: has_prefix_def)

lemma has_suffix_append: "has_suffix s t \<longleftrightarrow> (\<exists>p. s = p @ t)"
proof
  assume "has_suffix s t"
  then have "s = take (length s - length t) s @ t"
    by (metis has_suffix_def append_take_drop_id)
  then show "\<exists>p. s = p @ t" ..
qed (auto simp: has_suffix_def)

lemma has_prefix_self [simp]: "has_prefix (p @ t) p"
  by (simp add: has_prefix_def)

lemma has_suffix_self [simp]: "has_suffix (p @ t) t"
  by (simp add: has_suffix_def)

lemma trim_suffix_append [simp]: "trim_suffix (p @ t) t = p"
  by (simp add: trim_suffix_def)

text \<open>
  \<^verbatim>\<open>unicode.IsSpace\<close> on valid UTF-8: the encodings of the white-space code points.
  \<^verbatim>\<open>TrimSpace\<close> strips them at both ends.
\<close>

definition space_encodings :: "string list" where
  "space_encodings =
     [[CHR 0x09], [CHR 0x0A], [CHR 0x0B], [CHR 0x0C], [CHR 0x0D], [CHR 0x20],
      [CHR 0xC2, CHR 0x85], [CHR 0xC2, CHR 0xA0], [CHR 0xE1, CHR 0x9A, CHR 0x80],
      [CHR 0xE2, CHR 0x80, CHR 0x80], [CHR 0xE2, CHR 0x80, CHR 0x81],
      [CHR 0xE2, CHR 0x80, CHR 0x82], [CHR 0xE2, CHR 0x80, CHR 0x83],
      [CHR 0xE2, CHR 0x80, CHR 0x84], [CHR 0xE2, CHR 0x80, CHR 0x85],
      [CHR 0xE2, CHR 0x80, CHR 0x86], [CHR 0xE2, CHR 0x80, CHR 0x87],
      [CHR 0xE2, CHR 0x80, CHR 0x88], [CHR 0xE2, CHR 0x80, CHR 0x89],
      [CHR 0xE2, CHR 0x80, CHR 0x8A], [CHR 0xE2, CHR 0x80, CHR 0xA8],
      [CHR 0xE2, CHR 0x80, CHR 0xA9], [CHR 0xE2, CHR 0x80, CHR 0xAF],
      [CHR 0xE2, CHR 0x81, CHR 0x9F], [CHR 0xE3, CHR 0x80, CHR 0x80]]"

definition strip_one :: "string list \<Rightarrow> string \<Rightarrow> string option" where
  "strip_one pats s =
     (case filter (has_prefix s) pats of [] \<Rightarrow> None | p # _ \<Rightarrow> Some (drop (length p) s))"

fun strip_all :: "nat \<Rightarrow> string list \<Rightarrow> string \<Rightarrow> string" where
  "strip_all 0 pats s = s"
| "strip_all (Suc n) pats s =
     (case strip_one pats s of None \<Rightarrow> s | Some s' \<Rightarrow> strip_all n pats s')"

definition trim_left_space :: "string \<Rightarrow> string" where
  "trim_left_space s = strip_all (length s) space_encodings s"

definition trim_right_space :: "string \<Rightarrow> string" where
  "trim_right_space s = rev (strip_all (length s) (map rev space_encodings) (rev s))"

definition trim_space :: "string \<Rightarrow> string" where
  "trim_space s = trim_right_space (trim_left_space s)"

section \<open>\<^verbatim>\<open>path/filepath\<close>: the extension of a path\<close>

fun ext_rev :: "string \<Rightarrow> string \<Rightarrow> string" where
  "ext_rev [] acc = []"
| "ext_rev (c # cs) acc =
     (if c = CHR ''/'' then [] else if c = CHR ''.'' then c # acc else ext_rev cs (c # acc))"

definition path_ext :: "string \<Rightarrow> string" where
  "path_ext p = ext_rev (rev p) []"

lemma ext_rev_suffix: "ext_rev cs acc = [] \<or> (\<exists>p. rev cs @ acc = p @ ext_rev cs acc)"
proof (induction cs arbitrary: acc)
  case (Cons c cs)
  show ?case
  proof (cases "c = CHR ''/'' \<or> c = CHR ''.''")
    case True
    then show ?thesis by auto
  next
    case False
    then show ?thesis using Cons.IH [of "c # acc"] by simp
  qed
qed simp

lemma path_ext_suffix: "has_suffix p (path_ext p)"
  using ext_rev_suffix [of "rev p" "[]"] by (auto simp: path_ext_def has_suffix_append)

lemma ext_rev_no_dot:
  "CHR ''.'' \<notin> set cs \<Longrightarrow> ext_rev (cs @ CHR ''.'' # ds) acc
     = (if CHR ''/'' \<in> set cs then [] else CHR ''.'' # rev cs @ acc)"
  by (induction cs arbitrary: acc) auto

lemma path_ext_append:
  assumes "CHR ''.'' \<notin> set e" and "CHR ''/'' \<notin> set e"
  shows "path_ext (p @ CHR ''.'' # e) = CHR ''.'' # e"
  using assms by (simp add: path_ext_def ext_rev_no_dot)

section \<open>\<^verbatim>\<open>strconv\<close>: decimal integers\<close>

definition digit_of :: "char \<Rightarrow> nat option" where
  "digit_of c = (let n = of_char c :: nat in if 48 \<le> n \<and> n \<le> 57 then Some (n - 48) else None)"

definition digit_char :: "nat \<Rightarrow> char" where
  "digit_char d = char_of (48 + d)"

fun parse_digits :: "nat \<Rightarrow> string \<Rightarrow> nat option" where
  "parse_digits acc [] = Some acc"
| "parse_digits acc (c # cs) =
     (case digit_of c of None \<Rightarrow> None | Some d \<Rightarrow> parse_digits (10 * acc + d) cs)"

definition parse_nat :: "string \<Rightarrow> nat option" where
  "parse_nat s = (if s = [] then None else parse_digits 0 s)"

text \<open>
  \<^verbatim>\<open>strconv.ParseInt(s, 10, 64)\<close> and \<^verbatim>\<open>strconv.Atoi\<close>: an optional sign, at least one digit, a
  value in range; \<^const>\<open>None\<close> stands for the returned error.
\<close>

definition parse_int :: "string \<Rightarrow> int option" where
  "parse_int s =
     (let neg = has_prefix s ''-'';
          body = (if neg \<or> has_prefix s ''+'' then tl s else s)
      in case parse_nat body of None \<Rightarrow> None
         | Some n \<Rightarrow> (let z = (if neg then - int n else int n)
                     in if int64_range z then Some z else None))"

fun nat_digits :: "nat \<Rightarrow> string" where
  "nat_digits n =
     (if n < 10 then [digit_char n] else nat_digits (n div 10) @ [digit_char (n mod 10)])"

declare nat_digits.simps [simp del]

definition format_int :: "int \<Rightarrow> string" where
  "format_int z = (if z < 0 then ''-'' @ nat_digits (nat (- z)) else nat_digits (nat z))"

lemma digit_of_digit_char: "d < 10 \<Longrightarrow> digit_of (digit_char d) = Some d"
  by (simp add: digit_of_def digit_char_def Let_def)

lemma parse_digits_append:
  "parse_digits acc (xs @ ys) =
     (case parse_digits acc xs of None \<Rightarrow> None | Some a \<Rightarrow> parse_digits a ys)"
  by (induction xs arbitrary: acc) (auto split: option.splits)

lemma parse_digits_nat_digits: "parse_digits 0 (nat_digits n) = Some n"
proof (induction n rule: nat_digits.induct)
  case (1 n)
  show ?case
  proof (cases "n < 10")
    case True
    then show ?thesis by (simp add: nat_digits.simps [of n] digit_of_digit_char)
  next
    case False
    with 1 have "parse_digits 0 (nat_digits (n div 10)) = Some (n div 10)" by simp
    with False show ?thesis
      by (simp add: nat_digits.simps [of n] parse_digits_append digit_of_digit_char)
  qed
qed

lemma nat_digits_nonempty [simp]: "nat_digits n \<noteq> []"
  by (subst nat_digits.simps) simp

lemma nat_digits_digit: "c \<in> set (nat_digits n) \<Longrightarrow> digit_of c \<noteq> None"
proof (induction n rule: nat_digits.induct)
  case (1 n)
  show ?case
  proof (cases "n < 10")
    case True
    with "1.prems" show ?thesis
      by (simp add: nat_digits.simps [of n] digit_of_digit_char)
  next
    case False
    with "1.prems" have "c \<in> set (nat_digits (n div 10)) \<or> c = digit_char (n mod 10)"
      by (subst (asm) nat_digits.simps) auto
    then show ?thesis using "1.IH" False by (auto simp: digit_of_digit_char)
  qed
qed

lemma nat_digits_no_sign: "\<not> has_prefix (nat_digits n) ''-''" "\<not> has_prefix (nat_digits n) ''+''"
proof -
  obtain c cs where c: "nat_digits n = c # cs" by (cases "nat_digits n") auto
  then have "digit_of c \<noteq> None" using nat_digits_digit [of c n] by simp
  then have "c \<noteq> CHR ''-''" and "c \<noteq> CHR ''+''" by (auto simp: digit_of_def)
  with c show "\<not> has_prefix (nat_digits n) ''-''" "\<not> has_prefix (nat_digits n) ''+''"
    by (simp_all add: has_prefix_def)
qed

lemma parse_nat_digits: "parse_nat (nat_digits n) = Some n"
  by (simp add: parse_nat_def parse_digits_nat_digits)

text \<open>Printing and parsing are inverse on the 64-bit range.\<close>

lemma parse_format_int: "int64_range z \<Longrightarrow> parse_int (format_int z) = Some z"
  by (cases "z < 0")
    (simp_all add: parse_int_def format_int_def Let_def nat_digits_no_sign parse_nat_digits
      has_prefix_def [of "CHR ''-'' # _"])

section \<open>Error messages\<close>

definition err_text :: "gerr \<Rightarrow> string" where
  "err_text e = (case e of
      ErrNotFound \<Rightarrow> ''not found''
    | ErrOutOfSync n m \<Rightarrow> ''expected line id '' @ format_int n @ '', got '' @ format_int m @ '': out of sync''
    | ErrNoUpdate \<Rightarrow> ''no fields to update''
    | ErrConstraint \<Rightarrow> ''UNIQUE constraint failed''
    | ErrDriver \<Rightarrow> ''driver: bad connection''
    | ErrNotExist \<Rightarrow> ''file does not exist''
    | ErrCanceled \<Rightarrow> ''context canceled''
    | ErrDeadlineExceeded \<Rightarrow> ''context deadline exceeded''
    | ErrOther s \<Rightarrow> s)"

end
