(* ===== verification/Model.thy ===== *)
theory Model
  imports GoStrings
begin

text \<open>
  The shared data types of \<^verbatim>\<open>internal/model/model.go\<close> and the WebSocket events of
  \<^verbatim>\<open>internal/ws/events.go\<close>. Field names are the Go field names. \<^verbatim>\<open>json.RawMessage\<close> is the byte
  string it holds; Go's \<^verbatim>\<open>int\<close> and \<^verbatim>\<open>int64\<close> are \<^typ>\<open>int\<close>, with the wrap-around of
  \<^const>\<open>wrap64\<close> written out where the code computes with them.
\<close>

section \<open>\<^verbatim>\<open>internal/model\<close>\<close>

record line =
  LineID :: int
  FileID :: string
  Timestamp :: int
  Segments :: string
  MediaAvailable :: bool
  VodAccurate :: bool

record stream =
  ChannelID :: string
  StreamID :: string
  StreamTitle :: string
  StartTime :: string
  IsLive :: bool
  MediaType :: string
  ActivatedTime :: int

record worker_data =
  wd_StreamID :: string
  wd_StreamTitle :: string
  wd_StartTime :: string
  wd_IsLive :: bool
  wd_MediaType :: string
  wd_Transcript :: "line list"

record worker_status =
  ChannelKey :: string
  WorkerVersion :: string
  WorkerBuildTime :: string
  LastSeen :: int
  IsActive :: bool \<comment> \<open>computed by the endpoints, not stored\<close>

record worker_status_request =
  req_Version :: string
  req_BuildTime :: string
  req_Keys :: "string list"

section \<open>\<^verbatim>\<open>internal/ws/events.go\<close>\<close>

record sync_data =
  sync_StreamID :: string
  sync_StreamTitle :: string
  sync_StartTime :: string
  sync_IsLive :: bool
  sync_MediaType :: string
  sync_MediaBaseURL :: string
  sync_Transcript :: "line list"

record new_line_data =
  nl_LineID :: int
  nl_Timestamp :: int
  nl_UploadTime :: int
  nl_MediaAvailable :: bool
  nl_Segments :: string
  nl_VodAccurate :: bool

record new_stream_data =
  ns_StreamID :: string
  ns_StreamTitle :: string
  ns_StartTime :: string
  ns_MediaType :: string
  ns_MediaBaseURL :: string
  ns_IsLive :: bool

record status_data =
  st_StreamID :: string
  st_StreamTitle :: string
  st_IsLive :: bool

record updated_stream_data =
  us_StreamID :: string
  us_StreamTitle :: string
  us_StartTime :: string
  us_MediaType :: string
  us_IsLive :: bool

record deleted_stream_data =
  ds_StreamID :: string
  ds_StreamTitle :: string
  ds_WasLive :: bool

text \<open>
  \<^verbatim>\<open>Message\<close> pairs an \<^verbatim>\<open>EventType\<close> with its payload; every event name has exactly one payload
  type, so a message is a tagged union. The line-to-file map of a new-media event is an
  association list.
\<close>

datatype message =
    EventNewLine new_line_data
  | EventNewStream new_stream_data
  | EventStatus status_data
  | EventSync sync_data
  | EventPartialSync sync_data
  | EventNewMedia string "(int \<times> string) list"
  | EventPing "int option"
  | EventPong int
  | EventPastStreams "stream list"
  | EventDeletedStream deleted_stream_data
  | EventUpdatedStream updated_stream_data

end
