(* ===== verification/Store.thy ===== *)
theory Store
  imports Tables Model
begin

text \<open>
  The operations of \<^verbatim>\<open>internal/store\<close> (\<^verbatim>\<open>streams.go\<close>, \<^verbatim>\<open>transcripts.go\<close>, \<^verbatim>\<open>incoming.go\<close>,
  \<^verbatim>\<open>worker.go\<close>) over the five tables of \<^verbatim>\<open>createSchema\<close>: one definition per Go method, each a
  sequence of statements of \<^theory_text>\<open>Tables\<close> with the error returns of the method.
\<close>

section \<open>Schema\<close>

record trow =
  row_channel :: string
  row_stream :: string
  row_id :: int
  row_file :: "string option" \<comment> \<open>nullable column\<close>
  row_timestamp :: int
  row_segments :: string
  row_available :: bool
  row_accurate :: bool

record incoming_row =
  in_channel :: string
  in_url :: string
  in_received :: int

record restart_row =
  rs_channel :: string
  rs_requested :: int

record db =
  streams :: "stream list"
  transcripts :: "trow list"
  worker_rows :: "worker_status list"
  incoming :: "incoming_row list"
  restarts :: "restart_row list"

type_synonym dbconn = "db conn"

definition createSchema :: db where
  "createSchema = \<lparr>streams = [], transcripts = [], worker_rows = [], incoming = [], restarts = []\<rparr>"

definition stream_key :: "stream \<Rightarrow> string \<times> string" where
  "stream_key s = (ChannelID s, StreamID s)"

definition row_key :: "trow \<Rightarrow> string \<times> string \<times> int" where
  "row_key r = (row_channel r, row_stream r, row_id r)"

definition incoming_key :: "incoming_row \<Rightarrow> string \<times> string" where
  "incoming_key r = (in_channel r, in_url r)"

definition of_stream :: "string \<Rightarrow> string \<Rightarrow> stream \<Rightarrow> bool" where
  "of_stream ch sid s \<longleftrightarrow> ChannelID s = ch \<and> StreamID s = sid"

definition in_stream :: "string \<Rightarrow> string \<Rightarrow> trow \<Rightarrow> bool" where
  "in_stream ch sid r \<longleftrightarrow> row_channel r = ch \<and> row_stream r = sid"

definition with_media :: "trow \<Rightarrow> bool" where
  "with_media r \<longleftrightarrow> row_available r"

definition row_of_line :: "string \<Rightarrow> string \<Rightarrow> line \<Rightarrow> trow" where
  "row_of_line ch sid l =
     \<lparr>row_channel = ch, row_stream = sid, row_id = LineID l, row_file = Some (FileID l),
      row_timestamp = Timestamp l, row_segments = Segments l, row_available = MediaAvailable l,
      row_accurate = VodAccurate l\<rparr>"

text \<open>\<^verbatim>\<open>sql.NullString\<close>: a NULL reads as the empty string.\<close>

definition null_string :: "string option \<Rightarrow> string" where
  "null_string x = (case x of None \<Rightarrow> [] | Some s \<Rightarrow> s)"

definition line_of_row :: "trow \<Rightarrow> line" where
  "line_of_row r =
     \<lparr>LineID = row_id r, FileID = null_string (row_file r), Timestamp = row_timestamp r,
      Segments = row_segments r, MediaAvailable = row_available r, VodAccurate = row_accurate r\<rparr>"

section \<open>\<^verbatim>\<open>streams.go\<close>\<close>

definition sel_streams :: "string \<Rightarrow> db \<Rightarrow> stream list" where
  "sel_streams ch d = order_desc ActivatedTime (filter (\<lambda>s. ChannelID s = ch) (streams d))"

definition GetRecentStream :: "string \<Rightarrow> dbconn \<Rightarrow> stream option res \<times> dbconn" where
  "GetRecentStream ch = db_query (\<lambda>d. first_row (sel_streams ch d))"

definition GetStreamByID :: "string \<Rightarrow> string \<Rightarrow> dbconn \<Rightarrow> stream option res \<times> dbconn" where
  "GetStreamByID ch sid = db_query (\<lambda>d. first_row (filter (of_stream ch sid) (streams d)))"

definition GetAllStreams :: "string \<Rightarrow> dbconn \<Rightarrow> stream list res \<times> dbconn" where
  "GetAllStreams ch = db_query (sel_streams ch)"

definition GetPastStreams :: "string \<Rightarrow> string \<Rightarrow> dbconn \<Rightarrow> stream list res \<times> dbconn" where
  "GetPastStreams ch excludeID =
     db_query (\<lambda>d. order_desc ActivatedTime
       (filter (\<lambda>s. ChannelID s = ch \<and> \<not> IsLive s \<and> StreamID s \<noteq> excludeID) (streams d)))"

definition del_stream :: "string \<Rightarrow> string \<Rightarrow> db \<Rightarrow> db" where
  "del_stream ch sid d = d\<lparr>streams := delete_where (of_stream ch sid) (streams d)\<rparr>"

definition del_lines :: "string \<Rightarrow> string \<Rightarrow> db \<Rightarrow> db" where
  "del_lines ch sid d = d\<lparr>transcripts := delete_where (in_stream ch sid) (transcripts d)\<rparr>"

definition DeleteStream :: "string \<Rightarrow> string \<Rightarrow> dbconn \<Rightarrow> unit res \<times> dbconn" where
  "DeleteStream ch sid = db_exec (\<lambda>d. Inr (del_stream ch sid d, ()))"

definition DeleteStreamCascade :: "string \<Rightarrow> string \<Rightarrow> dbconn \<Rightarrow> unit res \<times> dbconn" where
  "DeleteStreamCascade ch sid c =
     (case begin_tx c of
        (Inl e, c1) \<Rightarrow> (Inl e, c1)
      | (Inr tx, c1) \<Rightarrow> (case tx_exec (\<lambda>d. Inr (del_stream ch sid d)) tx c1 of
          (Inl e, c2) \<Rightarrow> (Inl e, c2)
        | (Inr tx2, c2) \<Rightarrow> (case tx_exec (\<lambda>d. Inr (del_lines ch sid d)) tx2 c2 of
            (Inl e, c3) \<Rightarrow> (Inl e, c3)
          | (Inr tx3, c3) \<Rightarrow> tx_commit tx3 c3)))"

text \<open>\<open>ON CONFLICT\<close> keeps the stored \<open>activated_time\<close>.\<close>

definition merge_stream :: "stream \<Rightarrow> stream \<Rightarrow> stream" where
  "merge_stream old new =
     old\<lparr>StreamTitle := StreamTitle new, StartTime := StartTime new, IsLive := IsLive new,
         MediaType := MediaType new\<rparr>"

definition upsert_stream :: "stream \<Rightarrow> db \<Rightarrow> db" where
  "upsert_stream st d = d\<lparr>streams := upsert_row stream_key merge_stream st (streams d)\<rparr>"

definition UpsertStream :: "stream \<Rightarrow> dbconn \<Rightarrow> unit res \<times> dbconn" where
  "UpsertStream st = db_exec (\<lambda>d. Inr (upsert_stream st d, ()))"

record stream_update =
  upd_StreamTitle :: "string option"
  upd_StartTime :: "string option"
  upd_MediaType :: "string option"

definition update_IsEmpty :: "stream_update \<Rightarrow> bool" where
  "update_IsEmpty u \<longleftrightarrow> upd_StreamTitle u = None \<and> upd_StartTime u = None \<and> upd_MediaType u = None"

definition set_opt :: "('a \<Rightarrow> 'r \<Rightarrow> 'r) \<Rightarrow> 'a option \<Rightarrow> 'r \<Rightarrow> 'r" where
  "set_opt f x r = (case x of None \<Rightarrow> r | Some v \<Rightarrow> f v r)"

definition apply_update :: "stream_update \<Rightarrow> stream \<Rightarrow> stream" where
  "apply_update u s =
     set_opt (\<lambda>v s. s\<lparr>MediaType := v\<rparr>) (upd_MediaType u)
      (set_opt (\<lambda>v s. s\<lparr>StartTime := v\<rparr>) (upd_StartTime u)
        (set_opt (\<lambda>v s. s\<lparr>StreamTitle := v\<rparr>) (upd_StreamTitle u) s))"

definition UpdateStream :: "string \<Rightarrow> string \<Rightarrow> stream_update \<Rightarrow> dbconn \<Rightarrow> unit res \<times> dbconn" where
  "UpdateStream ch sid u c =
     (if update_IsEmpty u then (Inl ErrNoUpdate, c)
      else (case db_exec_rows (\<lambda>d. Inr
               (d\<lparr>streams := update_where (of_stream ch sid) (apply_update u) (streams d)\<rparr>,
                count_where (of_stream ch sid) (streams d))) c of
          (Inl e, c1) \<Rightarrow> (Inl e, c1)
        | (Inr n, c1) \<Rightarrow> (if n = 0 then (Inl ErrNotFound, c1) else (Inr (), c1))))"

definition set_live :: "string \<Rightarrow> string \<Rightarrow> bool \<Rightarrow> db \<Rightarrow> db" where
  "set_live ch sid b d =
     d\<lparr>streams := update_where (of_stream ch sid) (\<lambda>s. s\<lparr>IsLive := b\<rparr>) (streams d)\<rparr>"

definition SetStreamLive :: "string \<Rightarrow> string \<Rightarrow> bool \<Rightarrow> dbconn \<Rightarrow> unit res \<times> dbconn" where
  "SetStreamLive ch sid b = db_exec (\<lambda>d. Inr (set_live ch sid b d, ()))"

definition StreamExists :: "string \<Rightarrow> string \<Rightarrow> dbconn \<Rightarrow> bool res \<times> dbconn" where
  "StreamExists ch sid = db_query (\<lambda>d. list_ex (of_stream ch sid) (streams d))"

section \<open>\<^verbatim>\<open>transcripts.go\<close>\<close>

definition sel_rows :: "string \<Rightarrow> string \<Rightarrow> db \<Rightarrow> trow list" where
  "sel_rows ch sid d = filter (in_stream ch sid) (transcripts d)"

definition ins_line :: "string \<Rightarrow> string \<Rightarrow> line \<Rightarrow> db \<Rightarrow> db res" where
  "ins_line ch sid l d =
     (case insert_row row_key (row_of_line ch sid l) (transcripts d) of
        Inl e \<Rightarrow> Inl e | Inr rows \<Rightarrow> Inr (d\<lparr>transcripts := rows\<rparr>))"

definition ReplaceTranscript :: "string \<Rightarrow> string \<Rightarrow> line list \<Rightarrow> dbconn \<Rightarrow> unit res \<times> dbconn" where
  "ReplaceTranscript ch sid lines c =
     (case begin_tx c of
        (Inl e, c1) \<Rightarrow> (Inl e, c1)
      | (Inr tx, c1) \<Rightarrow> (case tx_exec (\<lambda>d. Inr (del_lines ch sid d)) tx c1 of
          (Inl e, c2) \<Rightarrow> (Inl e, c2)
        | (Inr tx2, c2) \<Rightarrow> (case tx_prepare c2 of
            (Inl e, c3) \<Rightarrow> (Inl e, c3)
          | (Inr _, c3) \<Rightarrow> (case tx_exec_each (ins_line ch sid) lines tx2 c3 of
              (Inl e, c4) \<Rightarrow> (Inl e, c4)
            | (Inr tx4, c4) \<Rightarrow> tx_commit tx4 c4))))"

definition DeleteTranscript :: "string \<Rightarrow> string \<Rightarrow> dbconn \<Rightarrow> unit res \<times> dbconn" where
  "DeleteTranscript ch sid = db_exec (\<lambda>d. Inr (del_lines ch sid d, ()))"

definition last_row :: "string \<Rightarrow> string \<Rightarrow> db \<Rightarrow> trow option" where
  "last_row ch sid d = first_row (order_desc row_id (sel_rows ch sid d))"

definition InsertNextLine :: "string \<Rightarrow> string \<Rightarrow> line \<Rightarrow> dbconn \<Rightarrow> unit res \<times> dbconn" where
  "InsertNextLine ch sid l c =
     (case begin_tx c of
        (Inl e, c1) \<Rightarrow> (Inl e, c1)
      | (Inr tx, c1) \<Rightarrow> (case tx_query (last_row ch sid) tx c1 of
          (Inl e, c2) \<Rightarrow> (Inl e, c2)
        | (Inr r, c2) \<Rightarrow>
            (let last = (case r of None \<Rightarrow> -1 | Some x \<Rightarrow> row_id x); expected = wrap64 (last + 1)
             in if LineID l \<noteq> expected then (Inl (ErrOutOfSync expected (LineID l)), c2)
                else (case tx_exec (ins_line ch sid l) tx c2 of
                    (Inl e, c3) \<Rightarrow> (Inl e, c3)
                  | (Inr tx3, c3) \<Rightarrow> tx_commit tx3 c3))))"

definition GetTranscript :: "string \<Rightarrow> string \<Rightarrow> dbconn \<Rightarrow> line list res \<times> dbconn" where
  "GetTranscript ch sid = db_query (\<lambda>d. map line_of_row (order_asc row_id (sel_rows ch sid d)))"

definition GetLastLineID :: "string \<Rightarrow> string \<Rightarrow> dbconn \<Rightarrow> int res \<times> dbconn" where
  "GetLastLineID ch sid =
     db_query (\<lambda>d. case last_row ch sid d of None \<Rightarrow> -1 | Some r \<Rightarrow> row_id r)"

definition GetLastLine :: "string \<Rightarrow> string \<Rightarrow> dbconn \<Rightarrow> line option res \<times> dbconn" where
  "GetLastLine ch sid = db_query (\<lambda>d. map_option line_of_row (last_row ch sid d))"

definition SetMediaAvailable ::
  "string \<Rightarrow> string \<Rightarrow> int \<Rightarrow> string \<Rightarrow> bool \<Rightarrow> dbconn \<Rightarrow> unit res \<times> dbconn" where
  "SetMediaAvailable ch sid lid fileID available c =
     (case db_exec_rows (\<lambda>d. Inr
          (d\<lparr>transcripts := update_where (\<lambda>r. in_stream ch sid r \<and> row_id r = lid)
               (\<lambda>r. r\<lparr>row_available := available, row_file := Some fileID\<rparr>) (transcripts d)\<rparr>,
           count_where (\<lambda>r. in_stream ch sid r \<and> row_id r = lid) (transcripts d))) c of
        (Inl e, c1) \<Rightarrow> (Inl e, c1)
      | (Inr n, c1) \<Rightarrow> (if n = 0 then (Inl ErrNotFound, c1) else (Inr (), c1)))"

text \<open>The resulting Go map is an association list (line ids are unique within a stream).\<close>

definition GetLastAvailableMediaFiles ::
  "string \<Rightarrow> string \<Rightarrow> int \<Rightarrow> dbconn \<Rightarrow> (int \<times> string) list res \<times> dbconn" where
  "GetLastAvailableMediaFiles ch sid limit =
     db_query (\<lambda>d. let rows = order_desc row_id (filter with_media (sel_rows ch sid d));
                       sel = (if limit < 0 then rows else take (nat limit) rows)
                   in map (\<lambda>r. (row_id r, null_string (row_file r))) sel)"

definition scanFileIDs :: "trow list \<Rightarrow> string list" where
  "scanFileIDs rows =
     concat (map (\<lambda>r. case row_file r of None \<Rightarrow> [] | Some f \<Rightarrow> if f \<noteq> [] then [f] else []) rows)"

definition GetFileIDsInRange ::
  "string \<Rightarrow> string \<Rightarrow> int \<Rightarrow> int \<Rightarrow> dbconn \<Rightarrow> string list res \<times> dbconn" where
  "GetFileIDsInRange ch sid startID endID =
     db_query (\<lambda>d. scanFileIDs (order_asc row_id
       (filter (\<lambda>r. startID \<le> row_id r \<and> row_id r \<le> endID \<and> with_media r) (sel_rows ch sid d))))"

definition GetAllMediaFileIDs :: "string \<Rightarrow> string \<Rightarrow> dbconn \<Rightarrow> string list res \<times> dbconn" where
  "GetAllMediaFileIDs ch sid =
     db_query (\<lambda>d. scanFileIDs (order_asc row_id (filter with_media (sel_rows ch sid d))))"

definition CountTranscriptMedia :: "string \<Rightarrow> string \<Rightarrow> dbconn \<Rightarrow> (int \<times> int) res \<times> dbconn" where
  "CountTranscriptMedia ch sid =
     db_query (\<lambda>d. let rows = sel_rows ch sid d
       in (int (length rows),
           sum_list (map (\<lambda>r. if row_available r \<and> row_file r \<noteq> None \<and> row_file r \<noteq> Some []
                              then 1 else 0) rows)))"

definition CleanupOrphanedTranscripts :: "dbconn \<Rightarrow> unit res \<times> dbconn" where
  "CleanupOrphanedTranscripts = db_exec (\<lambda>d. Inr
     (d\<lparr>transcripts := delete_where
          (\<lambda>r. (row_channel r, row_stream r) \<notin> set (map stream_key (streams d))) (transcripts d)\<rparr>, ()))"

section \<open>\<^verbatim>\<open>incoming.go\<close>\<close>

definition merge_incoming :: "incoming_row \<Rightarrow> incoming_row \<Rightarrow> incoming_row" where
  "merge_incoming old new = old\<lparr>in_received := in_received new\<rparr>"

definition UpsertIncomingStream :: "string \<Rightarrow> string \<Rightarrow> int \<Rightarrow> dbconn \<Rightarrow> unit res \<times> dbconn" where
  "UpsertIncomingStream ch url receivedAt = db_exec (\<lambda>d. Inr
     (d\<lparr>incoming := upsert_row incoming_key merge_incoming
          \<lparr>in_channel = ch, in_url = url, in_received = receivedAt\<rparr> (incoming d)\<rparr>, ()))"

definition GetIncomingStreams :: "string \<Rightarrow> dbconn \<Rightarrow> string list res \<times> dbconn" where
  "GetIncomingStreams ch = db_query (\<lambda>d.
     map in_url (order_asc in_received (filter (\<lambda>r. in_channel r = ch) (incoming d))))"

definition latest_incoming :: "string \<Rightarrow> db \<Rightarrow> int" where
  "latest_incoming ch d =
     (case map in_received (filter (\<lambda>r. in_channel r = ch) (incoming d)) of
        [] \<Rightarrow> 0 | t # ts \<Rightarrow> fold max ts t)"

definition GetLatestIncomingTime :: "string \<Rightarrow> dbconn \<Rightarrow> int res \<times> dbconn" where
  "GetLatestIncomingTime ch = db_query (latest_incoming ch)"

definition delete_incoming :: "(incoming_row \<Rightarrow> bool) \<Rightarrow> dbconn \<Rightarrow> int res \<times> dbconn" where
  "delete_incoming P = db_exec_rows (\<lambda>d. Inr
     (d\<lparr>incoming := delete_where P (incoming d)\<rparr>, count_where P (incoming d)))"

definition DeleteIncomingStream :: "string \<Rightarrow> string \<Rightarrow> dbconn \<Rightarrow> int res \<times> dbconn" where
  "DeleteIncomingStream ch url = delete_incoming (\<lambda>r. in_channel r = ch \<and> in_url r = url)"

definition CleanupExpiredIncomingStreams :: "int \<Rightarrow> dbconn \<Rightarrow> int res \<times> dbconn" where
  "CleanupExpiredIncomingStreams cutoff = delete_incoming (\<lambda>r. in_received r < cutoff)"

definition ClearIncomingStreams :: "string \<Rightarrow> dbconn \<Rightarrow> int res \<times> dbconn" where
  "ClearIncomingStreams ch = delete_incoming (\<lambda>r. in_channel r = ch)"

section \<open>\<^verbatim>\<open>worker.go\<close>\<close>

definition merge_worker :: "worker_status \<Rightarrow> worker_status \<Rightarrow> worker_status" where
  "merge_worker old new =
     old\<lparr>WorkerVersion := WorkerVersion new, WorkerBuildTime := WorkerBuildTime new,
         LastSeen := LastSeen new\<rparr>"

definition UpsertWorkerStatus ::
  "string \<Rightarrow> string \<Rightarrow> string \<Rightarrow> int \<Rightarrow> dbconn \<Rightarrow> unit res \<times> dbconn" where
  "UpsertWorkerStatus key version buildTime lastSeen = db_exec (\<lambda>d. Inr
     (d\<lparr>worker_rows := upsert_row ChannelKey merge_worker
          \<lparr>ChannelKey = key, WorkerVersion = version, WorkerBuildTime = buildTime,
           LastSeen = lastSeen, IsActive = False\<rparr> (worker_rows d)\<rparr>, ()))"

definition GetWorkerStatusByKey :: "string \<Rightarrow> dbconn \<Rightarrow> worker_status option res \<times> dbconn" where
  "GetWorkerStatusByKey ch = db_query (\<lambda>d. lookup_row ChannelKey ch (worker_rows d))"

definition GetAllWorkerStatus :: "dbconn \<Rightarrow> worker_status list res \<times> dbconn" where
  "GetAllWorkerStatus = db_query (\<lambda>d. order_desc LastSeen (worker_rows d))"

definition ResetWorkerStatus :: "dbconn \<Rightarrow> unit res \<times> dbconn" where
  "ResetWorkerStatus = db_exec (\<lambda>d. Inr (d\<lparr>worker_rows := []\<rparr>, ()))"

definition merge_restart :: "restart_row \<Rightarrow> restart_row \<Rightarrow> restart_row" where
  "merge_restart old new = old\<lparr>rs_requested := rs_requested new\<rparr>"

definition UpsertRestartRequest :: "string \<Rightarrow> int \<Rightarrow> dbconn \<Rightarrow> unit res \<times> dbconn" where
  "UpsertRestartRequest ch requestedAt = db_exec (\<lambda>d. Inr
     (d\<lparr>restarts := upsert_row rs_channel merge_restart
          \<lparr>rs_channel = ch, rs_requested = requestedAt\<rparr> (restarts d)\<rparr>, ()))"

definition restart_time :: "string \<Rightarrow> db \<Rightarrow> int" where
  "restart_time ch d =
     (case lookup_row rs_channel ch (restarts d) of None \<Rightarrow> 0 | Some r \<Rightarrow> rs_requested r)"

definition GetRestartRequest :: "string \<Rightarrow> dbconn \<Rightarrow> int res \<times> dbconn" where
  "GetRestartRequest ch = db_query (restart_time ch)"

definition DeleteRestartRequest :: "string \<Rightarrow> dbconn \<Rightarrow> int res \<times> dbconn" where
  "DeleteRestartRequest ch = db_exec_rows (\<lambda>d. Inr
     (d\<lparr>restarts := delete_where (\<lambda>r. rs_channel r = ch) (restarts d)\<rparr>,
      count_where (\<lambda>r. rs_channel r = ch) (restarts d)))"

section \<open>The tables satisfy the contract of keyed tables\<close>

interpretation stream_table: keyed_table stream_key merge_stream
  by unfold_locales (simp add: stream_key_def merge_stream_def)

interpretation incoming_table: keyed_table incoming_key merge_incoming
  by unfold_locales (simp add: incoming_key_def merge_incoming_def)

interpretation worker_table: keyed_table ChannelKey merge_worker
  by unfold_locales (simp add: merge_worker_def)

interpretation restart_table: keyed_table rs_channel merge_restart
  by unfold_locales (simp add: merge_restart_def)

end
