(* ===== verification/Store_Props.thy ===== *)
theory Store_Props
  imports Store
begin

text \<open>
  What \<^verbatim>\<open>internal/store\<close> promises: primary keys stay unique, transactions are all-or-nothing
  under every driver-fault schedule, \<^verbatim>\<open>InsertNextLine\<close> keeps a transcript gapless, and the
  listing queries agree with each other and with the writes.
\<close>

section \<open>Views of the database\<close>

definition transcript :: "string \<Rightarrow> string \<Rightarrow> db \<Rightarrow> line list" where
  "transcript ch sid d = map line_of_row (order_asc row_id (sel_rows ch sid d))"

definition contiguous :: "string \<Rightarrow> string \<Rightarrow> db \<Rightarrow> bool" where
  "contiguous ch sid d \<longleftrightarrow>
     map LineID (transcript ch sid d) = map int [0..<length (sel_rows ch sid d)]"

definition media_files :: "string \<Rightarrow> string \<Rightarrow> db \<Rightarrow> string list" where
  "media_files ch sid d = scanFileIDs (order_asc row_id (filter with_media (sel_rows ch sid d)))"

definition schema_ok :: "db \<Rightarrow> bool" where
  "schema_ok d \<longleftrightarrow>
     distinct (map stream_key (streams d)) \<and> distinct (map row_key (transcripts d)) \<and>
     distinct (map ChannelKey (worker_rows d)) \<and> distinct (map incoming_key (incoming d)) \<and>
     distinct (map rs_channel (restarts d))"

lemma row_of_line_sel [simp]:
  "row_channel (row_of_line ch sid l) = ch" "row_stream (row_of_line ch sid l) = sid"
  "row_id (row_of_line ch sid l) = LineID l" "line_of_row (row_of_line ch sid l) = l"
  by (simp_all add: row_of_line_def line_of_row_def null_string_def)

lemma LineID_line_of_row [simp]: "LineID (line_of_row r) = row_id r"
  by (simp add: line_of_row_def)

lemma in_stream_row_of_line [simp]: "in_stream ch sid (row_of_line ch' sid' l) \<longleftrightarrow> ch = ch' \<and> sid = sid'"
  by (auto simp: in_stream_def)

lemma set_transcript: "LineID ` set (transcript ch sid d) = row_id ` set (sel_rows ch sid d)"
  by (force simp: transcript_def)

lemma length_transcript [simp]: "length (transcript ch sid d) = length (sel_rows ch sid d)"
  by (simp add: transcript_def)

section \<open>Appending to a sorted selection\<close>

lemma insort_key_before:
  "f a \<le> f x \<Longrightarrow> insort_key f a (ys @ [x]) = insort_key f a ys @ [x]"
  by (induction ys) auto

lemma order_asc_snoc:
  "(\<And>y. y \<in> set xs \<Longrightarrow> k y \<le> k x) \<Longrightarrow> order_asc k (xs @ [x]) = order_asc k xs @ [x]"
  by (induction xs) (simp_all add: order_asc_def sort_key_def insort_key_before)

lemma sel_rows_ins:
  "ins_line ch sid l d = Inr d' \<longleftrightarrow>
     d' = d\<lparr>transcripts := transcripts d @ [row_of_line ch sid l]\<rparr> \<and>
     LineID l \<notin> row_id ` set (sel_rows ch sid d)"
  by (auto simp: ins_line_def insert_row_def row_key_def sel_rows_def in_stream_def
      split: if_splits)

lemma sel_rows_append [simp]:
  "sel_rows ch sid (d\<lparr>transcripts := transcripts d @ [row_of_line ch' sid' l]\<rparr>) =
     sel_rows ch sid d @ (if ch = ch' \<and> sid = sid' then [row_of_line ch' sid' l] else [])"
  by (auto simp: sel_rows_def)

section \<open>\<^const>\<open>InsertNextLine\<close>\<close>

lemma contiguous_ids:
  assumes "contiguous ch sid d"
  shows "row_id ` set (sel_rows ch sid d) = int ` {0..<length (sel_rows ch sid d)}"
proof -
  have "set (map LineID (transcript ch sid d)) = set (map int [0..<length (sel_rows ch sid d)])"
    using assms by (simp add: contiguous_def)
  then show ?thesis using set_transcript [of ch sid d] by simp
qed

lemma last_row_contiguous:
  assumes "contiguous ch sid d"
  shows "(case last_row ch sid d of None \<Rightarrow> - 1 | Some x \<Rightarrow> row_id x)
     = int (length (sel_rows ch sid d)) - 1"
proof (cases "last_row ch sid d")
  case None
  then have "sel_rows ch sid d = []" by (simp add: last_row_def)
  with None show ?thesis by simp
next
  case (Some r)
  let ?rows = "sel_rows ch sid d"
  from Some have r: "first_row (order_desc row_id ?rows) = Some r" by (simp add: last_row_def)
  from first_row_order_desc(1) [OF r] have "?rows \<noteq> []" by auto
  then have "int (length ?rows - 1) \<in> row_id ` set ?rows"
    unfolding contiguous_ids [OF assms] by simp
  then obtain y where "y \<in> set ?rows" "row_id y = int (length ?rows - 1)" by auto
  then have "int (length ?rows - 1) \<le> row_id r"
    using first_row_order_desc(2) [OF r] by force
  moreover have "row_id r \<in> int ` {0..<length ?rows}"
    using first_row_order_desc(1) [OF r] contiguous_ids [OF assms] by blast
  ultimately show ?thesis using Some \<open>?rows \<noteq> []\<close> by auto
qed

lemma transcript_snoc:
  assumes "contiguous ch sid d" "LineID l = int (length (sel_rows ch sid d))"
  shows "transcript ch sid (d\<lparr>transcripts := transcripts d @ [row_of_line ch sid l]\<rparr>)
     = transcript ch sid d @ [l]"
proof -
  have "row_id y \<le> LineID l" if "y \<in> set (sel_rows ch sid d)" for y
    using that contiguous_ids [OF assms(1)] assms(2) by force
  then show ?thesis
    by (simp add: transcript_def order_asc_snoc)
qed

lemma contiguous_snoc:
  assumes "contiguous ch sid d" "LineID l = int (length (sel_rows ch sid d))"
  shows "contiguous ch sid (d\<lparr>transcripts := transcripts d @ [row_of_line ch sid l]\<rparr>)"
  using assms unfolding contiguous_def transcript_snoc [OF assms] by simp

lemma InsertNextLine_Inr:
  assumes "InsertNextLine ch sid l c = (Inr u, c')"
  shows "ins_line ch sid l (conn_db c) = Inr (conn_db c')"
    and "LineID l = wrap64 ((case last_row ch sid (conn_db c) of None \<Rightarrow> -1 | Some x \<Rightarrow> row_id x) + 1)"
  using assms
  by (auto simp: InsertNextLine_def Let_def dest!: begin_tx_Inr tx_query_Inr tx_exec_Inr
      tx_commit_Inr split: prod.splits sum.splits if_splits)

lemma InsertNextLine_Inl:
  "InsertNextLine ch sid l c = (Inl e, c') \<Longrightarrow> conn_db c' = conn_db c"
  by (auto simp: InsertNextLine_def Let_def
      dest!: begin_tx_db tx_query_db tx_exec_db tx_commit_Inl
      split: prod.splits sum.splits if_splits)

lemma InsertNextLine_no_fault:
  assumes "faults c = []" "contiguous ch sid (conn_db c)"
    and "length (sel_rows ch sid (conn_db c)) < 2 ^ 63"
  shows "InsertNextLine ch sid l c =
     (if LineID l = int (length (sel_rows ch sid (conn_db c)))
      then (Inr (), c\<lparr>conn_db := (conn_db c)\<lparr>transcripts :=
               transcripts (conn_db c) @ [row_of_line ch sid l]\<rparr>\<rparr>)
      else (Inl (ErrOutOfSync (int (length (sel_rows ch sid (conn_db c)))) (LineID l)), c))"
proof -
  let ?d = "conn_db c" and ?n = "int (length (sel_rows ch sid (conn_db c)))"
  have last: "(case last_row ch sid ?d of None \<Rightarrow> - 1 | Some x \<Rightarrow> row_id x) = ?n - 1"
    by (rule last_row_contiguous [OF assms(2)])
  have "wrap64 (?n - 1 + 1) = ?n" using assms(3) by simp
  moreover have "ins_line ch sid l ?d = Inr (?d\<lparr>transcripts := transcripts ?d @ [row_of_line ch sid l]\<rparr>)"
    if "LineID l = ?n"
    using that contiguous_ids [OF assms(2)] by (auto simp: sel_rows_ins)
  ultimately show ?thesis
    using assms(1) last
    by (auto simp: InsertNextLine_def sql_defs Let_def)
qed

section \<open>Transactions are all-or-nothing\<close>

lemma DeleteStreamCascade_Inr:
  "DeleteStreamCascade ch sid c = (Inr u, c') \<Longrightarrow>
     conn_db c' = del_lines ch sid (del_stream ch sid (conn_db c))"
  by (auto simp: DeleteStreamCascade_def dest!: begin_tx_Inr tx_exec_Inr tx_commit_Inr
      split: prod.splits sum.splits)

lemma DeleteStreamCascade_Inl:
  "DeleteStreamCascade ch sid c = (Inl e, c') \<Longrightarrow> conn_db c' = conn_db c"
  by (auto simp: DeleteStreamCascade_def dest!: begin_tx_db tx_exec_db tx_commit_Inl
      split: prod.splits sum.splits)

lemma ReplaceTranscript_Inr:
  "ReplaceTranscript ch sid lines c = (Inr u, c') \<Longrightarrow>
     run_each (ins_line ch sid) lines (del_lines ch sid (conn_db c)) = Inr (conn_db c')"
  by (auto simp: ReplaceTranscript_def dest!: begin_tx_Inr tx_exec_Inr tx_exec_each_Inr tx_commit_Inr
      split: prod.splits sum.splits)

lemma ReplaceTranscript_Inl:
  "ReplaceTranscript ch sid lines c = (Inl e, c') \<Longrightarrow> conn_db c' = conn_db c"
  by (auto simp: ReplaceTranscript_def
      dest!: begin_tx_db tx_exec_db tx_prepare_db tx_exec_each_db tx_commit_Inl
      split: prod.splits sum.splits)

lemma del_lines_sel [simp]: "sel_rows ch sid (del_lines ch sid d) = []"
  by (simp add: sel_rows_def del_lines_def delete_where_def filter_empty_conv)

lemma del_lines_sel_other:
  "(ch', sid') \<noteq> (ch, sid) \<Longrightarrow> sel_rows ch' sid' (del_lines ch sid d) = sel_rows ch' sid' d"
  by (auto simp: sel_rows_def del_lines_def delete_where_def in_stream_def intro!: filter_cong)

lemma del_lines_streams [simp]: "streams (del_lines ch sid d) = streams d"
  by (simp add: del_lines_def)

text \<open>Inserting a list of lines into a stream: what it stores and when it succeeds.\<close>

lemma run_ins_lines_Inr:
  "run_each (ins_line ch sid) lines d = Inr d' \<Longrightarrow>
     d' = d\<lparr>transcripts := transcripts d @ map (row_of_line ch sid) lines\<rparr> \<and>
     distinct (map LineID lines) \<and>
     LineID ` set lines \<inter> row_id ` set (sel_rows ch sid d) = {}"
proof (induction lines arbitrary: d)
  case (Cons l lines)
  then obtain d1 where d1: "ins_line ch sid l d = Inr d1" "run_each (ins_line ch sid) lines d1 = Inr d'"
    by (auto split: sum.splits)
  from Cons.IH [OF d1(2)] d1(1) show ?case by (auto simp: sel_rows_ins)
qed simp

lemma run_ins_lines_ok:
  assumes "distinct (map LineID lines)" "LineID ` set lines \<inter> row_id ` set (sel_rows ch sid d) = {}"
  shows "run_each (ins_line ch sid) lines d
     = Inr (d\<lparr>transcripts := transcripts d @ map (row_of_line ch sid) lines\<rparr>)"
  using assms
proof (induction lines arbitrary: d)
  case (Cons l lines)
  let ?d1 = "d\<lparr>transcripts := transcripts d @ [row_of_line ch sid l]\<rparr>"
  have "ins_line ch sid l d = Inr ?d1" using Cons.prems by (auto simp: sel_rows_ins)
  moreover have "run_each (ins_line ch sid) lines ?d1
      = Inr (?d1\<lparr>transcripts := transcripts ?d1 @ map (row_of_line ch sid) lines\<rparr>)"
    by (rule Cons.IH) (use Cons.prems in auto)
  ultimately show ?case by simp
qed simp

lemma sel_rows_append_lines:
  "sel_rows ch' sid' (d\<lparr>transcripts := transcripts d @ map (row_of_line ch sid) lines\<rparr>) =
     sel_rows ch' sid' d @ (if ch' = ch \<and> sid' = sid then map (row_of_line ch sid) lines else [])"
  by (auto simp: sel_rows_def filter_map o_def filter_empty_conv)

lemma order_asc_map: "order_asc k (map f xs) = map f (order_asc (\<lambda>x. k (f x)) xs)"
proof -
  have "insort_key k (f a) (map f ys) = map f (insort_key (\<lambda>x. k (f x)) a ys)" for a ys
    by (induction ys) auto
  then show ?thesis
    by (induction xs) (simp_all add: order_asc_def sort_key_def)
qed

lemma ReplaceTranscript_ok:
  assumes "faults c = []"
  shows "ReplaceTranscript ch sid lines c =
     (if distinct (map LineID lines)
      then (Inr (), c\<lparr>conn_db := (del_lines ch sid (conn_db c))\<lparr>transcripts :=
          transcripts (del_lines ch sid (conn_db c)) @ map (row_of_line ch sid) lines\<rparr>\<rparr>)
      else (Inl ErrConstraint, c))"
proof -
  let ?d = "del_lines ch sid (conn_db c)"
  have err: "run_each (ins_line ch sid) lines d = Inl e \<Longrightarrow> e = ErrConstraint" for d e
    by (induction lines arbitrary: d)
      (auto simp: ins_line_def insert_row_def split: sum.splits if_splits)
  show ?thesis
  proof (cases "distinct (map LineID lines)")
    case True
    then have "run_each (ins_line ch sid) lines ?d
        = Inr (?d\<lparr>transcripts := transcripts ?d @ map (row_of_line ch sid) lines\<rparr>)"
      by (intro run_ins_lines_ok) auto
    with True assms show ?thesis
      by (simp add: ReplaceTranscript_def sql_defs tx_exec_each_ok)
  next
    case False
    then obtain e where "run_each (ins_line ch sid) lines ?d = Inl e"
      using run_ins_lines_Inr by (cases "run_each (ins_line ch sid) lines ?d") blast+
    with False assms err show ?thesis
      by (auto simp: ReplaceTranscript_def sql_defs tx_exec_each_ok)
  qed
qed

lemma transcript_replaced:
  assumes "d' = (del_lines ch sid d)\<lparr>transcripts :=
      transcripts (del_lines ch sid d) @ map (row_of_line ch sid) lines\<rparr>"
  shows "transcript ch sid d' = order_asc LineID lines"
    and "(ch', sid') \<noteq> (ch, sid) \<Longrightarrow> transcript ch' sid' d' = transcript ch' sid' d"
    and "streams d' = streams d"
  unfolding assms transcript_def sel_rows_append_lines
  using del_lines_sel_other [of ch' sid' ch sid d] by (auto simp: order_asc_map o_def)

section \<open>Listing queries agree\<close>

lemma length_scanFileIDs:
  "length (scanFileIDs rows) = length (filter (\<lambda>r. row_file r \<noteq> None \<and> row_file r \<noteq> Some []) rows)"
  by (induction rows) (auto simp: scanFileIDs_def split: option.splits)

lemma sum_list_indicator: "sum_list (map (\<lambda>r. if P r then 1 else 0 :: int) rows) = int (length (filter P rows))"
  by (induction rows) auto

lemma count_matches_files:
  "sum_list (map (\<lambda>r. if row_available r \<and> row_file r \<noteq> None \<and> row_file r \<noteq> Some [] then 1 else 0)
     (sel_rows ch sid d)) = int (length (media_files ch sid d))"
proof -
  have "length (filter (\<lambda>r. row_file r \<noteq> None \<and> row_file r \<noteq> Some [])
          (order_asc row_id (filter with_media (sel_rows ch sid d))))
      = length (filter (\<lambda>r. row_available r \<and> row_file r \<noteq> None \<and> row_file r \<noteq> Some []) (sel_rows ch sid d))"
    by (simp add: filter_order_asc with_media_def conj_commute conj_left_commute)
  then show ?thesis
    unfolding sum_list_indicator media_files_def length_scanFileIDs by simp
qed

lemma set_scanFileIDs: "set (scanFileIDs rows) = {f. f \<noteq> [] \<and> (\<exists>r \<in> set rows. row_file r = Some f)}"
  by (induction rows) (auto simp: scanFileIDs_def split: option.splits if_splits)

section \<open>Lines and their media\<close>

definition avail_rows :: "string \<Rightarrow> string \<Rightarrow> db \<Rightarrow> (int \<times> string) set" where
  "avail_rows ch sid d =
     (\<lambda>r. (row_id r, null_string (row_file r))) ` {r \<in> set (sel_rows ch sid d). with_media r}"

lemma GetLastAvailableMediaFiles_all:
  assumes "GetLastAvailableMediaFiles ch sid (-1) c = (Inr files, c')"
  shows "set files = avail_rows ch sid (conn_db c)" and "conn_db c' = conn_db c"
  using db_query_Inr [OF assms [unfolded GetLastAvailableMediaFiles_def]]
  by (auto simp: Let_def avail_rows_def)

definition mark_media :: "string \<Rightarrow> string \<Rightarrow> int \<Rightarrow> string \<Rightarrow> bool \<Rightarrow> db \<Rightarrow> db" where
  "mark_media ch sid lid f b d =
     d\<lparr>transcripts := update_where (\<lambda>r. in_stream ch sid r \<and> row_id r = lid)
          (\<lambda>r. r\<lparr>row_available := b, row_file := Some f\<rparr>) (transcripts d)\<rparr>"

lemma SetMediaAvailable_Inr:
  assumes "SetMediaAvailable ch sid lid f b c = (Inr u, c')"
  shows "conn_db c' = mark_media ch sid lid f b (conn_db c)"
    and "lid \<in> row_id ` set (sel_rows ch sid (conn_db c))"
  using assms
  by (force simp: SetMediaAvailable_def mark_media_def sel_rows_def dest!: db_exec_rows_Inr
      split: prod.splits sum.splits if_splits)+

lemma SetMediaAvailable_ok:
  "faults c = [] \<Longrightarrow> SetMediaAvailable ch sid lid f b c =
     (if lid \<in> row_id ` set (sel_rows ch sid (conn_db c)) then Inr () else Inl ErrNotFound,
      c\<lparr>conn_db := mark_media ch sid lid f b (conn_db c)\<rparr>)"
  by (auto simp: SetMediaAvailable_def mark_media_def sel_rows_def count_where_def
      filter_empty_conv)

lemma mark_media_none:
  assumes "lid \<notin> row_id ` set (sel_rows ch sid d)"
  shows "mark_media ch sid lid f b d = d"
proof -
  have "update_where (\<lambda>r. in_stream ch sid r \<and> row_id r = lid)
      (\<lambda>r. r\<lparr>row_available := b, row_file := Some f\<rparr>) (transcripts d) = transcripts d"
    unfolding update_where_def using assms by (intro map_idI) (auto simp: sel_rows_def)
  then show ?thesis by (simp add: mark_media_def)
qed

lemma mark_media_sel_rows:
  "sel_rows ch sid (mark_media ch sid lid f b d) =
     map (\<lambda>r. if row_id r = lid then r\<lparr>row_available := b, row_file := Some f\<rparr> else r)
       (sel_rows ch sid d)"
proof -
  have "filter (in_stream ch sid) (update_where (\<lambda>r. in_stream ch sid r \<and> row_id r = lid)
        (\<lambda>r. r\<lparr>row_available := b, row_file := Some f\<rparr>) rows)
      = map (\<lambda>r. if row_id r = lid then r\<lparr>row_available := b, row_file := Some f\<rparr> else r)
          (filter (in_stream ch sid) rows)" for rows
    by (induction rows) (auto simp: update_where_def in_stream_def)
  then show ?thesis by (simp add: sel_rows_def mark_media_def)
qed

lemma mark_media_sel:
  "set (sel_rows ch sid (mark_media ch sid lid f b d)) =
     (\<lambda>r. if row_id r = lid then r\<lparr>row_available := b, row_file := Some f\<rparr> else r)
       ` set (sel_rows ch sid d)"
  by (simp add: mark_media_sel_rows)

lemma mark_media_available:
  assumes "lid \<in> row_id ` set (sel_rows ch sid d)"
  shows "(lid, f) \<in> avail_rows ch sid (mark_media ch sid lid f True d)"
proof -
  from assms obtain r where r: "r \<in> set (sel_rows ch sid d)" "row_id r = lid" by auto
  let ?r = "r\<lparr>row_available := True, row_file := Some f\<rparr>"
  have "?r \<in> set (sel_rows ch sid (mark_media ch sid lid f True d))"
    unfolding mark_media_sel using r by (auto intro!: rev_image_eqI)
  then show ?thesis
    using r(2) by (auto simp: avail_rows_def with_media_def null_string_def intro!: rev_image_eqI)
qed

lemma mark_media_streams [simp]: "streams (mark_media ch sid lid f b d) = streams d"
  by (simp add: mark_media_def)

section \<open>Every run of store operations keeps the primary keys unique\<close>

inductive store_step :: "dbconn \<Rightarrow> dbconn \<Rightarrow> bool" where
  step_delete_stream: "DeleteStream ch sid c = (r, c') \<Longrightarrow> store_step c c'"
| step_delete_cascade: "DeleteStreamCascade ch sid c = (r, c') \<Longrightarrow> store_step c c'"
| step_upsert_stream: "UpsertStream st c = (r, c') \<Longrightarrow> store_step c c'"
| step_update_stream: "UpdateStream ch sid u c = (r, c') \<Longrightarrow> store_step c c'"
| step_set_live: "SetStreamLive ch sid b c = (r, c') \<Longrightarrow> store_step c c'"
| step_replace: "ReplaceTranscript ch sid ls c = (r, c') \<Longrightarrow> store_step c c'"
| step_delete_transcript: "DeleteTranscript ch sid c = (r, c') \<Longrightarrow> store_step c c'"
| step_insert_line: "InsertNextLine ch sid l c = (r, c') \<Longrightarrow> store_step c c'"
| step_set_media: "SetMediaAvailable ch sid lid f b c = (r, c') \<Longrightarrow> store_step c c'"
| step_orphans: "CleanupOrphanedTranscripts c = (r, c') \<Longrightarrow> store_step c c'"
| step_upsert_incoming: "UpsertIncomingStream ch url t c = (r, c') \<Longrightarrow> store_step c c'"
| step_delete_incoming: "DeleteIncomingStream ch url c = (n, c') \<Longrightarrow> store_step c c'"
| step_expire_incoming: "CleanupExpiredIncomingStreams t c = (n, c') \<Longrightarrow> store_step c c'"
| step_clear_incoming: "ClearIncomingStreams ch c = (n, c') \<Longrightarrow> store_step c c'"
| step_upsert_worker: "UpsertWorkerStatus ch v bt t c = (r, c') \<Longrightarrow> store_step c c'"
| step_reset_worker: "ResetWorkerStatus c = (r, c') \<Longrightarrow> store_step c c'"
| step_upsert_restart: "UpsertRestartRequest ch t c = (r, c') \<Longrightarrow> store_step c c'"
| step_delete_restart: "DeleteRestartRequest ch c = (n, c') \<Longrightarrow> store_step c c'"
| step_read: "db_query (\<lambda>_. ()) c = (x, c') \<Longrightarrow> store_step c c'"

inductive store_reachable :: "dbconn \<Rightarrow> bool" where
  reach_open: "conn_db c = createSchema \<Longrightarrow> store_reachable c"
| reach_step: "store_reachable c \<Longrightarrow> store_step c c' \<Longrightarrow> store_reachable c'"

lemma stream_key_updates [simp]:
  "stream_key (s\<lparr>IsLive := b\<rparr>) = stream_key s" "stream_key (apply_update u s) = stream_key s"
  by (auto simp: stream_key_def apply_update_def set_opt_def split: option.splits)

lemma schema_ok_del_stream: "schema_ok d \<Longrightarrow> schema_ok (del_stream ch sid d)"
  by (simp add: schema_ok_def del_stream_def distinct_delete_where)

lemma schema_ok_del_lines: "schema_ok d \<Longrightarrow> schema_ok (del_lines ch sid d)"
  by (simp add: schema_ok_def del_lines_def distinct_delete_where)

lemma schema_ok_ins_line: "ins_line ch sid l d = Inr d' \<Longrightarrow> schema_ok d \<Longrightarrow> schema_ok d'"
  by (auto simp: schema_ok_def ins_line_def dest: distinct_insert_row split: sum.splits)

lemma schema_ok_run_ins:
  "run_each (ins_line ch sid) ls d = Inr d' \<Longrightarrow> schema_ok d \<Longrightarrow> schema_ok d'"
  by (induction ls arbitrary: d) (auto dest: schema_ok_ins_line split: sum.splits)

lemma schema_ok_upsert_stream: "schema_ok d \<Longrightarrow> schema_ok (upsert_stream st d)"
  by (simp add: schema_ok_def upsert_stream_def stream_table.distinct_upsert)

lemma schema_ok_set_live: "schema_ok d \<Longrightarrow> schema_ok (set_live ch sid b d)"
  by (simp add: schema_ok_def set_live_def map_key_update_where)

lemma schema_ok_mark_media: "schema_ok d \<Longrightarrow> schema_ok (mark_media ch sid lid f b d)"
  by (simp add: schema_ok_def mark_media_def map_key_update_where row_key_def)

lemmas schema_ok_intros = schema_ok_del_stream schema_ok_del_lines schema_ok_upsert_stream
  schema_ok_set_live schema_ok_mark_media

lemma schema_ok_exec:
  "db_exec f c = (r, c') \<Longrightarrow> (\<And>d d' x. f d = Inr (d', x) \<Longrightarrow> schema_ok d \<Longrightarrow> schema_ok d') \<Longrightarrow>
     schema_ok (conn_db c) \<Longrightarrow> schema_ok (conn_db c')"
  by (erule db_exec_cases) auto

lemma schema_ok_exec_rows:
  "db_exec_rows f c = (r, c') \<Longrightarrow> (\<And>d d' x. f d = Inr (d', x) \<Longrightarrow> schema_ok d \<Longrightarrow> schema_ok d') \<Longrightarrow>
     schema_ok (conn_db c) \<Longrightarrow> schema_ok (conn_db c')"
  by (drule db_exec_rows_effect) auto

lemma schema_ok_UpdateStream:
  assumes "UpdateStream ch sid u c = (r, c')" "schema_ok (conn_db c)"
  shows "schema_ok (conn_db c')"
proof (cases "update_IsEmpty u")
  case False
  with assms(1) obtain n where "db_exec_rows (\<lambda>d. Inr
      (d\<lparr>streams := update_where (of_stream ch sid) (apply_update u) (streams d)\<rparr>,
       count_where (of_stream ch sid) (streams d))) c = (n, c')"
    by (auto simp: UpdateStream_def split: prod.splits sum.splits if_splits)
  then show ?thesis
    by (rule schema_ok_exec_rows) (use assms(2) in \<open>auto simp: schema_ok_def map_key_update_where\<close>)
qed (use assms in \<open>simp add: UpdateStream_def\<close>)

lemma schema_ok_SetMediaAvailable:
  assumes "SetMediaAvailable ch sid lid f b c = (r, c')" "schema_ok (conn_db c)"
  shows "schema_ok (conn_db c')"
proof -
  from assms(1) obtain n where "db_exec_rows (\<lambda>d. Inr (mark_media ch sid lid f b d,
      count_where (\<lambda>r. in_stream ch sid r \<and> row_id r = lid) (transcripts d))) c = (n, c')"
    by (auto simp: SetMediaAvailable_def mark_media_def split: prod.splits sum.splits if_splits)
  then show ?thesis
    by (rule schema_ok_exec_rows) (use assms(2) in \<open>auto intro: schema_ok_mark_media\<close>)
qed

lemma schema_ok_tx:
  "DeleteStreamCascade ch sid c = (r, c') \<Longrightarrow> schema_ok (conn_db c) \<Longrightarrow> schema_ok (conn_db c')"
  "ReplaceTranscript ch sid ls c = (r, c') \<Longrightarrow> schema_ok (conn_db c) \<Longrightarrow> schema_ok (conn_db c')"
  "InsertNextLine ch sid l c = (r, c') \<Longrightarrow> schema_ok (conn_db c) \<Longrightarrow> schema_ok (conn_db c')"
  by (cases r; auto dest!: DeleteStreamCascade_Inr DeleteStreamCascade_Inl ReplaceTranscript_Inr
      ReplaceTranscript_Inl InsertNextLine_Inr(1) InsertNextLine_Inl
      intro: schema_ok_intros schema_ok_run_ins schema_ok_ins_line)+

lemma schema_ok_keyed:
  "schema_ok d \<Longrightarrow> schema_ok (d\<lparr>incoming := upsert_row incoming_key merge_incoming x (incoming d)\<rparr>)"
  "schema_ok d \<Longrightarrow> schema_ok (d\<lparr>worker_rows := upsert_row ChannelKey merge_worker w (worker_rows d)\<rparr>)"
  "schema_ok d \<Longrightarrow> schema_ok (d\<lparr>restarts := upsert_row rs_channel merge_restart y (restarts d)\<rparr>)"
  "schema_ok d \<Longrightarrow> schema_ok (d\<lparr>incoming := delete_where P (incoming d)\<rparr>)"
  "schema_ok d \<Longrightarrow> schema_ok (d\<lparr>transcripts := delete_where Q (transcripts d)\<rparr>)"
  "schema_ok d \<Longrightarrow> schema_ok (d\<lparr>restarts := delete_where R (restarts d)\<rparr>)"
  "schema_ok d \<Longrightarrow> schema_ok (d\<lparr>worker_rows := []\<rparr>)"
  by (simp_all add: schema_ok_def incoming_table.distinct_upsert worker_table.distinct_upsert
      restart_table.distinct_upsert distinct_delete_where)

lemma store_step_schema_ok: "store_step c c' \<Longrightarrow> schema_ok (conn_db c) \<Longrightarrow> schema_ok (conn_db c')"
proof (induction rule: store_step.induct)
  case (step_read c x c')
  then show ?case by (simp add: db_query_db)
qed (auto simp: DeleteStream_def UpsertStream_def SetStreamLive_def DeleteTranscript_def
      CleanupOrphanedTranscripts_def UpsertIncomingStream_def DeleteIncomingStream_def
      CleanupExpiredIncomingStreams_def ClearIncomingStreams_def delete_incoming_def
      UpsertWorkerStatus_def ResetWorkerStatus_def UpsertRestartRequest_def DeleteRestartRequest_def
    intro: schema_ok_tx schema_ok_UpdateStream schema_ok_SetMediaAvailable
    elim!: schema_ok_exec schema_ok_exec_rows intro!: schema_ok_intros schema_ok_keyed)

lemma store_reachable_schema_ok: "store_reachable c \<Longrightarrow> schema_ok (conn_db c)"
proof (induction rule: store_reachable.induct)
  case (reach_open c)
  then show ?case by (simp add: schema_ok_def createSchema_def)
next
  case (reach_step c c')
  then show ?case by (blast intro: store_step_schema_ok)
qed

section \<open>Properties\<close>

text \<open>C5. Appending a line: on a gapless transcript \<^verbatim>\<open>InsertNextLine\<close> either appends exactly the
  received line (and then its id was the next one) and the transcript stays gapless, or it reports
  an error and changes nothing, whatever statement of the transaction the driver fails; without
  driver faults it succeeds exactly for the next id and otherwise names the expected one.\<close>

theorem insert_next_line_appends:
  assumes "contiguous ch sid (conn_db c)" and "length (transcript ch sid (conn_db c)) < 2 ^ 63"
    and "InsertNextLine ch sid l c = (r, c')"
  shows "(case r of
       Inr _ \<Rightarrow> LineID l = int (length (transcript ch sid (conn_db c))) \<and>
              transcript ch sid (conn_db c') = transcript ch sid (conn_db c) @ [l] \<and>
              contiguous ch sid (conn_db c') \<and> streams (conn_db c') = streams (conn_db c)
     | Inl e \<Rightarrow> conn_db c' = conn_db c) \<and>
    (faults c = [] \<longrightarrow> r =
       (if LineID l = int (length (transcript ch sid (conn_db c))) then Inr ()
        else Inl (ErrOutOfSync (int (length (transcript ch sid (conn_db c)))) (LineID l))))"
proof (intro conjI impI)
  let ?n = "int (length (sel_rows ch sid (conn_db c)))"
  show "(case r of
       Inr _ \<Rightarrow> LineID l = int (length (transcript ch sid (conn_db c))) \<and>
              transcript ch sid (conn_db c') = transcript ch sid (conn_db c) @ [l] \<and>
              contiguous ch sid (conn_db c') \<and> streams (conn_db c') = streams (conn_db c)
     | Inl e \<Rightarrow> conn_db c' = conn_db c)"
  proof (cases r)
    case (Inl e)
    with assms(3) show ?thesis by (auto dest: InsertNextLine_Inl)
  next
    case (Inr u)
    note ins = InsertNextLine_Inr [OF assms(3) [unfolded Inr]]
    have id: "LineID l = ?n"
      using ins(2) assms(2) unfolding last_row_contiguous [OF assms(1)] by simp
    from ins(1) have "conn_db c' = (conn_db c)\<lparr>transcripts :=
        transcripts (conn_db c) @ [row_of_line ch sid l]\<rparr>" by (simp add: sel_rows_ins)
    with Inr id assms(1) show ?thesis
      by (simp add: transcript_snoc contiguous_snoc del: sel_rows_append)
  qed
  assume "faults c = []"
  then show "r = (if LineID l = int (length (transcript ch sid (conn_db c))) then Inr ()
        else Inl (ErrOutOfSync (int (length (transcript ch sid (conn_db c)))) (LineID l)))"
    using InsertNextLine_no_fault [of c ch sid l] assms by (auto split: if_splits)
qed

definition line_at :: "int \<Rightarrow> line" where
  "line_at i = \<lparr>LineID = i, FileID = [], Timestamp = 10 * i, Segments = ''[]'',
     MediaAvailable = False, VodAccurate = False\<rparr>"

definition one_line_db :: db where
  "one_line_db = createSchema\<lparr>transcripts := [row_of_line ''ch'' ''s1'' (line_at 0)]\<rparr>"

lemma one_line_transcript: "transcript ''ch'' ''s1'' one_line_db = [line_at 0]"
  by (simp add: one_line_db_def transcript_def sel_rows_def order_asc_def)

lemma one_line_contiguous: "contiguous ''ch'' ''s1'' one_line_db"
  by (simp add: contiguous_def transcript_def one_line_db_def sel_rows_def order_asc_def line_at_def)

theorem insert_next_line_appends_witness:
  "fst (InsertNextLine ''ch'' ''s1'' (line_at 1) \<lparr>conn_db = one_line_db, faults = []\<rparr>) = Inr () \<and>
   transcript ''ch'' ''s1'' (conn_db (snd (InsertNextLine ''ch'' ''s1'' (line_at 1)
     \<lparr>conn_db = one_line_db, faults = []\<rparr>))) = [line_at 0, line_at 1]"
proof -
  let ?c = "\<lparr>conn_db = one_line_db, faults = []\<rparr>"
  obtain r c' where rc: "InsertNextLine ''ch'' ''s1'' (line_at 1) ?c = (r, c')" by fastforce
  have "r = Inr () \<and> (case r of Inl e \<Rightarrow> True
      | Inr _ \<Rightarrow> transcript ''ch'' ''s1'' (conn_db c') = [line_at 0, line_at 1])"
    using insert_next_line_appends [OF _ _ rc] one_line_contiguous one_line_transcript
    by (auto simp: line_at_def split: sum.splits)
  then show ?thesis using rc by auto
qed

text \<open>C18. Transactions are all-or-nothing: whichever statement of \<^verbatim>\<open>DeleteStreamCascade\<close> or
  \<^verbatim>\<open>ReplaceTranscript\<close> the driver fails (begin, any delete or insert, prepare, commit), the call
  either succeeds with its whole effect or reports an error and leaves the database as it was.\<close>

theorem transactions_all_or_nothing:
  assumes "DeleteStreamCascade ch sid c = (r, c')"
    and "ReplaceTranscript ch sid ls c = (q, c'')"
  shows "(case r of Inl _ \<Rightarrow> conn_db c' = conn_db c
            | Inr _ \<Rightarrow> conn_db c' = del_lines ch sid (del_stream ch sid (conn_db c))) \<and>
    (case q of Inl _ \<Rightarrow> conn_db c'' = conn_db c
            | Inr _ \<Rightarrow> distinct (map LineID ls) \<and> transcript ch sid (conn_db c'') = order_asc LineID ls \<and>
                (\<forall>ch' sid'. (ch', sid') \<noteq> (ch, sid) \<longrightarrow>
                   transcript ch' sid' (conn_db c'') = transcript ch' sid' (conn_db c)))"
proof (intro conjI)
  show "case r of Inl _ \<Rightarrow> conn_db c' = conn_db c
      | Inr _ \<Rightarrow> conn_db c' = del_lines ch sid (del_stream ch sid (conn_db c))"
    using assms(1) by (auto dest: DeleteStreamCascade_Inr DeleteStreamCascade_Inl split: sum.splits)
  show "case q of Inl _ \<Rightarrow> conn_db c'' = conn_db c
      | Inr _ \<Rightarrow> distinct (map LineID ls) \<and> transcript ch sid (conn_db c'') = order_asc LineID ls \<and>
          (\<forall>ch' sid'. (ch', sid') \<noteq> (ch, sid) \<longrightarrow>
             transcript ch' sid' (conn_db c'') = transcript ch' sid' (conn_db c))"
  proof (cases q)
    case (Inl e)
    with assms(2) show ?thesis by (auto dest: ReplaceTranscript_Inl)
  next
    case (Inr u)
    note run = run_ins_lines_Inr [OF ReplaceTranscript_Inr [OF assms(2) [unfolded Inr]]]
    then show ?thesis using Inr transcript_replaced [of "conn_db c''" ch sid "conn_db c" ls] by auto
  qed
qed

theorem transactions_all_or_nothing_witness:
  "conn_db (snd (ReplaceTranscript ''ch'' ''s1'' [line_at 1, line_at 0]
      \<lparr>conn_db = one_line_db, faults = [None, None, None, None, Some ErrDriver]\<rparr>)) = one_line_db \<and>
   transcript ''ch'' ''s1'' (conn_db (snd (ReplaceTranscript ''ch'' ''s1'' [line_at 1, line_at 0]
      \<lparr>conn_db = one_line_db, faults = []\<rparr>))) = [line_at 0, line_at 1]"
proof -
  let ?c = "\<lparr>conn_db = one_line_db, faults = [None, None, None, None, Some ErrDriver]\<rparr>"
  let ?d = "\<lparr>conn_db = one_line_db, faults = []\<rparr>"
  let ?ls = "[line_at 1, line_at 0]"
  obtain q c'' where q: "ReplaceTranscript ''ch'' ''s1'' ?ls ?c = (q, c'')" by fastforce
  obtain r c' where r: "DeleteStreamCascade ''ch'' ''s1'' ?c = (r, c')" by fastforce
  obtain q2 c2 where q2: "ReplaceTranscript ''ch'' ''s1'' ?ls ?d = (q2, c2)" by fastforce
  obtain r2 c3 where r2: "DeleteStreamCascade ''ch'' ''s1'' ?d = (r2, c3)" by fastforce
  have "\<exists>e. q = Inl e"
    using q by (auto simp: ReplaceTranscript_def sql_defs sql_tick_def ins_line_def insert_row_def
        row_key_def del_lines_def delete_where_def one_line_db_def line_at_def createSchema_def
        split: if_splits)
  then have "conn_db c'' = one_line_db"
    using transactions_all_or_nothing [OF r q] by auto
  moreover have "q2 = Inr ()"
    using q2 ReplaceTranscript_ok [of ?d "''ch''" "''s1''" ?ls] by (simp add: line_at_def)
  then have "transcript ''ch'' ''s1'' (conn_db c2) = [line_at 0, line_at 1]"
    using transactions_all_or_nothing [OF r2 q2] by (simp add: order_asc_def line_at_def)
  ultimately show ?thesis by (simp add: q q2)
qed

text \<open>Every database reached from the empty schema by any sequence of store calls, under any
  driver faults, keeps the five primary keys unique: one row per stream, line, worker, queued URL
  and restart request.\<close>

theorem reachable_primary_keys:
  assumes "store_reachable c"
  shows "distinct (map stream_key (streams (conn_db c))) \<and>
    distinct (map row_key (transcripts (conn_db c))) \<and>
    distinct (map ChannelKey (worker_rows (conn_db c))) \<and>
    distinct (map incoming_key (incoming (conn_db c))) \<and>
    distinct (map rs_channel (restarts (conn_db c)))"
  using store_reachable_schema_ok [OF assms] by (simp add: schema_ok_def)

theorem reachable_primary_keys_witness:
  "distinct (map row_key (transcripts (conn_db (snd (InsertNextLine ''ch'' ''s1'' (line_at 0)
     \<lparr>conn_db = createSchema, faults = []\<rparr>)))))"
proof -
  let ?c = "\<lparr>conn_db = createSchema, faults = []\<rparr>"
  obtain r c' where rc: "InsertNextLine ''ch'' ''s1'' (line_at 0) ?c = (r, c')" by fastforce
  have "store_reachable c'"
    by (rule reach_step [OF reach_open step_insert_line [OF rc]]) simp
  from reachable_primary_keys [OF this] show ?thesis by (simp add: rc)
qed

text \<open>\<^verbatim>\<open>CountTranscriptMedia\<close> counts exactly the lines \<^verbatim>\<open>GetAllMediaFileIDs\<close> returns, as its
  comment promises, its total is the transcript's length, and a clip range query returns a
  sub-collection of them.\<close>

theorem count_agrees_with_file_ids:
  assumes "CountTranscriptMedia ch sid c = (Inr (tot, withMedia), c1)"
    and "GetAllMediaFileIDs ch sid c1 = (Inr fs, c2)"
    and "GetFileIDsInRange ch sid a b c2 = (Inr gs, c3)"
  shows "withMedia = int (length fs) \<and> tot = int (length (transcript ch sid (conn_db c))) \<and>
    withMedia \<le> tot \<and> [] \<notin> set fs \<and> set gs \<subseteq> set fs"
proof -
  note 1 = db_query_Inr [OF assms(1) [unfolded CountTranscriptMedia_def]]
  note 2 = db_query_Inr [OF assms(2) [unfolded GetAllMediaFileIDs_def]]
  note 3 = db_query_Inr [OF assms(3) [unfolded GetFileIDsInRange_def]]
  have fs: "fs = media_files ch sid (conn_db c)" using 1 2 by (simp add: media_files_def)
  have "withMedia = int (length fs)" "tot = int (length (sel_rows ch sid (conn_db c)))"
    using 1 count_matches_files [of ch sid "conn_db c"] by (simp_all add: Let_def fs)
  moreover have "length fs \<le> length (sel_rows ch sid (conn_db c))"
    unfolding fs media_files_def length_scanFileIDs filter_order_asc length_order filter_filter
    by (rule length_filter_le)
  moreover have "[] \<notin> set fs" by (simp add: fs media_files_def set_scanFileIDs)
  moreover have "set gs \<subseteq> set fs"
    using 1 2 3 by (auto simp: set_scanFileIDs)
  ultimately show ?thesis by simp
qed

definition media_db :: db where
  "media_db = createSchema\<lparr>transcripts :=
     [row_of_line ''ch'' ''s1'' ((line_at 0)\<lparr>MediaAvailable := True, FileID := ''f0''\<rparr>),
      row_of_line ''ch'' ''s1'' (line_at 1)]\<rparr>"

theorem count_agrees_with_file_ids_witness:
  "CountTranscriptMedia ''ch'' ''s1'' \<lparr>conn_db = media_db, faults = []\<rparr>
     = (Inr (2, 1), \<lparr>conn_db = media_db, faults = []\<rparr>) \<and> (1 :: int) = int (length [''f0''])"
proof -
  let ?c = "\<lparr>conn_db = media_db, faults = []\<rparr>"
  have rows: "sel_rows ''ch'' ''s1'' media_db = transcripts media_db"
    by (simp add: media_db_def sel_rows_def)
  have 1: "CountTranscriptMedia ''ch'' ''s1'' ?c = (Inr (2, 1), ?c)"
    by (simp add: CountTranscriptMedia_def rows) (simp add: media_db_def row_of_line_def line_at_def)
  have 2: "GetAllMediaFileIDs ''ch'' ''s1'' ?c = (Inr [''f0''], ?c)"
    by (simp add: GetAllMediaFileIDs_def rows)
      (simp add: media_db_def row_of_line_def line_at_def with_media_def order_asc_def scanFileIDs_def)
  have 3: "GetFileIDsInRange ''ch'' ''s1'' 0 0 ?c = (Inr [''f0''], ?c)"
    by (simp add: GetFileIDsInRange_def rows)
      (simp add: media_db_def row_of_line_def line_at_def with_media_def order_asc_def scanFileIDs_def)
  from 1 count_agrees_with_file_ids [OF 1 2 3] show ?thesis by simp
qed

end
