(* ===== verification/Hub.thy ===== *)
theory Hub
  imports Model
begin

text \<open>
  \<^verbatim>\<open>internal/ws/hub.go\<close>: the per-channel connection registry and fan-out. Clients are pointers
  (natural numbers) into a heap, as the write pump and the read loop keep using a client after the
  hub has dropped it. Each definition is one critical section of the mutex or one step outside it;
  the step relation interleaves the sections of any number of goroutines.
\<close>

section \<open>State\<close>

record client =
  send :: "message list" \<comment> \<open>the buffered channel, oldest first\<close>
  done_closed :: bool \<comment> \<open>whether the \<^verbatim>\<open>done\<close> channel is closed\<close>
  conn_open :: bool
  writing :: "message option" \<comment> \<open>the message the write pump is inside \<^verbatim>\<open>WriteJSON\<close> with\<close>

record hub =
  clients :: "nat list"
  connections :: int
  maxConn :: int
  heap :: "nat \<Rightarrow> client option"
  next_ref :: nat

definition send_capacity :: nat where
  "send_capacity = 256"

definition NewHub :: "int \<Rightarrow> hub" where
  "NewHub maxC = \<lparr>clients = [], connections = 0, maxConn = maxC, heap = (\<lambda>_. None), next_ref = 0\<rparr>"

section \<open>Operations\<close>

definition TrySend :: "nat \<Rightarrow> message \<Rightarrow> hub \<Rightarrow> bool \<times> hub" where
  "TrySend c msg h =
     (case heap h c of
        None \<Rightarrow> (False, h)
      | Some cl \<Rightarrow>
          (if done_closed cl then (False, h)
           else if length (send cl) < send_capacity
           then (True, h\<lparr>heap := (heap h)(c \<mapsto> cl\<lparr>send := send cl @ [msg]\<rparr>)\<rparr>)
           else (False, h)))"

definition Reserve :: "hub \<Rightarrow> bool \<times> hub" where
  "Reserve h =
     (if connections h \<ge> maxConn h then (False, h)
      else (True, h\<lparr>connections := connections h + 1\<rparr>))"

definition Unreserve :: "hub \<Rightarrow> hub" where
  "Unreserve h = h\<lparr>connections := connections h - 1\<rparr>"

definition Add :: "hub \<Rightarrow> nat \<times> hub" where
  "Add h =
     (let c = next_ref h
      in (c, h\<lparr>heap := (heap h)(c \<mapsto> \<lparr>send = [], done_closed = False, conn_open = True, writing = None\<rparr>),
               next_ref := Suc c, clients := clients h @ [c]\<rparr>))"

text \<open>
  \<^verbatim>\<open>Remove\<close>: under the lock the first matching entry is deleted and its slot freed; after the
  lock is released, \<^verbatim>\<open>done\<close> and the connection are closed.
\<close>

definition remove_locked :: "nat \<Rightarrow> hub \<Rightarrow> bool \<times> hub" where
  "remove_locked c h =
     (if c \<in> set (clients h)
      then (True, h\<lparr>clients := remove1 c (clients h), connections := connections h - 1\<rparr>)
      else (False, h))"

definition close_client :: "nat \<Rightarrow> hub \<Rightarrow> hub" where
  "close_client c h =
     (case heap h c of None \<Rightarrow> h
      | Some cl \<Rightarrow> h\<lparr>heap := (heap h)(c \<mapsto> cl\<lparr>done_closed := True, conn_open := False\<rparr>)\<rparr>)"

definition Remove :: "nat \<Rightarrow> hub \<Rightarrow> bool \<times> hub" where
  "Remove c h =
     (case remove_locked c h of (False, h1) \<Rightarrow> (False, h1) | (True, h1) \<Rightarrow> (True, close_client c h1))"

text \<open>The loop of \<^verbatim>\<open>Broadcast\<close> under the lock returns the clients that could not take the message.\<close>

fun send_all :: "nat list \<Rightarrow> message \<Rightarrow> hub \<Rightarrow> nat list \<times> hub" where
  "send_all [] msg h = ([], h)"
| "send_all (c # cs) msg h =
     (case TrySend c msg h of
        (ok, h1) \<Rightarrow> (case send_all cs msg h1 of
           (stale, h2) \<Rightarrow> (if ok then stale else c # stale, h2)))"

fun remove_each :: "nat list \<Rightarrow> hub \<Rightarrow> hub" where
  "remove_each [] h = h"
| "remove_each (c # cs) h = remove_each cs (snd (Remove c h))"

definition Broadcast :: "message \<Rightarrow> hub \<Rightarrow> hub" where
  "Broadcast msg h = (case send_all (clients h) msg h of (stale, h1) \<Rightarrow> remove_each stale h1)"

definition Connections :: "hub \<Rightarrow> int" where
  "Connections h = connections h"

definition ClientCount :: "hub \<Rightarrow> int" where
  "ClientCount h = int (length (clients h))"

section \<open>Errors of the connection\<close>

text \<open>
  The error values \<^verbatim>\<open>IsClientDisconnectError\<close> tells apart: a WebSocket close frame with its code,
  \<^verbatim>\<open>net.ErrClosed\<close>, a \<^verbatim>\<open>net.OpError\<close> around another error, a system call error with its number,
  an error wrapping another, and anything else.
\<close>

datatype ws_err =
    CloseError int
  | NetErrClosed
  | OpError ws_err
  | SyscallError int
  | Wrapped ws_err
  | OtherWsErr

fun is_net_closed :: "ws_err \<Rightarrow> bool" where
  "is_net_closed NetErrClosed = True"
| "is_net_closed (OpError e) = is_net_closed e"
| "is_net_closed (Wrapped e) = is_net_closed e"
| "is_net_closed _ = False"

fun as_syscall :: "ws_err \<Rightarrow> int option" where
  "as_syscall (SyscallError n) = Some n"
| "as_syscall (OpError e) = as_syscall e"
| "as_syscall (Wrapped e) = as_syscall e"
| "as_syscall _ = None"

fun as_op_error :: "ws_err \<Rightarrow> ws_err option" where
  "as_op_error (OpError e) = Some e"
| "as_op_error (Wrapped e) = as_op_error e"
| "as_op_error _ = None"

definition IsClientDisconnectError :: "ws_err \<Rightarrow> bool" where
  "IsClientDisconnectError err \<longleftrightarrow>
     (case err of CloseError code \<Rightarrow> code \<in> {1000, 1001, 1005, 1006} | _ \<Rightarrow> False) \<or>
     is_net_closed err \<or>
     (case as_op_error err of
        None \<Rightarrow> False
      | Some inner \<Rightarrow> (case as_syscall inner of
          None \<Rightarrow> False | Some n \<Rightarrow> n = 32 \<or> n = 104))" \<comment> \<open>EPIPE, ECONNRESET\<close>

section \<open>The pumps\<close>

text \<open>
  What one \<^verbatim>\<open>ReadJSON\<close> delivers: an error, a ping whose data is not an object, a ping with the
  integer part of its timestamp (0 when absent), or another event.
\<close>

datatype client_read = ReadErr ws_err | BadPing | Ping int | OtherMessage

fun ReadLoop :: "nat \<Rightarrow> client_read list \<Rightarrow> hub \<Rightarrow> ws_err option option \<times> hub" where
  "ReadLoop c [] h = (None, h)" \<comment> \<open>still reading\<close>
| "ReadLoop c (r # rs) h =
     (case r of
        ReadErr e \<Rightarrow> (if IsClientDisconnectError e then (Some None, h) else (Some (Some e), h))
      | BadPing \<Rightarrow> ReadLoop c rs h
      | Ping ts \<Rightarrow> ReadLoop c rs (snd (TrySend c (EventPong ts) h))
      | OtherMessage \<Rightarrow> ReadLoop c rs h)"

text \<open>
  The write pump. Its select takes the oldest message, a closed \<^verbatim>\<open>done\<close> or a cancelled context. With a
  message it is inside \<^verbatim>\<open>WriteJSON\<close> until the network lets the write succeed or fail: there is no write
  deadline, and meanwhile the pump looks at neither \<^verbatim>\<open>done\<close> nor the context. Once the connection is
  closed the write can only fail. A failed write, \<^verbatim>\<open>done\<close> and the context end the pump, which removes the
  client; the close frame of the second case finds the connection closed.
\<close>

datatype pump_event = PumpTake | PumpWrote bool | PumpDone | PumpCtx

definition writing_of :: "nat \<Rightarrow> hub \<Rightarrow> message option" where
  "writing_of c h = (case heap h c of None \<Rightarrow> None | Some cl \<Rightarrow> writing cl)"

definition conn_is_open :: "nat \<Rightarrow> hub \<Rightarrow> bool" where
  "conn_is_open c h = (case heap h c of None \<Rightarrow> False | Some cl \<Rightarrow> conn_open cl)"

definition pump_pop :: "nat \<Rightarrow> hub \<Rightarrow> hub option" where
  "pump_pop c h =
     (case heap h c of None \<Rightarrow> None
      | Some cl \<Rightarrow> (case send cl of [] \<Rightarrow> None
          | m # ms \<Rightarrow> Some (h\<lparr>heap := (heap h)(c \<mapsto> cl\<lparr>send := ms, writing := Some m\<rparr>)\<rparr>)))"

definition write_returns :: "nat \<Rightarrow> hub \<Rightarrow> hub" where
  "write_returns c h =
     (case heap h c of None \<Rightarrow> h | Some cl \<Rightarrow> h\<lparr>heap := (heap h)(c \<mapsto> cl\<lparr>writing := None\<rparr>)\<rparr>)"

definition writePump :: "nat \<Rightarrow> pump_event \<Rightarrow> hub \<Rightarrow> (message list \<times> bool \<times> hub) option" where
  "writePump c e h =
     (case writing_of c h of
        Some m \<Rightarrow> (case e of
            PumpWrote ok \<Rightarrow>
              (if \<not> ok then Some ([], False, snd (Remove c (write_returns c h)))
               else if conn_is_open c h then Some ([m], True, write_returns c h)
               else None)
          | _ \<Rightarrow> None)
      | None \<Rightarrow> (case e of
            PumpTake \<Rightarrow> (case pump_pop c h of None \<Rightarrow> None | Some h1 \<Rightarrow> Some ([], True, h1))
          | PumpWrote ok \<Rightarrow> None
          | PumpDone \<Rightarrow> (case heap h c of None \<Rightarrow> None
              | Some cl \<Rightarrow> (if done_closed cl then Some ([], False, snd (Remove c h)) else None))
          | PumpCtx \<Rightarrow> Some ([], False, snd (Remove c h))))"

text \<open>A write that only the network can end.\<close>

definition write_stuck :: "nat \<Rightarrow> hub \<Rightarrow> bool" where
  "write_stuck c h \<longleftrightarrow> writing_of c h \<noteq> None \<and> conn_is_open c h"

lemmas hub_defs = TrySend_def Reserve_def Unreserve_def Add_def remove_locked_def close_client_def
  Remove_def

section \<open>The registry invariant\<close>

text \<open>
  \<open>pending\<close> counts the WebSocket handlers between a successful \<^verbatim>\<open>Reserve\<close> and the matching
  \<^verbatim>\<open>Add\<close> or \<^verbatim>\<open>Unreserve\<close>.
\<close>

record hub_sys =
  the_hub :: hub
  pending :: nat

inductive hub_step :: "hub_sys \<Rightarrow> hub_sys \<Rightarrow> bool" where
  reserve: "Reserve (the_hub s) = (True, h) \<Longrightarrow>
     hub_step s (s\<lparr>the_hub := h, pending := Suc (pending s)\<rparr>)"
| reserve_full: "Reserve (the_hub s) = (False, h) \<Longrightarrow> hub_step s (s\<lparr>the_hub := h\<rparr>)"
| upgrade_failed: "pending s = Suc n \<Longrightarrow>
     hub_step s (s\<lparr>the_hub := Unreserve (the_hub s), pending := n\<rparr>)"
| add: "pending s = Suc n \<Longrightarrow> Add (the_hub s) = (c, h) \<Longrightarrow>
     hub_step s (s\<lparr>the_hub := h, pending := n\<rparr>)"
| try_send: "TrySend c msg (the_hub s) = (ok, h) \<Longrightarrow> hub_step s (s\<lparr>the_hub := h\<rparr>)"
| broadcast_send: "send_all (clients (the_hub s)) msg (the_hub s) = (stale, h) \<Longrightarrow>
     hub_step s (s\<lparr>the_hub := h\<rparr>)"
| remove_entry: "remove_locked c (the_hub s) = (b, h) \<Longrightarrow> hub_step s (s\<lparr>the_hub := h\<rparr>)"
| close_removed: "c \<notin> set (clients (the_hub s)) \<Longrightarrow>
     hub_step s (s\<lparr>the_hub := close_client c (the_hub s)\<rparr>)"
| pump: "pump_pop c (the_hub s) = Some h \<Longrightarrow> hub_step s (s\<lparr>the_hub := h\<rparr>)"
| wrote: "hub_step s (s\<lparr>the_hub := write_returns c (the_hub s)\<rparr>)"

inductive hub_reachable :: "int \<Rightarrow> hub_sys \<Rightarrow> bool" for maxC :: int where
  hub_start: "hub_reachable maxC \<lparr>the_hub = NewHub maxC, pending = 0\<rparr>"
| hub_next: "hub_reachable maxC s \<Longrightarrow> hub_step s t \<Longrightarrow> hub_reachable maxC t"

definition hub_inv :: "hub_sys \<Rightarrow> bool" where
  "hub_inv s \<longleftrightarrow>
     distinct (clients (the_hub s)) \<and>
     connections (the_hub s) = int (length (clients (the_hub s)) + pending s) \<and>
     connections (the_hub s) \<le> max 0 (maxConn (the_hub s)) \<and>
     (\<forall>c \<in> set (clients (the_hub s)). \<exists>cl. heap (the_hub s) c = Some cl \<and> \<not> done_closed cl) \<and>
     (\<forall>c cl. heap (the_hub s) c = Some cl \<longrightarrow> c < next_ref (the_hub s) \<and> length (send cl) \<le> send_capacity)"

lemma TrySend_frame:
  assumes "TrySend c msg h = (ok, h')"
  shows "clients h' = clients h" "connections h' = connections h" "maxConn h' = maxConn h"
    "next_ref h' = next_ref h"
    "\<And>x. heap h' x = (case heap h x of None \<Rightarrow> None
       | Some cl \<Rightarrow> if x = c \<and> ok then Some (cl\<lparr>send := send cl @ [msg]\<rparr>) else Some cl)"
    "ok \<longleftrightarrow> (\<exists>cl. heap h c = Some cl \<and> \<not> done_closed cl \<and> length (send cl) < send_capacity)"
  using assms by (auto simp: TrySend_def split: option.splits if_splits)

lemma send_all_frame:
  "send_all cs msg h = (stale, h') \<Longrightarrow> clients h' = clients h \<and> connections h' = connections h \<and>
     maxConn h' = maxConn h \<and> next_ref h' = next_ref h"
  by (induction cs arbitrary: h stale)
    (auto dest: TrySend_frame(1-4) split: prod.splits if_splits)

definition accepts :: "client \<Rightarrow> bool" where
  "accepts cl \<longleftrightarrow> \<not> done_closed cl \<and> length (send cl) < send_capacity"

text \<open>The send loop: each listed client that can take the message has it appended, the others are stale.\<close>

lemma send_all_effect:
  assumes "send_all cs msg h = (stale, h')" and "distinct cs"
  shows "stale = filter (\<lambda>c. \<not> (\<exists>cl. heap h c = Some cl \<and> accepts cl)) cs"
    and "heap h' x = (case heap h x of None \<Rightarrow> None
      | Some cl \<Rightarrow> if x \<in> set cs \<and> accepts cl then Some (cl\<lparr>send := send cl @ [msg]\<rparr>) else Some cl)"
proof -
  have "stale = filter (\<lambda>c. \<not> (\<exists>cl. heap h c = Some cl \<and> accepts cl)) cs \<and>
    (\<forall>x. heap h' x = (case heap h x of None \<Rightarrow> None
      | Some cl \<Rightarrow> if x \<in> set cs \<and> accepts cl then Some (cl\<lparr>send := send cl @ [msg]\<rparr>) else Some cl))"
    using assms
  proof (induction cs arbitrary: h h' stale)
    case Nil
    then show ?case by (auto split: option.splits)
  next
    case (Cons c cs)
    obtain ok h1 where ts: "TrySend c msg h = (ok, h1)" by fastforce
    obtain st h2 where rest: "send_all cs msg h1 = (st, h2)" by fastforce
    from Cons.prems ts rest have res: "stale = (if ok then st else c # st)" "h' = h2" by auto
    note fr = TrySend_frame(5,6) [OF ts]
    have IH: "st = filter (\<lambda>c. \<not> (\<exists>cl. heap h1 c = Some cl \<and> accepts cl)) cs"
      "\<And>x. heap h2 x = (case heap h1 x of None \<Rightarrow> None
        | Some cl \<Rightarrow> if x \<in> set cs \<and> accepts cl then Some (cl\<lparr>send := send cl @ [msg]\<rparr>) else Some cl)"
      using Cons.IH [OF rest] Cons.prems by auto
    have same: "heap h1 x = heap h x" if "x \<noteq> c" for x
      using fr(1) [of x] that by (auto split: option.splits)
    have ok: "ok \<longleftrightarrow> (\<exists>cl. heap h c = Some cl \<and> accepts cl)"
      using fr(2) by (auto simp: accepts_def)
    have "st = filter (\<lambda>c. \<not> (\<exists>cl. heap h c = Some cl \<and> accepts cl)) cs"
      unfolding IH(1)
    proof (intro filter_cong refl)
      fix y assume "y \<in> set cs"
      then have "heap h1 y = heap h y" using same \<open>distinct (c # cs)\<close> by (metis distinct.simps(2))
      then show "(\<not> (\<exists>cl. heap h1 y = Some cl \<and> accepts cl)) = (\<not> (\<exists>cl. heap h y = Some cl \<and> accepts cl))"
        by simp
    qed
    moreover have "heap h2 x = (case heap h x of None \<Rightarrow> None
      | Some cl \<Rightarrow> if x \<in> set (c # cs) \<and> accepts cl then Some (cl\<lparr>send := send cl @ [msg]\<rparr>) else Some cl)" for x
      using IH(2) [of x] fr(1) [of x] ok Cons.prems same [of x]
      by (cases "x = c") (auto split: option.splits)
    ultimately show ?case using res ok by simp
  qed
  then show "stale = filter (\<lambda>c. \<not> (\<exists>cl. heap h c = Some cl \<and> accepts cl)) cs"
    and "heap h' x = (case heap h x of None \<Rightarrow> None
      | Some cl \<Rightarrow> if x \<in> set cs \<and> accepts cl then Some (cl\<lparr>send := send cl @ [msg]\<rparr>) else Some cl)"
    by auto
qed

lemma hub_step_inv: "hub_step s t \<Longrightarrow> hub_inv s \<Longrightarrow> hub_inv t"
proof (induction rule: hub_step.induct)
  case (reserve s h)
  then show ?case by (auto simp: hub_inv_def Reserve_def split: if_splits)
next
  case (reserve_full s h)
  then show ?case by (auto simp: hub_inv_def Reserve_def split: if_splits)
next
  case (upgrade_failed s n)
  then show ?case by (auto simp: hub_inv_def Unreserve_def)
next
  case (add s n c h)
  then show ?case by (fastforce simp: hub_inv_def Add_def Let_def send_capacity_def split: if_splits)
next
  case (try_send c msg s ok h)
  note fr = TrySend_frame [OF try_send(1)]
  show ?case using try_send(2) fr(1-4,6) unfolding hub_inv_def
    by (fastforce simp: fr(5) split: option.splits if_splits)
next
  case (broadcast_send s msg stale h)
  note fr = send_all_frame [OF broadcast_send(1)]
  from broadcast_send(2) have "distinct (clients (the_hub s))" by (simp add: hub_inv_def)
  note eff = send_all_effect(2) [OF broadcast_send(1) this]
  show ?case using broadcast_send(2) fr unfolding hub_inv_def
    by (fastforce simp: eff accepts_def split: option.splits if_splits)
next
  case (remove_entry c s b h)
  show ?case
  proof (cases "c \<in> set (clients (the_hub s))")
    case True
    then obtain xs ys where cl: "clients (the_hub s) = xs @ c # ys" "c \<notin> set xs"
      by (meson split_list_first)
    then have "remove1 c (clients (the_hub s)) = xs @ ys" by (simp add: remove1_append)
    with remove_entry True cl show ?thesis by (auto simp: hub_inv_def remove_locked_def)
  qed (use remove_entry in \<open>auto simp: hub_inv_def remove_locked_def\<close>)
next
  case (close_removed c s)
  then show ?case by (auto simp: hub_inv_def close_client_def split: option.splits)
next
  case (pump c s h)
  then obtain cl m ms where cl: "heap (the_hub s) c = Some cl" "send cl = m # ms"
    and h: "h = (the_hub s)\<lparr>heap := (heap (the_hub s))(c \<mapsto> cl\<lparr>send := ms, writing := Some m\<rparr>)\<rparr>"
    by (auto simp: pump_pop_def split: option.splits list.splits if_splits)
  have "length (send cl) \<le> send_capacity" "c < next_ref (the_hub s)"
    using pump(2) cl(1) unfolding hub_inv_def by blast+
  with cl(2) have "length ms \<le> send_capacity" by simp
  with pump(2) cl(1) h \<open>c < next_ref (the_hub s)\<close> show ?case
    by (fastforce simp: hub_inv_def)
next
  case (wrote s c)
  then show ?case by (auto simp: hub_inv_def write_returns_def split: option.splits)
qed

lemma hub_reachable_inv: "hub_reachable maxC s \<Longrightarrow> hub_inv s \<and> maxConn (the_hub s) = maxC"
proof (induction rule: hub_reachable.induct)
  case hub_start
  then show ?case by (simp add: hub_inv_def NewHub_def)
next
  case (hub_next s t)
  then have "maxConn (the_hub t) = maxConn (the_hub s)"
    by (auto elim!: hub_step.cases simp: Reserve_def Unreserve_def Add_def Let_def TrySend_def
        remove_locked_def close_client_def pump_pop_def write_returns_def dest: send_all_frame
        split: if_splits option.splits list.splits)
  with hub_next show ?case by (blast intro: hub_step_inv)
qed

section \<open>Removal and broadcast\<close>

lemma Remove_present:
  assumes "c \<in> set (clients h)" "heap h c = Some cl"
  shows "fst (Remove c h)"
    and "clients (snd (Remove c h)) = remove1 c (clients h)"
    and "connections (snd (Remove c h)) = connections h - 1"
    and "maxConn (snd (Remove c h)) = maxConn h"
    and "heap (snd (Remove c h)) = (heap h)(c \<mapsto> cl\<lparr>done_closed := True, conn_open := False\<rparr>)"
  using assms by (simp_all add: hub_defs)

lemma Remove_absent: "c \<notin> set (clients h) \<Longrightarrow> Remove c h = (False, h)"
  by (simp add: hub_defs)

definition closed :: "client \<Rightarrow> client" where
  "closed cl = cl\<lparr>done_closed := True, conn_open := False\<rparr>"

text \<open>Removing registered clients one by one: they leave the registry, closed, each freeing its slot.\<close>

lemma remove_each_effect:
  assumes "distinct cs" "distinct (clients h)" "set cs \<subseteq> set (clients h)"
    and "\<forall>c \<in> set (clients h). heap h c \<noteq> None"
  shows "clients (remove_each cs h) = filter (\<lambda>c. c \<notin> set cs) (clients h) \<and>
         connections (remove_each cs h) = connections h - int (length cs) \<and>
         (\<forall>x. heap (remove_each cs h) x = (if x \<in> set cs then map_option closed (heap h x) else heap h x))"
  using assms
proof (induction cs arbitrary: h)
  case (Cons a cs)
  then obtain cl where a: "a \<in> set (clients h)" "heap h a = Some cl" by fastforce
  note R = Remove_present [OF a]
  let ?h = "snd (Remove a h)"
  have sub: "set cs \<subseteq> set (clients ?h)" "distinct (clients ?h)"
    "\<forall>c \<in> set (clients ?h). heap ?h c \<noteq> None"
    using Cons.prems by (auto simp: R set_remove1_eq)
  have "distinct cs" using Cons.prems(1) by simp
  note IH = Cons.IH [OF this sub(2,1,3)]
  have "filter (\<lambda>c. c \<notin> set cs) (remove1 a (clients h)) = filter (\<lambda>c. c \<notin> set (a # cs)) (clients h)"
    using Cons.prems(2) by (auto simp: distinct_remove1_removeAll removeAll_filter_not_eq intro!: filter_cong)
  then show ?case
    using IH Cons.prems(1) a(2) by (auto simp: R closed_def)
qed simp

lemma length_filter_split: "int (length xs) - int (length (filter (\<lambda>x. \<not> P x) xs)) = int (length (filter P xs))"
  by (induction xs) auto

section \<open>Properties\<close>

text \<open>
  The connection cap holds in every interleaving: the slot counter is exactly the registered
  clients plus the handlers between reservation and registration, it never exceeds the cap, no
  client is registered twice, and no registered client has been closed.
\<close>

theorem connection_cap:
  assumes "hub_reachable maxC s" and "0 \<le> maxC"
  shows "connections (the_hub s) = int (length (clients (the_hub s)) + pending s) \<and>
         connections (the_hub s) \<le> maxC \<and> distinct (clients (the_hub s)) \<and>
         (\<forall>c \<in> set (clients (the_hub s)). \<exists>cl. heap (the_hub s) c = Some cl \<and> \<not> done_closed cl)"
  using hub_reachable_inv [OF assms(1)] assms(2) by (auto simp: hub_inv_def)

text \<open>
  C31. A broadcast leaves no client half served: every registered client that can take the message
  has it queued behind what it had, keeps its registration and stays open; every other one is
  closed and unregistered, and the slots it held are free again.
\<close>

theorem broadcast_delivers_or_evicts:
  assumes "hub_reachable maxC s"
  defines "h \<equiv> the_hub s"
  shows "clients (Broadcast msg h) = filter (\<lambda>c. \<exists>cl. heap h c = Some cl \<and> accepts cl) (clients h) \<and>
         connections (Broadcast msg h) = int (length (clients (Broadcast msg h)) + pending s) \<and>
         (\<forall>c \<in> set (clients h). \<forall>cl. heap h c = Some cl \<longrightarrow>
            heap (Broadcast msg h) c =
              Some (if accepts cl then cl\<lparr>send := send cl @ [msg]\<rparr> else closed cl))"
proof -
  have inv: "hub_inv s" using hub_reachable_inv [OF assms(1)] by simp
  then have d: "distinct (clients h)" and conns: "connections h = int (length (clients h) + pending s)"
    and hp: "\<And>c. c \<in> set (clients h) \<Longrightarrow> heap h c \<noteq> None"
    by (auto simp: hub_inv_def h_def)
  obtain stale h1 where sa: "send_all (clients h) msg h = (stale, h1)" by fastforce
  let ?ok = "\<lambda>c. \<exists>cl. heap h c = Some cl \<and> accepts cl"
  note fr = send_all_frame [OF sa]
  have stale: "stale = filter (\<lambda>c. \<not> ?ok c) (clients h)" by (rule send_all_effect(1) [OF sa d])
  note heap1 = send_all_effect(2) [OF sa d]
  have nn: "\<forall>c \<in> set (clients h1). heap h1 c \<noteq> None"
    using hp fr by (auto simp: heap1 split: option.splits)
  have B: "Broadcast msg h = remove_each stale h1" by (simp add: Broadcast_def sa)
  have R: "clients (remove_each stale h1) = filter (\<lambda>c. c \<notin> set stale) (clients h)"
    "connections (remove_each stale h1) = connections h - int (length stale)"
    "\<And>x. heap (remove_each stale h1) x = (if x \<in> set stale then map_option closed (heap h1 x) else heap h1 x)"
    using remove_each_effect [of stale h1] d fr nn by (auto simp: stale)
  have cl: "filter (\<lambda>c. c \<notin> set stale) (clients h) = filter ?ok (clients h)"
    by (auto simp: stale intro: filter_cong)
  have "connections h - int (length stale) = int (length (filter ?ok (clients h)) + pending s)"
    using conns length_filter_split [of "clients h" ?ok] by (simp add: stale)
  moreover have "heap (remove_each stale h1) c =
      Some (if accepts cl then cl\<lparr>send := send cl @ [msg]\<rparr> else closed cl)"
    if "c \<in> set (clients h)" "heap h c = Some cl" for c cl
  proof -
    have "c \<in> set stale \<longleftrightarrow> \<not> accepts cl" using that by (simp add: stale)
    with that show ?thesis unfolding R(3) heap1 by simp
  qed
  ultimately show ?thesis unfolding B R(1,2) cl by blast
qed

text \<open>Removing a client twice is the same as removing it once; the slot is freed once.\<close>

theorem Remove_idempotent:
  assumes "hub_reachable maxC s"
  shows "Remove c (snd (Remove c (the_hub s))) = (False, snd (Remove c (the_hub s)))"
proof -
  have "distinct (clients (the_hub s))"
    using hub_reachable_inv [OF assms] by (simp add: hub_inv_def)
  then have "c \<notin> set (clients (snd (Remove c (the_hub s))))"
    by (auto simp: hub_defs close_client_def split: option.splits)
  then show ?thesis by (rule Remove_absent)
qed

text \<open>A hub with a cap of one: a reserved slot, then a registered client.\<close>

definition one_client :: hub_sys where
  "one_client = \<lparr>the_hub = snd (Add (snd (Reserve (NewHub 1)))), pending = 0\<rparr>"

lemma one_client_reachable: "hub_reachable 1 one_client"
proof -
  let ?s0 = "\<lparr>the_hub = NewHub 1, pending = 0\<rparr>"
  let ?s1 = "?s0\<lparr>the_hub := snd (Reserve (NewHub 1)), pending := Suc (pending ?s0)\<rparr>"
  let ?s2 = "?s1\<lparr>the_hub := snd (Add (the_hub ?s1)), pending := 0\<rparr>"
  have r: "Reserve (NewHub 1) = (True, snd (Reserve (NewHub 1)))"
    by (simp add: Reserve_def NewHub_def)
  have "hub_reachable 1 ?s1"
    by (rule hub_next [OF hub_start hub_step.reserve]) (simp add: r [symmetric])
  then have "hub_reachable 1 ?s2"
    by (rule hub_next [OF _ hub_step.add]) (simp_all add: Add_def Let_def)
  then show ?thesis by (simp add: one_client_def)
qed

theorem connection_cap_witness:
  "connections (the_hub one_client) = int (length (clients (the_hub one_client)) + pending one_client) \<and>
   connections (the_hub one_client) \<le> 1 \<and> clients (the_hub one_client) = [0]"
proof -
  have "clients (the_hub one_client) = [0]"
    by (simp add: one_client_def Add_def Reserve_def NewHub_def Let_def)
  then show ?thesis using connection_cap [OF one_client_reachable] by simp
qed

theorem broadcast_delivers_or_evicts_witness:
  "heap (Broadcast (EventPong 7) (the_hub one_client)) 0 =
     Some \<lparr>send = [EventPong 7], done_closed = False, conn_open = True, writing = None\<rparr>"
proof -
  have "0 \<in> set (clients (the_hub one_client))"
    "heap (the_hub one_client) 0 = Some \<lparr>send = [], done_closed = False, conn_open = True, writing = None\<rparr>"
    by (simp_all add: one_client_def Add_def Reserve_def NewHub_def Let_def)
  then show ?thesis
    using broadcast_delivers_or_evicts [OF one_client_reachable, of "EventPong 7"]
    by (simp add: accepts_def send_capacity_def)
qed

theorem Remove_idempotent_witness:
  "fst (Remove 0 (the_hub one_client)) \<and> \<not> fst (Remove 0 (snd (Remove 0 (the_hub one_client))))"
proof -
  have "fst (Remove 0 (the_hub one_client))"
    by (simp add: one_client_def hub_defs NewHub_def Let_def)
  then show ?thesis using Remove_idempotent [OF one_client_reachable, of 0] by simp
qed

end
