(* ===== verification/Notifier.thy ===== *)
theory Notifier
  imports Prelude
begin

text \<open>
  \<^verbatim>\<open>internal/notify/notify.go\<close>: the broadcast wake-up behind the long polls. A signal channel is
  named by its generation; \<^verbatim>\<open>Notify\<close> closes the current one and opens the next, so the channel of
  generation \<open>g\<close> is closed exactly when the current generation is beyond \<open>g\<close>.
  \<open>Wait\<close> is given twice: as a function of what the caller observes in each round, which the
  handlers use, and as a step relation interleaved with writers, where the subscribe-before-check
  order is shown to lose no wake-up.
\<close>

section \<open>The notifier\<close>

record notifier =
  signal :: nat \<comment> \<open>generation of the open signal channel\<close>
  shutdown :: bool \<comment> \<open>whether the shutdown channel is closed\<close>

definition New :: notifier where
  "New = \<lparr>signal = 0, shutdown = False\<rparr>"

definition Notify :: "notifier \<Rightarrow> notifier" where
  "Notify n = n\<lparr>signal := Suc (signal n)\<rparr>"

definition Signal :: "notifier \<Rightarrow> nat" where
  "Signal n = signal n"

definition signal_closed :: "notifier \<Rightarrow> nat \<Rightarrow> bool" where
  "signal_closed n g \<longleftrightarrow> g < signal n"

definition Release :: "notifier \<Rightarrow> notifier" where
  "Release n = n\<lparr>shutdown := True\<rparr>"

datatype outcome = Ready | Timeout | Canceled | Released

section \<open>\<^verbatim>\<open>Wait\<close> as a function of its observations\<close>

text \<open>
  One round of the loop sees the state the check runs on, the clock when \<^verbatim>\<open>time.Until\<close> is read,
  and the channel the select takes.
\<close>

datatype select_event = GotSignal | GotTimer | GotDone | GotShutdown

record 's wait_round =
  seen :: 's
  clock_at :: int
  sel_event :: select_event

fun Wait :: "int \<Rightarrow> ('s \<Rightarrow> bool) \<Rightarrow> 's wait_round list \<Rightarrow> (outcome \<times> 's) option" where
  "Wait deadline check [] = None"
| "Wait deadline check (r # rs) =
     (if check (seen r) then Some (Ready, seen r)
      else if deadline - clock_at r \<le> 0 then Some (Timeout, seen r)
      else (case sel_event r of
          GotSignal \<Rightarrow> Wait deadline check rs
        | GotTimer \<Rightarrow> Some (Timeout, seen r)
        | GotDone \<Rightarrow> Some (Canceled, seen r)
        | GotShutdown \<Rightarrow> Some (Released, seen r)))"

lemma Wait_Ready: "Wait dl check rs = Some (Ready, s) \<Longrightarrow> check s \<and> s \<in> seen ` set rs"
  by (induction dl check rs rule: Wait.induct) (auto split: if_splits select_event.splits)

lemma Wait_not_Ready: "Wait dl check rs = Some (out, s) \<Longrightarrow> out \<noteq> Ready \<Longrightarrow> \<not> check s"
  by (induction dl check rs rule: Wait.induct) (auto split: if_splits select_event.splits)

lemma Wait_seen: "Wait dl check rs = Some (out, s) \<Longrightarrow> s \<in> seen ` set rs"
  by (induction dl check rs rule: Wait.induct) (auto split: if_splits select_event.splits)

lemma Wait_first_check: "check (seen r) \<Longrightarrow> Wait dl check (r # rs) = Some (Ready, seen r)"
  by simp

section \<open>\<^verbatim>\<open>Wait\<close> interleaved with writers\<close>

text \<open>
  The waiting goroutine's program counter: about to subscribe, holding a signal channel before
  the check, after a failed check before the deadline test, parked in the select, returned.
\<close>

datatype wait_pc = Subscribing | Checking nat | Timing nat | Parked nat | Returned outcome

text \<open>
  \<open>dirty\<close> is a ghost: some write to the shared state is not yet followed by a \<^verbatim>\<open>Notify\<close>. Every
  writer of the server notifies after its write (\<^verbatim>\<open>bumpAdminChange\<close>), so a dirty state is always
  followed by a notification.
\<close>

record 's wait_sys =
  shared :: 's
  ntf :: notifier
  canceled :: bool
  now_at :: int
  pc :: wait_pc
  dirty :: bool

inductive wait_step :: "('s \<Rightarrow> bool) \<Rightarrow> int \<Rightarrow> 's wait_sys \<Rightarrow> 's wait_sys \<Rightarrow> bool"
  for check :: "'s \<Rightarrow> bool" and deadline :: int where
  subscribe: "pc s = Subscribing \<Longrightarrow>
     wait_step check deadline s (s\<lparr>pc := Checking (Signal (ntf s))\<rparr>)"
| check_true: "pc s = Checking g \<Longrightarrow> check (shared s) \<Longrightarrow>
     wait_step check deadline s (s\<lparr>pc := Returned Ready\<rparr>)"
| check_false: "pc s = Checking g \<Longrightarrow> \<not> check (shared s) \<Longrightarrow>
     wait_step check deadline s (s\<lparr>pc := Timing g\<rparr>)"
| expired: "pc s = Timing g \<Longrightarrow> deadline - now_at s \<le> 0 \<Longrightarrow>
     wait_step check deadline s (s\<lparr>pc := Returned Timeout\<rparr>)"
| park: "pc s = Timing g \<Longrightarrow> \<not> deadline - now_at s \<le> 0 \<Longrightarrow>
     wait_step check deadline s (s\<lparr>pc := Parked g\<rparr>)"
| wake: "pc s = Parked g \<Longrightarrow> signal_closed (ntf s) g \<Longrightarrow>
     wait_step check deadline s (s\<lparr>pc := Subscribing\<rparr>)"
| timer: "pc s = Parked g \<Longrightarrow> deadline \<le> now_at s \<Longrightarrow>
     wait_step check deadline s (s\<lparr>pc := Returned Timeout\<rparr>)"
| ctx_done: "pc s = Parked g \<Longrightarrow> canceled s \<Longrightarrow>
     wait_step check deadline s (s\<lparr>pc := Returned Canceled\<rparr>)"
| released: "pc s = Parked g \<Longrightarrow> shutdown (ntf s) \<Longrightarrow>
     wait_step check deadline s (s\<lparr>pc := Returned Released\<rparr>)"
| env_write: "wait_step check deadline s (s\<lparr>shared := x, dirty := True\<rparr>)"
| env_notify: "wait_step check deadline s (s\<lparr>ntf := Notify (ntf s), dirty := False\<rparr>)"
| env_cancel: "wait_step check deadline s (s\<lparr>canceled := True\<rparr>)"
| env_release: "wait_step check deadline s (s\<lparr>ntf := Release (ntf s)\<rparr>)"
| env_tick: "now_at s \<le> t \<Longrightarrow> wait_step check deadline s (s\<lparr>now_at := t\<rparr>)"

inductive wait_reachable :: "('s \<Rightarrow> bool) \<Rightarrow> int \<Rightarrow> 's wait_sys \<Rightarrow> bool"
  for check :: "'s \<Rightarrow> bool" and deadline :: int where
  wait_start: "pc s = Subscribing \<Longrightarrow> wait_reachable check deadline s"
| wait_next: "wait_reachable check deadline s \<Longrightarrow> wait_step check deadline s t \<Longrightarrow>
     wait_reachable check deadline t"

definition wait_inv :: "('s \<Rightarrow> bool) \<Rightarrow> int \<Rightarrow> 's wait_sys \<Rightarrow> bool" where
  "wait_inv check deadline s \<longleftrightarrow>
     (case pc s of
        Subscribing \<Rightarrow> True
      | Checking g \<Rightarrow> g \<le> signal (ntf s)
      | Timing g \<Rightarrow> g \<le> signal (ntf s) \<and> (g = signal (ntf s) \<and> \<not> dirty s \<longrightarrow> \<not> check (shared s))
      | Parked g \<Rightarrow> g \<le> signal (ntf s) \<and> (g = signal (ntf s) \<and> \<not> dirty s \<longrightarrow> \<not> check (shared s))
      | Returned out \<Rightarrow> True)"

lemma wait_step_inv:
  "wait_step check deadline s t \<Longrightarrow> wait_inv check deadline s \<Longrightarrow> wait_inv check deadline t"
  by (induction rule: wait_step.induct)
    (auto simp: wait_inv_def Notify_def Signal_def Release_def split: wait_pc.splits)

lemma wait_reachable_inv: "wait_reachable check deadline s \<Longrightarrow> wait_inv check deadline s"
proof (induction rule: wait_reachable.induct)
  case (wait_start s)
  then show ?case by (simp add: wait_inv_def)
next
  case (wait_next s t)
  then show ?case by (blast intro: wait_step_inv)
qed

inductive_cases parked_stepE: "wait_step check deadline s t"

section \<open>Properties\<close>

text \<open>C30. No lost wake-up: in every interleaving of a \<^verbatim>\<open>Wait\<close> with writers, if the waiter is parked
  and its condition holds, then its signal channel is already closed (it can run) or a writer still
  owes the notification of its write; and a notification always lets the parked waiter run.\<close>

theorem no_lost_wakeup:
  assumes "wait_reachable check deadline s" and "pc s = Parked g"
  shows "(check (shared s) \<longrightarrow> signal_closed (ntf s) g \<or> dirty s) \<and>
    wait_step check deadline (s\<lparr>ntf := Notify (ntf s), dirty := False\<rparr>)
      (s\<lparr>ntf := Notify (ntf s), dirty := False, pc := Subscribing\<rparr>)"
proof
  from wait_reachable_inv [OF assms(1)] assms(2)
  have inv: "g \<le> signal (ntf s)" "g = signal (ntf s) \<and> \<not> dirty s \<longrightarrow> \<not> check (shared s)"
    by (simp_all add: wait_inv_def)
  then show "check (shared s) \<longrightarrow> signal_closed (ntf s) g \<or> dirty s"
    by (auto simp: signal_closed_def)
  let ?s = "s\<lparr>ntf := Notify (ntf s), dirty := False\<rparr>"
  have "wait_step check deadline ?s (?s\<lparr>pc := Subscribing\<rparr>)"
    by (rule wake [of _ g]) (use assms(2) inv in \<open>simp_all add: signal_closed_def Notify_def\<close>)
  then show "wait_step check deadline ?s (s\<lparr>ntf := Notify (ntf s), dirty := False, pc := Subscribing\<rparr>)"
    by simp
qed

definition idle_poll :: "bool wait_sys" where
  "idle_poll = \<lparr>shared = False, ntf = New, canceled = False, now_at = 0, pc = Subscribing, dirty = False\<rparr>"

theorem no_lost_wakeup_witness:
  "wait_reachable (\<lambda>b. b) 25
     (idle_poll\<lparr>shared := True, ntf := Notify New, pc := Parked 0\<rparr>) \<and>
   signal_closed (Notify New) 0"
proof -
  let ?c = "\<lambda>b :: bool. b"
  have 1: "wait_reachable ?c 25 (idle_poll\<lparr>pc := Checking 0\<rparr>)"
    using wait_next [OF wait_start subscribe, of idle_poll ?c 25]
    by (simp add: idle_poll_def Signal_def New_def)
  have 2: "wait_reachable ?c 25 (idle_poll\<lparr>pc := Timing 0\<rparr>)"
    using wait_next [OF 1 check_false [of _ 0]] by (simp add: idle_poll_def)
  have 3: "wait_reachable ?c 25 (idle_poll\<lparr>pc := Parked 0\<rparr>)"
    using wait_next [OF 2 park [of _ 0]] by (simp add: idle_poll_def)
  have 4: "wait_reachable ?c 25 (idle_poll\<lparr>pc := Parked 0, shared := True, dirty := True\<rparr>)"
    using wait_next [OF 3 env_write [of _ _ _ True]] by simp
  have 5: "wait_reachable ?c 25 (idle_poll\<lparr>pc := Parked 0, shared := True, dirty := False,
      ntf := Notify New\<rparr>)"
    using wait_next [OF 4 env_notify] by (simp add: idle_poll_def)
  then have 6: "wait_reachable ?c 25 (idle_poll\<lparr>shared := True, ntf := Notify New, pc := Parked 0\<rparr>)"
    by (simp add: idle_poll_def)
  from no_lost_wakeup [OF 6] have "signal_closed (Notify New) 0" by (simp add: idle_poll_def)
  with 6 show ?thesis by simp
qed

text \<open>The outcome of \<^verbatim>\<open>Wait\<close> is truthful: it answers \<open>Ready\<close> only on a state where the check
  holds, any other outcome only on a state where the last check failed, and a condition that
  holds on entry answers \<open>Ready\<close> whatever the deadline.\<close>

theorem wait_outcome_truthful:
  assumes "Wait deadline check (r # rs) = Some (out, s)"
  shows "(out = Ready \<longleftrightarrow> check s) \<and> s \<in> seen ` set (r # rs) \<and>
    (check (seen r) \<longrightarrow> out = Ready \<and> s = seen r)"
proof (intro conjI impI)
  show "out = Ready \<longleftrightarrow> check s"
    using assms Wait_Ready [of deadline check "r # rs" s] Wait_not_Ready [OF assms] by auto
  show "s \<in> seen ` set (r # rs)" by (rule Wait_seen [OF assms])
  assume "check (seen r)"
  with assms show "out = Ready" and "s = seen r" by simp_all
qed

theorem wait_outcome_truthful_witness:
  "Wait 0 (\<lambda>n :: nat. 3 \<le> n) [\<lparr>seen = 5, clock_at = 9, sel_event = GotTimer\<rparr>] = Some (Ready, 5) \<and>
   (3 :: nat) \<le> 5"
proof -
  have w: "Wait 0 (\<lambda>n :: nat. 3 \<le> n) [\<lparr>seen = 5, clock_at = 9, sel_event = GotTimer\<rparr>] = Some (Ready, 5)"
    by simp
  from wait_outcome_truthful [OF w] w show ?thesis by simp
qed

end
