(* ===== verification/Paths.thy ===== *)
theory Paths
  imports GoStrings
begin

text \<open>
  The part of \<^verbatim>\<open>path/filepath\<close> that the local storage backend and the handlers use: \<^verbatim>\<open>Clean\<close>,
  \<^verbatim>\<open>Join\<close>, \<^verbatim>\<open>Dir\<close> and \<^verbatim>\<open>Base\<close> on slash-separated paths. The lemmas compute them on paths made of
  ordinary components, which is what the callers build.
\<close>

section \<open>Joining and splitting at slashes\<close>

fun join_slash :: "string list \<Rightarrow> string" where
  "join_slash [] = []"
| "join_slash [c] = c"
| "join_slash (c # d # cs) = c @ CHR ''/'' # join_slash (d # cs)"

lemma split_on_nonempty [simp]: "split_on c s \<noteq> []"
  by (induction s) (auto split: list.splits)

lemma split_on_append_sep: "split_on c (xs @ c # ys) = split_on c xs @ split_on c ys"
proof (induction xs)
  case (Cons x xs)
  then show ?case by (cases "split_on c xs") auto
qed simp

lemma split_on_no_sep: "c \<notin> set xs \<Longrightarrow> split_on c xs = [xs]"
  by (induction xs) auto

lemma split_on_parts: "x \<in> set (split_on c s) \<Longrightarrow> c \<notin> set x"
proof (induction s arbitrary: x)
  case (Cons a s)
  then show ?case by (cases "split_on c s") (auto split: if_splits)
qed simp

lemma join_slash_Cons: "cs \<noteq> [] \<Longrightarrow> join_slash (c # cs) = c @ CHR ''/'' # join_slash cs"
  by (cases cs) auto

lemma join_slash_append:
  "xs \<noteq> [] \<Longrightarrow> ys \<noteq> [] \<Longrightarrow> join_slash (xs @ ys) = join_slash xs @ CHR ''/'' # join_slash ys"
proof (induction xs)
  case (Cons x xs)
  then show ?case by (cases "xs = []") (auto simp: join_slash_Cons)
qed simp

lemma join_split [simp]: "join_slash (split_on CHR ''/'' s) = s"
proof (induction s)
  case (Cons x s)
  obtain y ys where ys: "split_on CHR ''/'' s = y # ys" by (cases "split_on CHR ''/'' s") auto
  with Cons show ?case by (cases ys) auto
qed simp

lemma split_join:
  "cs \<noteq> [] \<Longrightarrow> \<forall>c \<in> set cs. CHR ''/'' \<notin> set c \<Longrightarrow> split_on CHR ''/'' (join_slash cs) = cs"
proof (induction cs)
  case (Cons c cs)
  then show ?case
    by (cases "cs = []") (auto simp: join_slash_Cons split_on_append_sep split_on_no_sep)
qed simp

text \<open>Undoing a split at any separator.\<close>

lemma split_on_Cons_iff:
  "split_on c s = x # y # ys \<longleftrightarrow> (\<exists>t. s = x @ c # t \<and> c \<notin> set x \<and> split_on c t = y # ys)"
proof (induction s arbitrary: x)
  case (Cons a s)
  show ?case
  proof (cases "a = c")
    case True
    then show ?thesis by (cases x) auto
  next
    case False
    obtain z zs where z: "split_on c s = z # zs" by (cases "split_on c s") auto
    show ?thesis
      using False Cons.IH [of "tl x"] z by (cases x) auto
  qed
qed simp

lemma split_on_one: "split_on c s = [x] \<longleftrightarrow> s = x \<and> c \<notin> set x"
proof (induction s arbitrary: x)
  case (Cons a s)
  obtain z zs where z: "split_on c s = z # zs" by (cases "split_on c s") auto
  with Cons.IH [of "tl x"] show ?case by (cases x) auto
qed auto

section \<open>\<^verbatim>\<open>Clean\<close>, \<^verbatim>\<open>Join\<close>, \<^verbatim>\<open>Dir\<close>, \<^verbatim>\<open>Base\<close>\<close>

text \<open>The components are processed left to right; the second argument is the stack of kept ones.\<close>

fun clean_comps :: "bool \<Rightarrow> string list \<Rightarrow> string list \<Rightarrow> string list" where
  "clean_comps rooted st [] = rev st"
| "clean_comps rooted st (c # cs) =
     (if c = [] \<or> c = ''.'' then clean_comps rooted st cs
      else if c = ''..'' then
        (case st of
           [] \<Rightarrow> clean_comps rooted (if rooted then [] else [''..'']) cs
         | x # st' \<Rightarrow> if x = ''..'' then clean_comps rooted (''..'' # st) cs
                       else clean_comps rooted st' cs)
      else clean_comps rooted (c # st) cs)"

definition slash_path :: "bool \<Rightarrow> string list \<Rightarrow> string" where
  "slash_path rooted cs = (if rooted then ''/'' else []) @ join_slash cs"

definition path_clean :: "string \<Rightarrow> string" where
  "path_clean p =
     (let rooted = has_prefix p ''/'';
          q = slash_path rooted (clean_comps rooted [] (split_on CHR ''/'' p))
      in if q = [] then ''.'' else q)"

definition path_join :: "string list \<Rightarrow> string" where
  "path_join ps =
     (let qs = filter (\<lambda>p. p \<noteq> []) ps in if qs = [] then [] else path_clean (join_slash qs))"

text \<open>\<^verbatim>\<open>Dir\<close> cleans everything up to the last slash; \<^verbatim>\<open>Base\<close> is the last non-empty component.\<close>

definition path_dir :: "string \<Rightarrow> string" where
  "path_dir p = path_clean (rev (dropWhile (\<lambda>c. c \<noteq> CHR ''/'') (rev p)))"

definition path_base :: "string \<Rightarrow> string" where
  "path_base p =
     (if p = [] then ''.''
      else (let q = rev (dropWhile (\<lambda>c. c = CHR ''/'') (rev p))
            in if q = [] then ''/'' else last (split_on CHR ''/'' q)))"

section \<open>Ordinary paths\<close>

definition good_comp :: "string \<Rightarrow> bool" where
  "good_comp c \<longleftrightarrow> c \<noteq> [] \<and> c \<noteq> ''.'' \<and> c \<noteq> ''..'' \<and> CHR ''/'' \<notin> set c"

definition good_comps :: "string list \<Rightarrow> bool" where
  "good_comps cs \<longleftrightarrow> cs \<noteq> [] \<and> list_all good_comp cs"

lemma good_comps_append [simp]:
  "good_comps cs \<Longrightarrow> good_comps ds \<Longrightarrow> good_comps (cs @ ds)"
  by (simp add: good_comps_def)

lemma good_comps_no_slash: "good_comps cs \<Longrightarrow> \<forall>c \<in> set cs. CHR ''/'' \<notin> set c"
  by (auto simp: good_comps_def list_all_iff good_comp_def)

lemma clean_comps_good: "list_all good_comp cs \<Longrightarrow> clean_comps r st cs = rev st @ cs"
  by (induction cs arbitrary: st) (auto simp: good_comp_def)

lemma clean_comps_good_tail:
  "list_all good_comp cs \<Longrightarrow> clean_comps r st (cs @ [[]]) = rev st @ cs"
  by (induction cs arbitrary: st) (auto simp: good_comp_def)

lemma join_slash_nonempty: "good_comps cs \<Longrightarrow> join_slash cs \<noteq> [] \<and> hd (join_slash cs) \<noteq> CHR ''/''"
  by (cases cs rule: join_slash.cases)
    (auto simp: good_comps_def good_comp_def hd_append neq_Nil_conv)

lemma slash_path_nonempty: "good_comps cs \<Longrightarrow> slash_path r cs \<noteq> []"
  using join_slash_nonempty [of cs] by (simp add: slash_path_def)

lemma slash_path_rooted: "good_comps cs \<Longrightarrow> has_prefix (slash_path r cs @ t) ''/'' = r"
  using join_slash_nonempty [of cs]
  by (cases "join_slash cs") (auto simp: slash_path_def has_prefix_def)

lemma split_slash_path:
  "good_comps cs \<Longrightarrow> split_on CHR ''/'' (slash_path r cs) = (if r then [[]] else []) @ cs"
  using split_join [of cs] good_comps_no_slash [of cs]
  by (auto simp: slash_path_def good_comps_def)

lemma path_clean_good: "good_comps cs \<Longrightarrow> path_clean (slash_path r cs) = slash_path r cs"
  using slash_path_rooted [of cs r "[]"] slash_path_nonempty [of cs r]
  by (auto simp: path_clean_def Let_def split_slash_path clean_comps_good good_comps_def)

lemma path_clean_good_slash:
  "good_comps cs \<Longrightarrow> path_clean (slash_path r cs @ ''/'') = slash_path r cs"
  using slash_path_rooted [of cs r "''/''"] slash_path_nonempty [of cs r]
    split_on_append_sep [of "CHR ''/''" "slash_path r cs" "[]"]
  by (auto simp: path_clean_def Let_def split_slash_path clean_comps_good_tail good_comps_def)

lemma slash_path_append:
  "good_comps cs \<Longrightarrow> good_comps ds \<Longrightarrow>
     slash_path r (cs @ ds) = slash_path r cs @ CHR ''/'' # join_slash ds"
  by (simp add: slash_path_def join_slash_append good_comps_def)

lemma path_join_good:
  assumes "good_comps cs" "good_comps ds"
  shows "path_join [slash_path r cs, join_slash ds] = slash_path r cs @ CHR ''/'' # join_slash ds"
    and "path_join [slash_path r cs, join_slash ds @ ''/''] = slash_path r cs @ CHR ''/'' # join_slash ds"
proof -
  have ne: "slash_path r cs \<noteq> []" "join_slash ds \<noteq> []"
    using assms slash_path_nonempty join_slash_nonempty by auto
  have "good_comps (cs @ ds)" using assms by simp
  note c = path_clean_good [OF this, of r] path_clean_good_slash [OF this, of r]
  show "path_join [slash_path r cs, join_slash ds] = slash_path r cs @ CHR ''/'' # join_slash ds"
    "path_join [slash_path r cs, join_slash ds @ ''/''] = slash_path r cs @ CHR ''/'' # join_slash ds"
    using ne c by (simp_all add: path_join_def slash_path_append [OF assms])
qed

lemma path_dir_good:
  assumes "good_comps cs" "CHR ''/'' \<notin> set f"
  shows "path_dir (slash_path r cs @ CHR ''/'' # f) = slash_path r cs"
proof -
  have "dropWhile (\<lambda>c. c \<noteq> CHR ''/'') (rev f @ CHR ''/'' # rev (slash_path r cs))
        = CHR ''/'' # rev (slash_path r cs)"
    using assms(2) by (subst dropWhile_append2) auto
  then show ?thesis
    using path_clean_good_slash [OF assms(1), of r] by (simp add: path_dir_def)
qed

lemma path_base_good:
  assumes "good_comp f"
  shows "path_base (p @ CHR ''/'' # f) = f"
proof -
  have f: "f \<noteq> []" "CHR ''/'' \<notin> set f" using assms by (auto simp: good_comp_def)
  then obtain c cs where c: "rev f = c # cs" by (cases "rev f") auto
  then have "c \<in> set (rev f)" by simp
  with f have "c \<noteq> CHR ''/''" by auto
  with c have c: "rev f = c # cs" "c \<noteq> CHR ''/''" by simp_all
  then have "dropWhile (\<lambda>c. c = CHR ''/'') (rev (p @ CHR ''/'' # f)) = rev (p @ CHR ''/'' # f)"
    by simp
  then have "path_base (p @ CHR ''/'' # f) = last (split_on CHR ''/'' (p @ CHR ''/'' # f))"
    by (simp add: path_base_def)
  also have "\<dots> = f" using f by (simp add: split_on_append_sep split_on_no_sep)
  finally show ?thesis .
qed

end
