(* ===== verification/Disk.thy ===== *)
theory Disk
  imports Paths Tables "HOL-Library.AList" "HOL-Library.List_Lexorder" "HOL-Library.Char_ord"
begin

text \<open>
  The file system as the \<^verbatim>\<open>os\<close> package shows it: regular files with their contents, directories,
  and a schedule of faults, one entry per system call. Paths are the cleaned strings the program
  computes. Each definition is one call of \<^verbatim>\<open>os\<close> or \<^verbatim>\<open>io\<close>.
\<close>

record disk =
  files :: "(string \<times> string) list"
  dirs :: "string list"
  os_faults :: "(string \<times> nat) option list" \<comment> \<open>message and bytes transferred before it\<close>
  serial :: nat \<comment> \<open>the random part of the next temporary name\<close>

definition look :: "disk \<Rightarrow> string \<Rightarrow> string option" where
  "look d = map_of (files d)"

definition os_tick :: "disk \<Rightarrow> (gerr \<times> nat) option \<times> disk" where
  "os_tick d = (case os_faults d of
      [] \<Rightarrow> (None, d)
    | f # fs \<Rightarrow> (map_option (\<lambda>(m, n). (ErrOther m, n)) f, d\<lparr>os_faults := fs\<rparr>))"

text \<open>The proper ancestors of a path: the non-empty parts before its slashes.\<close>

fun ancestors_from :: "string \<Rightarrow> string \<Rightarrow> string list" where
  "ancestors_from pre [] = []"
| "ancestors_from pre (c # cs) =
     (if c = CHR ''/'' \<and> pre \<noteq> [] then [pre] else []) @ ancestors_from (pre @ [c]) cs"

definition ancestors :: "string \<Rightarrow> string list" where
  "ancestors p = ancestors_from [] p"

definition under :: "string \<Rightarrow> string \<Rightarrow> bool" where
  "under dir p \<longleftrightarrow> has_prefix p (dir @ ''/'')"

lemma ancestors_from_iff:
  "a \<in> set (ancestors_from pre p) \<longleftrightarrow> (\<exists>u v. p = u @ CHR ''/'' # v \<and> a = pre @ u \<and> a \<noteq> [])"
proof (induction p arbitrary: pre)
  case (Cons c cs)
  have "(\<exists>u v. c # cs = u @ CHR ''/'' # v \<and> a = pre @ u \<and> a \<noteq> []) \<longleftrightarrow>
      (c = CHR ''/'' \<and> a = pre \<and> a \<noteq> []) \<or>
      (\<exists>u v. cs = u @ CHR ''/'' # v \<and> a = (pre @ [c]) @ u \<and> a \<noteq> [])" (is "?l \<longleftrightarrow> ?r")
  proof
    assume ?l
    then obtain u v where "c # cs = u @ CHR ''/'' # v" "a = pre @ u" "a \<noteq> []" by blast
    then show ?r by (cases u) auto
  next
    assume ?r
    then show ?l
    proof
      assume "\<exists>u v. cs = u @ CHR ''/'' # v \<and> a = (pre @ [c]) @ u \<and> a \<noteq> []"
      then obtain u v where "cs = u @ CHR ''/'' # v" "a = (pre @ [c]) @ u" "a \<noteq> []" by blast
      then show ?l by (intro exI [of _ "c # u"] exI [of _ v]) auto
    qed auto
  qed
  then show ?case using Cons.IH by auto
qed simp

lemma ancestors_iff: "a \<in> set (ancestors p) \<longleftrightarrow> a \<noteq> [] \<and> under a p"
  by (auto simp: ancestors_def ancestors_from_iff under_def has_prefix_append)

lemma under_trans: "under a b \<Longrightarrow> under b c \<Longrightarrow> under a c"
  by (auto simp: under_def has_prefix_append)

lemma under_child: "CHR ''/'' \<notin> set f \<Longrightarrow> under a (dir @ CHR ''/'' # f) \<longleftrightarrow> a = dir \<or> under a dir"
proof
  assume f: "CHR ''/'' \<notin> set f" and "under a (dir @ CHR ''/'' # f)"
  then obtain t where t: "dir @ CHR ''/'' # f = a @ CHR ''/'' # t"
    by (auto simp: under_def has_prefix_append)
  show "a = dir \<or> under a dir"
  proof (cases "CHR ''/'' \<in> set t")
    case False
    with t f append_sep_last_inject show ?thesis by metis
  next
    case True
    then obtain t1 t2 where t12: "t = t1 @ CHR ''/'' # t2" "CHR ''/'' \<notin> set t2"
      by (meson split_list_last)
    with t have "dir @ CHR ''/'' # f = (a @ CHR ''/'' # t1) @ CHR ''/'' # t2" by simp
    then have "dir = a @ CHR ''/'' # t1" using f t12(2) append_sep_last_inject by metis
    then show ?thesis by (auto simp: under_def has_prefix_append)
  qed
qed (auto simp: under_def has_prefix_append)

lemma not_under_self [simp]: "\<not> under p p"
proof
  assume "under p p"
  then obtain t where "p = (p @ ''/'') @ t" by (auto simp: under_def has_prefix_append)
  from arg_cong [OF this, of length] show False by simp
qed

section \<open>Calls of \<^verbatim>\<open>os\<close> and \<^verbatim>\<open>io\<close>\<close>

definition os_MkdirAll :: "string \<Rightarrow> disk \<Rightarrow> unit res \<times> disk" where
  "os_MkdirAll p d =
     (case os_tick d of
        (Some (e, _), d1) \<Rightarrow> (Inl e, d1)
      | (None, d1) \<Rightarrow>
          (if list_ex (\<lambda>a. look d1 a \<noteq> None) (p # ancestors p)
           then (Inl (ErrOther ''not a directory''), d1)
           else (Inr (), d1\<lparr>dirs := remdups (p # ancestors p @ dirs d1)\<rparr>)))"

definition put_file :: "string \<Rightarrow> string \<Rightarrow> disk \<Rightarrow> disk" where
  "put_file p x d = d\<lparr>files := AList.update p x (files d)\<rparr>"

definition drop_file :: "string \<Rightarrow> disk \<Rightarrow> disk" where
  "drop_file p d = d\<lparr>files := AList.delete p (files d)\<rparr>"

definition os_Create :: "string \<Rightarrow> disk \<Rightarrow> unit res \<times> disk" where
  "os_Create p d =
     (case os_tick d of
        (Some (e, _), d1) \<Rightarrow> (Inl e, d1)
      | (None, d1) \<Rightarrow>
          (if p \<in> set (dirs d1) then (Inl (ErrOther ''is a directory''), d1)
           else if \<not> set (ancestors p) \<subseteq> set (dirs d1) then (Inl ErrNotExist, d1)
           else (Inr (), put_file p [] d1)))"

text \<open>\<^verbatim>\<open>os.CreateTemp\<close> and \<^verbatim>\<open>os.MkdirTemp\<close> append a random string to the pattern.\<close>

definition temp_name :: "string \<Rightarrow> string \<Rightarrow> nat \<Rightarrow> string" where
  "temp_name dir pat n = dir @ CHR ''/'' # pat @ nat_digits n"

definition os_CreateTemp :: "string \<Rightarrow> string \<Rightarrow> disk \<Rightarrow> string res \<times> disk" where
  "os_CreateTemp dir pat d =
     (let p = temp_name dir pat (serial d)
      in case os_Create p (d\<lparr>serial := Suc (serial d)\<rparr>) of
           (Inl e, d1) \<Rightarrow> (Inl e, d1) | (Inr _, d1) \<Rightarrow> (Inr p, d1))"

definition os_MkdirTemp :: "string \<Rightarrow> string \<Rightarrow> disk \<Rightarrow> string res \<times> disk" where
  "os_MkdirTemp dir pat d =
     (let p = temp_name dir pat (serial d)
      in case os_MkdirAll p (d\<lparr>serial := Suc (serial d)\<rparr>) of
           (Inl e, d1) \<Rightarrow> (Inl e, d1) | (Inr _, d1) \<Rightarrow> (Inr p, d1))"

text \<open>\<^verbatim>\<open>io.Copy\<close> to the end of an open file. A fault leaves the bytes written so far in it.\<close>

definition io_Copy :: "string \<Rightarrow> string \<Rightarrow> disk \<Rightarrow> unit res \<times> disk" where
  "io_Copy p x d =
     (let old = (case look d p of None \<Rightarrow> [] | Some y \<Rightarrow> y)
      in case os_tick d of
           (Some (e, n), d1) \<Rightarrow> (Inl e, if look d1 p = None then d1 else put_file p (old @ take n x) d1)
         | (None, d1) \<Rightarrow> (Inr (), if look d1 p = None then d1 else put_file p (old @ x) d1))"

definition os_Close :: "disk \<Rightarrow> unit res \<times> disk" where
  "os_Close d = (case os_tick d of (Some (e, _), d1) \<Rightarrow> (Inl e, d1) | (None, d1) \<Rightarrow> (Inr (), d1))"

definition os_Open :: "string \<Rightarrow> disk \<Rightarrow> string res \<times> disk" where
  "os_Open p d =
     (case os_tick d of
        (Some (e, _), d1) \<Rightarrow> (Inl e, d1)
      | (None, d1) \<Rightarrow> (case look d1 p of None \<Rightarrow> (Inl ErrNotExist, d1) | Some x \<Rightarrow> (Inr x, d1)))"

definition os_Remove :: "string \<Rightarrow> disk \<Rightarrow> unit res \<times> disk" where
  "os_Remove p d =
     (case os_tick d of
        (Some (e, _), d1) \<Rightarrow> (Inl e, d1)
      | (None, d1) \<Rightarrow> (if look d1 p = None then (Inl ErrNotExist, d1) else (Inr (), drop_file p d1)))"

definition os_Rename :: "string \<Rightarrow> string \<Rightarrow> disk \<Rightarrow> unit res \<times> disk" where
  "os_Rename p q d =
     (case os_tick d of
        (Some (e, _), d1) \<Rightarrow> (Inl e, d1)
      | (None, d1) \<Rightarrow>
          (case look d1 p of
             None \<Rightarrow> (Inl ErrNotExist, d1)
           | Some x \<Rightarrow>
               (if q \<in> set (dirs d1) then (Inl (ErrOther ''file exists''), d1)
                else if \<not> set (ancestors q) \<subseteq> set (dirs d1) then (Inl ErrNotExist, d1)
                else (Inr (), put_file q x (drop_file p d1)))))"

definition os_RemoveAll :: "string \<Rightarrow> disk \<Rightarrow> unit res \<times> disk" where
  "os_RemoveAll p d =
     (case os_tick d of
        (Some (e, _), d1) \<Rightarrow> (Inl e, d1)
      | (None, d1) \<Rightarrow>
          (Inr (), d1\<lparr>files := filter (\<lambda>f. fst f \<noteq> p \<and> \<not> under p (fst f)) (files d1),
                      dirs := filter (\<lambda>x. x \<noteq> p \<and> \<not> under p x) (dirs d1)\<rparr>))"

definition os_Stat :: "string \<Rightarrow> disk \<Rightarrow> unit res \<times> disk" where
  "os_Stat p d =
     (case os_tick d of
        (Some (e, _), d1) \<Rightarrow> (Inl e, d1)
      | (None, d1) \<Rightarrow>
          (if p \<in> set (dirs d1) \<or> look d1 p \<noteq> None then (Inr (), d1) else (Inl ErrNotExist, d1)))"

text \<open>The entries of a directory, sorted by name, each with whether it is a directory.\<close>

definition children :: "string \<Rightarrow> string list \<Rightarrow> string list" where
  "children p xs = filter (\<lambda>n. CHR ''/'' \<notin> set n)
     (map (drop (length p + 1)) (filter (under p) xs))"

definition os_ReadDir :: "string \<Rightarrow> disk \<Rightarrow> (string \<times> bool) list res \<times> disk" where
  "os_ReadDir p d =
     (case os_tick d of
        (Some (e, _), d1) \<Rightarrow> (Inl e, d1)
      | (None, d1) \<Rightarrow>
          (if p \<in> set (dirs d1)
           then (Inr (sort_key fst (map (\<lambda>n. (n, False)) (children p (map fst (files d1)))
                                    @ map (\<lambda>n. (n, True)) (children p (dirs d1)))), d1)
           else if look d1 p \<noteq> None then (Inl (ErrOther ''not a directory''), d1)
           else (Inl ErrNotExist, d1)))"

lemma children_iff: "n \<in> set (children p xs) \<longleftrightarrow> CHR ''/'' \<notin> set n \<and> p @ CHR ''/'' # n \<in> set xs"
  by (force simp: children_def under_def has_prefix_append image_iff)

section \<open>What each call changes\<close>

lemma look_put [simp]: "look (put_file p x d) = (look d)(p \<mapsto> x)"
  by (simp add: look_def put_file_def update_conv')

lemma look_drop [simp]: "look (drop_file p d) = (look d)(p := None)"
  by (auto simp: look_def drop_file_def delete_conv')

lemma dirs_put_drop [simp]: "dirs (put_file p x d) = dirs d" "dirs (drop_file p d) = dirs d"
  by (simp_all add: put_file_def drop_file_def)

lemma look_upd [simp]: "look (d\<lparr>dirs := x\<rparr>) = look d" "look (d\<lparr>os_faults := y\<rparr>) = look d"
  "look (d\<lparr>serial := n\<rparr>) = look d"
  by (simp_all add: look_def)

lemma os_tick_frame: "os_tick d = (r, d1) \<Longrightarrow> look d1 = look d \<and> dirs d1 = dirs d \<and> files d1 = files d"
  by (auto simp: os_tick_def split: list.splits)

lemma os_tick_error: "os_tick d = (Some (e, n), d1) \<Longrightarrow> e \<noteq> ErrNotExist"
  by (auto simp: os_tick_def split: list.splits)

text \<open>
  The directory tree is well formed: a path is not both a file and a directory, and every proper
  ancestor of a file or directory is a directory.
\<close>

definition tree_ok :: "string set \<Rightarrow> string set \<Rightarrow> bool" where
  "tree_ok D F \<longleftrightarrow> D \<inter> F = {} \<and> (\<forall>p \<in> D \<union> F. set (ancestors p) \<subseteq> D)"

definition disk_ok :: "disk \<Rightarrow> bool" where
  "disk_ok d \<longleftrightarrow> distinct (map fst (files d)) \<and> tree_ok (set (dirs d)) (dom (look d))"

lemma disk_ok_code [code]:
  "disk_ok d \<longleftrightarrow> distinct (map fst (files d)) \<and> tree_ok (set (dirs d)) (set (map fst (files d)))"
  by (simp add: disk_ok_def look_def dom_map_of_conv_image_fst)

lemma ancestors_closed: "b \<in> set (ancestors p) \<Longrightarrow> set (ancestors b) \<subseteq> set (ancestors p)"
  by (auto simp: ancestors_iff intro: under_trans)

lemma tree_ok_mkdir:
  assumes "tree_ok D F" "p \<notin> F" "set (ancestors p) \<inter> F = {}"
  shows "tree_ok (insert p (set (ancestors p) \<union> D)) F"
  using assms ancestors_closed [of _ p] unfolding tree_ok_def by fast

lemma tree_ok_put: "tree_ok D F \<Longrightarrow> p \<notin> D \<Longrightarrow> set (ancestors p) \<subseteq> D \<Longrightarrow> tree_ok D (insert p F)"
  by (auto simp: tree_ok_def)

lemma tree_ok_drop: "tree_ok D F \<Longrightarrow> G \<subseteq> F \<Longrightarrow> tree_ok D G"
  by (auto simp: tree_ok_def)

lemma tree_ok_prune:
  assumes "tree_ok D F"
  shows "tree_ok {x \<in> D. x \<noteq> p \<and> \<not> under p x} {x \<in> F. x \<noteq> p \<and> \<not> under p x}"
proof -
  have "a \<noteq> p \<and> \<not> under p a" if "x \<noteq> p" "\<not> under p x" "a \<in> set (ancestors x)" for a x
    using that by (auto simp: ancestors_iff intro: under_trans)
  with assms show ?thesis unfolding tree_ok_def by blast
qed

lemma distinct_put_drop: "distinct (map fst (files d)) \<Longrightarrow>
   distinct (map fst (files (put_file p x d))) \<and> distinct (map fst (files (drop_file p d)))"
  by (simp add: put_file_def drop_file_def distinct_update distinct_delete)

lemma disk_ok_put:
  "disk_ok d \<Longrightarrow> p \<notin> set (dirs d) \<Longrightarrow> set (ancestors p) \<subseteq> set (dirs d) \<Longrightarrow> disk_ok (put_file p x d)"
  using distinct_put_drop [of d p x] by (simp add: disk_ok_def tree_ok_put)

lemma disk_ok_overwrite: "disk_ok d \<Longrightarrow> look d p \<noteq> None \<Longrightarrow> disk_ok (put_file p x d)"
  using distinct_put_drop [of d p x] by (simp add: disk_ok_def insert_absorb domIff)

lemma disk_ok_drop: "disk_ok d \<Longrightarrow> disk_ok (drop_file p d)"
  using distinct_put_drop [of d p] by (auto simp: disk_ok_def elim: tree_ok_drop)

lemma disk_ok_cong: "files d1 = files d \<Longrightarrow> dirs d1 = dirs d \<Longrightarrow> disk_ok d1 = disk_ok d"
  by (simp add: disk_ok_def look_def)

lemma disk_ok_serial [simp]: "disk_ok (d\<lparr>serial := n\<rparr>) = disk_ok d"
  by (rule disk_ok_cong) simp_all

lemma tick_ok: "os_tick d = (r, d1) \<Longrightarrow> disk_ok d1 = disk_ok d"
  using os_tick_frame [of d r d1] by (intro disk_ok_cong) auto

text \<open>Every call starts with a tick; the rest of its effect is pure.\<close>

lemma MkdirAll_effect:
  assumes "os_MkdirAll p d = (r, d1)" and ok: "disk_ok d"
  shows "look d1 = look d" and "disk_ok d1"
    and "r = Inr () \<Longrightarrow> p \<in> set (dirs d1) \<and> set (ancestors p) \<subseteq> set (dirs d1)"
proof -
  obtain t d0 where t: "os_tick d = (t, d0)" by fastforce
  note fr = os_tick_frame [OF t]
  have ok0: "disk_ok d0" using ok tick_ok [OF t] by simp
  let ?new = "d0\<lparr>dirs := remdups (p # ancestors p @ dirs d0)\<rparr>"
  have "disk_ok ?new" if "list_ex (\<lambda>a. look d0 a \<noteq> None) (p # ancestors p) = False"
  proof -
    have "tree_ok (insert p (set (ancestors p) \<union> set (dirs d0))) (dom (look d0))"
      using that ok0 by (intro tree_ok_mkdir) (auto simp: disk_ok_def list_ex_iff)
    moreover have "set (dirs ?new) = insert p (set (ancestors p) \<union> set (dirs d0))" by auto
    ultimately show ?thesis using ok0 unfolding disk_ok_def by simp
  qed
  then show "look d1 = look d" "disk_ok d1"
    "r = Inr () \<Longrightarrow> p \<in> set (dirs d1) \<and> set (ancestors p) \<subseteq> set (dirs d1)"
    using assms(1) fr ok0 by (auto simp: os_MkdirAll_def t split: option.splits if_splits)
qed

lemma Create_effect:
  assumes "os_Create p d = (r, d1)" and ok: "disk_ok d"
  shows "look d1 = (if r = Inr () then (look d)(p \<mapsto> []) else look d)" and "disk_ok d1"
    and "dirs d1 = dirs d"
proof -
  obtain t d0 where t: "os_tick d = (t, d0)" by fastforce
  note fr = os_tick_frame [OF t]
  have ok0: "disk_ok d0" using ok tick_ok [OF t] by simp
  show "look d1 = (if r = Inr () then (look d)(p \<mapsto> []) else look d)" "disk_ok d1" "dirs d1 = dirs d"
    using assms(1) fr ok0 by (auto simp: os_Create_def t disk_ok_put split: option.splits if_splits)
qed

lemma CreateTemp_effect:
  assumes "os_CreateTemp dir pat d = (r, d1)" and ok: "disk_ok d"
  shows "\<And>p. r = Inr p \<Longrightarrow> p = temp_name dir pat (serial d)"
    and "look d1 = (case r of Inl _ \<Rightarrow> look d | Inr p \<Rightarrow> (look d)(p \<mapsto> []))" and "disk_ok d1"
    and "dirs d1 = dirs d"
proof -
  obtain r2 d2 where c: "os_Create (temp_name dir pat (serial d)) (d\<lparr>serial := Suc (serial d)\<rparr>) = (r2, d2)"
    by fastforce
  have "disk_ok (d\<lparr>serial := Suc (serial d)\<rparr>)" using ok by simp
  note e = Create_effect [OF c this]
  show "\<And>p. r = Inr p \<Longrightarrow> p = temp_name dir pat (serial d)"
    "look d1 = (case r of Inl _ \<Rightarrow> look d | Inr p \<Rightarrow> (look d)(p \<mapsto> []))" "disk_ok d1" "dirs d1 = dirs d"
    using assms(1) e by (auto simp: os_CreateTemp_def c Let_def split: sum.splits)
qed

lemma Copy_effect:
  assumes "io_Copy p x d = (r, d1)" and ok: "disk_ok d" and there: "look d p = Some y"
  shows "\<exists>z. look d1 = (look d)(p \<mapsto> z)" and "r = Inr () \<Longrightarrow> look d1 = (look d)(p \<mapsto> y @ x)"
    and "disk_ok d1" and "dirs d1 = dirs d"
proof -
  obtain t d0 where t: "os_tick d = (t, d0)" by fastforce
  note fr = os_tick_frame [OF t]
  have ok0: "disk_ok d0" using ok tick_ok [OF t] by simp
  show "\<exists>z. look d1 = (look d)(p \<mapsto> z)" "r = Inr () \<Longrightarrow> look d1 = (look d)(p \<mapsto> y @ x)"
    "disk_ok d1" "dirs d1 = dirs d"
    using assms(1) fr ok0 there
    by (auto simp: io_Copy_def t Let_def disk_ok_overwrite split: option.splits if_splits prod.splits)
qed

lemma Close_effect: "os_Close d = (r, d1) \<Longrightarrow> look d1 = look d \<and> (disk_ok d \<longrightarrow> disk_ok d1) \<and> dirs d1 = dirs d"
  by (auto simp: os_Close_def tick_ok dest: os_tick_frame split: prod.splits option.splits)

lemma Open_effect:
  "os_Open p d = (r, d1) \<Longrightarrow> look d1 = look d \<and> (disk_ok d \<longrightarrow> disk_ok d1) \<and> (\<forall>x. r = Inr x \<longrightarrow> look d p = Some x)"
  by (auto simp: os_Open_def tick_ok dest: os_tick_frame split: prod.splits option.splits)

lemma Remove_effect:
  assumes "os_Remove p d = (r, d1)" and ok: "disk_ok d"
  shows "look d1 = look d \<or> look d1 = (look d)(p := None)" and "disk_ok d1"
    and "r = Inr () \<Longrightarrow> look d1 = (look d)(p := None)"
proof -
  obtain t d0 where t: "os_tick d = (t, d0)" by fastforce
  note fr = os_tick_frame [OF t]
  have ok0: "disk_ok d0" using ok tick_ok [OF t] by simp
  show "look d1 = look d \<or> look d1 = (look d)(p := None)" "disk_ok d1"
    "r = Inr () \<Longrightarrow> look d1 = (look d)(p := None)"
    using assms(1) fr ok0 by (auto simp: os_Remove_def t disk_ok_drop split: option.splits if_splits)
qed

lemma Rename_effect:
  assumes "os_Rename p q d = (r, d1)" and ok: "disk_ok d"
  shows "r = Inr () \<Longrightarrow> \<exists>x. look d p = Some x \<and> look d1 = (look d)(p := None, q \<mapsto> x)"
    and "r \<noteq> Inr () \<Longrightarrow> look d1 = look d" and "disk_ok d1"
proof -
  obtain t d0 where t: "os_tick d = (t, d0)" by fastforce
  note fr = os_tick_frame [OF t]
  have ok0: "disk_ok d0" using ok tick_ok [OF t] by simp
  show "r = Inr () \<Longrightarrow> \<exists>x. look d p = Some x \<and> look d1 = (look d)(p := None, q \<mapsto> x)"
    "r \<noteq> Inr () \<Longrightarrow> look d1 = look d" "disk_ok d1"
    using assms(1) fr ok0
    by (auto simp: os_Rename_def t disk_ok_put disk_ok_drop split: option.splits if_splits)
qed

lemma look_filter: "map_of (filter (\<lambda>f. P (fst f)) al) = (\<lambda>x. if P x then map_of al x else None)"
  by (induction al) (auto simp: fun_eq_iff)

lemma RemoveAll_effect:
  assumes "os_RemoveAll p d = (r, d1)" and ok: "disk_ok d"
  shows "r = Inr () \<Longrightarrow> look d1 = (\<lambda>x. if x = p \<or> under p x then None else look d x)"
    and "r \<noteq> Inr () \<Longrightarrow> look d1 = look d" and "disk_ok d1"
proof -
  obtain t d0 where t: "os_tick d = (t, d0)" by fastforce
  note fr = os_tick_frame [OF t]
  have ok0: "disk_ok d0" using ok tick_ok [OF t] by simp
  let ?P = "\<lambda>x. x \<noteq> p \<and> \<not> under p x"
  let ?new = "d0\<lparr>files := filter (\<lambda>f. ?P (fst f)) (files d0), dirs := filter ?P (dirs d0)\<rparr>"
  have lk: "look ?new = (\<lambda>x. if x = p \<or> under p x then None else look d0 x)"
    unfolding look_def by (auto simp: look_filter [of ?P] fun_eq_iff)
  have "dom (look ?new) = {x \<in> dom (look d0). ?P x}" unfolding lk by (auto split: if_splits)
  moreover have "set (dirs ?new) = {x \<in> set (dirs d0). ?P x}" by simp
  ultimately have "tree_ok (set (dirs ?new)) (dom (look ?new))"
    using tree_ok_prune [of "set (dirs d0)" "dom (look d0)" p] ok0 unfolding disk_ok_def by metis
  moreover have "distinct (map fst (files ?new))"
    using ok0 by (simp add: disk_ok_def distinct_map_filter)
  ultimately have "disk_ok ?new" by (simp add: disk_ok_def)
  then show "r = Inr () \<Longrightarrow> look d1 = (\<lambda>x. if x = p \<or> under p x then None else look d x)"
    "r \<noteq> Inr () \<Longrightarrow> look d1 = look d" "disk_ok d1"
    using assms(1) fr ok0 lk by (auto simp: os_RemoveAll_def t split: option.splits)
qed

lemma Stat_effect:
  "os_Stat p d = (r, d1) \<Longrightarrow> look d1 = look d \<and> (disk_ok d \<longrightarrow> disk_ok d1) \<and>
     (r = Inr () \<longrightarrow> p \<in> set (dirs d) \<or> look d p \<noteq> None)"
  by (auto simp: os_Stat_def tick_ok dest: os_tick_frame split: prod.splits option.splits if_splits)

end
