(* ===== verification/Keys.thy ===== *)
theory Keys
  imports GoStrings
begin

text \<open>
  Identifier validation (\<^verbatim>\<open>isValidID\<close> of \<^verbatim>\<open>internal/server/routes.go\<close>), the storage keys of
  \<^verbatim>\<open>internal/storage/keys.go\<close>, the listing-prefix guard and content types of
  \<^verbatim>\<open>internal/storage/r2.go\<close>, and \<^verbatim>\<open>ChangeExtension\<close> of \<^verbatim>\<open>internal/media/processor.go\<close>.
  The lemmas show that keys built from valid identifiers never collide and that a stream's
  listing prefix covers exactly that stream's objects.
\<close>

section \<open>Identifiers\<close>

definition id_char :: "char \<Rightarrow> bool" where
  "id_char c \<longleftrightarrow>
     (let n = of_char c :: nat
      in (65 \<le> n \<and> n \<le> 90) \<or> (97 \<le> n \<and> n \<le> 122) \<or> (48 \<le> n \<and> n \<le> 57) \<or> n = 95 \<or> n = 45)"

definition isValidID :: "string \<Rightarrow> bool" where
  "isValidID s \<longleftrightarrow> 0 < length s \<and> length s \<le> 128 \<and> (s \<noteq> [] \<and> list_all id_char s)"

lemma isValidID_chars: "isValidID s \<Longrightarrow> c \<in> set s \<Longrightarrow> id_char c"
  by (auto simp: isValidID_def list_all_iff)

lemma isValidID_no_slash: "isValidID s \<Longrightarrow> CHR ''/'' \<notin> set s"
  by (auto dest: isValidID_chars simp: id_char_def)

lemma isValidID_no_dot: "isValidID s \<Longrightarrow> CHR ''.'' \<notin> set s"
  by (auto dest: isValidID_chars simp: id_char_def)

lemma isValidID_nonempty: "isValidID s \<Longrightarrow> s \<noteq> []"
  by (simp add: isValidID_def)

lemmas valid_id_facts = isValidID_no_slash isValidID_no_dot isValidID_nonempty

section \<open>Storage keys\<close>

definition RawKey :: "string \<Rightarrow> string \<Rightarrow> string \<Rightarrow> string" where
  "RawKey channel stream fileID = channel @ ''/'' @ stream @ ''/raw/'' @ fileID @ ''.raw''"

definition AudioKey :: "string \<Rightarrow> string \<Rightarrow> string \<Rightarrow> string" where
  "AudioKey channel stream fileID = channel @ ''/'' @ stream @ ''/audio/'' @ fileID @ ''.m4a''"

definition FrameKey :: "string \<Rightarrow> string \<Rightarrow> string \<Rightarrow> string" where
  "FrameKey channel stream fileID = channel @ ''/'' @ stream @ ''/frame/'' @ fileID @ ''.jpg''"

definition ClipKey :: "string \<Rightarrow> string \<Rightarrow> string \<Rightarrow> string \<Rightarrow> string" where
  "ClipKey channel stream clipID ext = channel @ ''/'' @ stream @ ''/clips/'' @ clipID @ ext"

definition VodKey :: "string \<Rightarrow> string \<Rightarrow> string \<Rightarrow> string \<Rightarrow> string" where
  "VodKey channel stream vodID ext = channel @ ''/'' @ stream @ ''/vod/'' @ vodID @ ext"

definition VodPrefix :: "string \<Rightarrow> string \<Rightarrow> string" where
  "VodPrefix channel stream = channel @ ''/'' @ stream @ ''/vod/''"

definition StreamPrefix :: "string \<Rightarrow> string \<Rightarrow> string" where
  "StreamPrefix channel stream = channel @ ''/'' @ stream @ ''/''"

definition RawPrefix :: "string \<Rightarrow> string \<Rightarrow> string" where
  "RawPrefix channel stream = channel @ ''/'' @ stream @ ''/raw/''"

lemmas key_defs = RawKey_def AudioKey_def FrameKey_def ClipKey_def VodKey_def

lemmas prefix_defs = VodPrefix_def StreamPrefix_def RawPrefix_def

definition ensureTrailingSlash :: "string \<Rightarrow> string" where
  "ensureTrailingSlash pre = (if \<not> has_suffix pre ''/'' then pre @ ''/'' else pre)"

text \<open>
  \<^verbatim>\<open>getContentType\<close> falls back to the platform's MIME table, which the operating system
  supplies: \<open>mime\<close> is \<^verbatim>\<open>mime.TypeByExtension\<close>. \<open>lower\<close> is \<^verbatim>\<open>strings.ToLower\<close>, ASCII letters
  here, as an extension with other letters takes the fallback either way.
\<close>

definition ascii_lower :: "char \<Rightarrow> char" where
  "ascii_lower c =
     (let n = of_char c :: nat in if 65 \<le> n \<and> n \<le> 90 then char_of (n + 32) else c)"

definition getContentType :: "(string \<Rightarrow> string) \<Rightarrow> string \<Rightarrow> string" where
  "getContentType mime filename =
     (let ext = map ascii_lower (path_ext filename)
      in if ext = ''.mp3'' then ''audio/mpeg''
         else if ext = ''.m4a'' then ''audio/mp4''
         else if ext = ''.mp4'' then ''video/mp4''
         else if ext = ''.jpg'' \<or> ext = ''.jpeg'' then ''image/jpeg''
         else if ext = ''.raw'' then ''application/octet-stream''
         else (let ct = mime ext in if ct = [] then ''application/octet-stream'' else ct))"

definition ChangeExtension :: "string \<Rightarrow> string \<Rightarrow> string" where
  "ChangeExtension path newExt =
     (let newExt' = (if \<not> has_prefix newExt ''.'' then ''.'' @ newExt else newExt);
          oldExt = path_ext path
      in trim_suffix path oldExt @ newExt')"

section \<open>Keys never collide\<close>

text \<open>
  Every key is \<open>channel/stream/kind/file\<close>. With slash-free components the last slashes
  determine the parts, so equal keys have equal parts (the channel may be anything).
\<close>

lemma key_shape_inject:
  assumes "CHR ''/'' \<notin> set s" "CHR ''/'' \<notin> set s'" "CHR ''/'' \<notin> set k" "CHR ''/'' \<notin> set k'"
    and "CHR ''/'' \<notin> set f" "CHR ''/'' \<notin> set f'"
  shows "c @ CHR ''/'' # s @ CHR ''/'' # k @ CHR ''/'' # f
         = c' @ CHR ''/'' # s' @ CHR ''/'' # k' @ CHR ''/'' # f'
     \<longleftrightarrow> c = c' \<and> s = s' \<and> k = k' \<and> f = f'" (is "?l = ?r \<longleftrightarrow> ?eq")
proof
  assume "?l = ?r"
  then have 1: "(c @ CHR ''/'' # s @ CHR ''/'' # k) @ CHR ''/'' # f
           = (c' @ CHR ''/'' # s' @ CHR ''/'' # k') @ CHR ''/'' # f'" by simp
  have 2: "(c @ CHR ''/'' # s) @ CHR ''/'' # k = (c' @ CHR ''/'' # s') @ CHR ''/'' # k' \<and> f = f'"
    using iffD1 [OF append_sep_last_inject [OF assms(5,6)] 1] by simp
  have 3: "c @ CHR ''/'' # s = c' @ CHR ''/'' # s' \<and> k = k'"
    by (rule iffD1 [OF append_sep_last_inject [OF assms(3,4)]]) (rule conjunct1 [OF 2])
  have "c = c' \<and> s = s'"
    by (rule iffD1 [OF append_sep_last_inject [OF assms(1,2)]]) (rule conjunct1 [OF 3])
  with 2 3 show ?eq by simp
qed simp

lemma RawKey_shape: "RawKey c s f = c @ CHR ''/'' # s @ CHR ''/'' # ''raw'' @ CHR ''/'' # f @ ''.raw''"
  by (simp add: RawKey_def)

lemma AudioKey_shape: "AudioKey c s f = c @ CHR ''/'' # s @ CHR ''/'' # ''audio'' @ CHR ''/'' # f @ ''.m4a''"
  by (simp add: AudioKey_def)

lemma FrameKey_shape: "FrameKey c s f = c @ CHR ''/'' # s @ CHR ''/'' # ''frame'' @ CHR ''/'' # f @ ''.jpg''"
  by (simp add: FrameKey_def)

lemma ClipKey_shape: "ClipKey c s i e = c @ CHR ''/'' # s @ CHR ''/'' # ''clips'' @ CHR ''/'' # i @ e"
  by (simp add: ClipKey_def)

lemma VodKey_shape: "VodKey c s i e = c @ CHR ''/'' # s @ CHR ''/'' # ''vod'' @ CHR ''/'' # i @ e"
  by (simp add: VodKey_def)

lemmas key_shapes = RawKey_shape AudioKey_shape FrameKey_shape ClipKey_shape VodKey_shape

datatype media_kind = Raw | Audio | Frame | Clip string | Vod string

definition key_of :: "media_kind \<Rightarrow> string \<Rightarrow> string \<Rightarrow> string \<Rightarrow> string" where
  "key_of kind c s f =
     (case kind of Raw \<Rightarrow> RawKey c s f | Audio \<Rightarrow> AudioKey c s f | Frame \<Rightarrow> FrameKey c s f
      | Clip e \<Rightarrow> ClipKey c s f e | Vod e \<Rightarrow> VodKey c s f e)"

definition kind_ext :: "media_kind \<Rightarrow> string" where
  "kind_ext kind = (case kind of Raw \<Rightarrow> ''.raw'' | Audio \<Rightarrow> ''.m4a'' | Frame \<Rightarrow> ''.jpg''
      | Clip e \<Rightarrow> e | Vod e \<Rightarrow> e)"

definition kind_dir :: "media_kind \<Rightarrow> string" where
  "kind_dir kind = (case kind of Raw \<Rightarrow> ''raw'' | Audio \<Rightarrow> ''audio'' | Frame \<Rightarrow> ''frame''
      | Clip e \<Rightarrow> ''clips'' | Vod e \<Rightarrow> ''vod'')"

text \<open>The extensions the server passes to \<^const>\<open>ClipKey\<close> and \<^const>\<open>VodKey\<close>.\<close>

definition media_ext :: "string \<Rightarrow> bool" where
  "media_ext e \<longleftrightarrow> e \<in> {''.m4a'', ''.mp3'', ''.mp4''}"

definition kind_ok :: "media_kind \<Rightarrow> bool" where
  "kind_ok kind = (case kind of Clip e \<Rightarrow> media_ext e | Vod e \<Rightarrow> media_ext e | _ \<Rightarrow> True)"

lemma key_of_shape:
  "key_of kind c s f = c @ CHR ''/'' # s @ CHR ''/'' # kind_dir kind @ CHR ''/'' # f @ kind_ext kind"
  by (cases kind) (simp_all add: key_of_def kind_dir_def kind_ext_def key_shapes)

lemma kind_dir_no_slash [simp]: "CHR ''/'' \<notin> set (kind_dir kind)"
  by (cases kind) (simp_all add: kind_dir_def)

lemma kind_ext_no_slash: "kind_ok kind \<Longrightarrow> CHR ''/'' \<notin> set (kind_ext kind)"
  by (cases kind) (auto simp: kind_ext_def kind_ok_def media_ext_def)

lemma kind_ext_dot: "kind_ok kind \<Longrightarrow> \<exists>e. kind_ext kind = CHR ''.'' # e \<and> CHR ''.'' \<notin> set e"
  by (cases kind) (auto simp: kind_ext_def kind_ok_def media_ext_def)

lemma kind_determined: "kind_dir k = kind_dir k' \<Longrightarrow> kind_ext k = kind_ext k' \<Longrightarrow> k = k'"
  by (cases k; cases k') (simp_all add: kind_dir_def kind_ext_def)

lemma key_of_inject:
  assumes "isValidID s" "isValidID s'" "isValidID f" "isValidID f'" "kind_ok k" "kind_ok k'"
    and eq: "key_of k c s f = key_of k' c' s' f'"
  shows "k = k' \<and> c = c' \<and> s = s' \<and> f = f'"
proof -
  have ns: "CHR ''/'' \<notin> set (f @ kind_ext k)" "CHR ''/'' \<notin> set (f' @ kind_ext k')"
    using assms by (auto dest: isValidID_no_slash kind_ext_no_slash)
  have parts: "c = c' \<and> s = s' \<and> kind_dir k = kind_dir k' \<and> f @ kind_ext k = f' @ kind_ext k'"
    using eq unfolding key_of_shape
    by (subst (asm) key_shape_inject) (use assms ns in \<open>auto dest: isValidID_no_slash\<close>)
  obtain e e' where e: "kind_ext k = CHR ''.'' # e" "CHR ''.'' \<notin> set e"
    "kind_ext k' = CHR ''.'' # e'" "CHR ''.'' \<notin> set e'"
    using kind_ext_dot assms(5,6) by metis
  with parts have "f @ CHR ''.'' # e = f' @ CHR ''.'' # e'" by simp
  then have "f = f' \<and> e = e'"
    using append_sep_first_inject [of "CHR ''.''" f f' e e'] assms(3,4)
    by (auto dest: isValidID_no_dot)
  with parts e show ?thesis using kind_determined by metis
qed

section \<open>Listing prefixes select exactly one stream\<close>

lemma prefix_covers:
  assumes "CHR ''/'' \<notin> set c" "CHR ''/'' \<notin> set c'" "CHR ''/'' \<notin> set s" "CHR ''/'' \<notin> set s'"
  shows "has_prefix (c' @ CHR ''/'' # s' @ CHR ''/'' # rest) (c @ CHR ''/'' # s @ ''/'')
     \<longleftrightarrow> c = c' \<and> s = s'"
proof
  assume "has_prefix (c' @ CHR ''/'' # s' @ CHR ''/'' # rest) (c @ CHR ''/'' # s @ ''/'')"
  then obtain t where "c' @ CHR ''/'' # s' @ CHR ''/'' # rest = c @ CHR ''/'' # s @ CHR ''/'' # t"
    by (auto simp: has_prefix_append)
  then have "c' = c \<and> s' @ CHR ''/'' # rest = s @ CHR ''/'' # t"
    using append_sep_first_inject assms by metis
  then have "c' = c \<and> s' = s \<and> rest = t"
    using append_sep_first_inject assms by metis
  then show "c = c' \<and> s = s'" by simp
qed (auto simp: has_prefix_append)

lemma StreamPrefix_covers:
  assumes "CHR ''/'' \<notin> set c" "CHR ''/'' \<notin> set c'" "isValidID s" "isValidID s'"
  shows "has_prefix (key_of k c' s' f) (StreamPrefix c s) \<longleftrightarrow> c = c' \<and> s = s'"
  unfolding key_of_shape StreamPrefix_def
  using prefix_covers [of c c' s s'] assms by (auto dest: isValidID_no_slash)

lemma ensureTrailingSlash_prefix [simp]:
  "ensureTrailingSlash (StreamPrefix c s) = StreamPrefix c s"
  "ensureTrailingSlash (RawPrefix c s) = RawPrefix c s"
  "ensureTrailingSlash (VodPrefix c s) = VodPrefix c s"
  using has_suffix_self [of "c @ ''/'' @ s" "''/''"] has_suffix_self [of "c @ ''/'' @ s @ ''/raw''" "''/''"]
    has_suffix_self [of "c @ ''/'' @ s @ ''/vod''" "''/''"]
  by (simp_all add: ensureTrailingSlash_def prefix_defs)

lemma ensureTrailingSlash_suffix: "has_suffix (ensureTrailingSlash p) ''/''"
  by (simp add: ensureTrailingSlash_def)

lemma ensureTrailingSlash_idem [simp]:
  "ensureTrailingSlash (ensureTrailingSlash p) = ensureTrailingSlash p"
  using ensureTrailingSlash_suffix [of p] by (simp add: ensureTrailingSlash_def)

section \<open>\<^const>\<open>ChangeExtension\<close>\<close>

lemma ChangeExtension_suffix: "\<exists>stem. ChangeExtension path newExt = stem @ newExt"
  by (auto simp: ChangeExtension_def Let_def)

lemma ChangeExtension_replaces:
  assumes "CHR ''.'' \<notin> set e" "CHR ''/'' \<notin> set e"
  shows "ChangeExtension (stem @ CHR ''.'' # e) (CHR ''.'' # e') = stem @ CHR ''.'' # e'"
  using trim_suffix_append [of stem "CHR ''.'' # e"] path_ext_append [OF assms, of stem]
  by (simp add: ChangeExtension_def Let_def has_prefix_def)

end
