(* ===== verification/Storage.thy ===== *)
theory Storage
  imports Disk Keys
begin

text \<open>
  \<^verbatim>\<open>internal/storage\<close>: the \<^verbatim>\<open>Storage\<close> interface as a record of operations, and the
  contract every backend keeps: a locale over the map from keys to objects that a backend implements.
\<close>

section \<open>The interface\<close>

record 's storage =
  st_Save :: "string \<Rightarrow> string \<Rightarrow> 's \<Rightarrow> string res \<times> 's"
  st_Get :: "string \<Rightarrow> 's \<Rightarrow> string res \<times> 's"
  st_GetURL :: "string \<Rightarrow> string"
  st_DeleteFolder :: "string \<Rightarrow> 's \<Rightarrow> unit res \<times> 's"
  st_StreamExists :: "string \<Rightarrow> 's \<Rightarrow> bool res \<times> 's"
  st_List :: "string \<Rightarrow> 's \<Rightarrow> string list res \<times> 's"
  st_IsLocal :: bool

section \<open>The layout: channel, stream, kind, file\<close>

definition media_name :: "string \<Rightarrow> bool" where
  "media_name f \<longleftrightarrow> (case split_on CHR ''.'' f of [i, e] \<Rightarrow> isValidID i \<and> isValidID e | _ \<Rightarrow> False)"

definition media_key :: "string \<Rightarrow> bool" where
  "media_key k \<longleftrightarrow> (case split_on CHR ''/'' k of
      [c, s, t, f] \<Rightarrow> isValidID c \<and> isValidID s \<and> isValidID t \<and> media_name f | _ \<Rightarrow> False)"

definition media_prefix :: "string \<Rightarrow> bool" where
  "media_prefix p \<longleftrightarrow> (case split_on CHR ''/'' p of
      [c, s, e] \<Rightarrow> isValidID c \<and> isValidID s \<and> e = []
    | [c, s, t, e] \<Rightarrow> isValidID c \<and> isValidID s \<and> isValidID t \<and> e = []
    | _ \<Rightarrow> False)"

lemma media_nameE:
  assumes "media_name f"
  obtains i e where "f = i @ CHR ''.'' # e" "isValidID i" "isValidID e"
proof -
  obtain i e where ie: "split_on CHR ''.'' f = [i, e]" "isValidID i" "isValidID e"
    using assms by (auto simp: media_name_def split: list.splits)
  have "f = i @ CHR ''.'' # e"
    using ie(1) by (auto simp: split_on_Cons_iff split_on_one)
  with ie that show ?thesis by blast
qed

lemma media_keyE:
  assumes "media_key k"
  obtains c s t f where "k = c @ CHR ''/'' # s @ CHR ''/'' # t @ CHR ''/'' # f"
    "isValidID c" "isValidID s" "isValidID t" "media_name f" "split_on CHR ''/'' k = [c, s, t, f]"
proof -
  obtain c s t f where 1: "split_on CHR ''/'' k = [c, s, t, f]" "isValidID c" "isValidID s"
    "isValidID t" "media_name f"
    using assms by (auto simp: media_key_def split: list.splits)
  moreover have "k = c @ CHR ''/'' # s @ CHR ''/'' # t @ CHR ''/'' # f"
    using 1(1) by (auto simp: split_on_Cons_iff split_on_one)
  ultimately show ?thesis using that by blast
qed

lemma media_prefixE:
  assumes "media_prefix p"
  obtains cs where "p = join_slash cs @ ''/''" "cs \<noteq> []" "list_all isValidID cs"
proof -
  consider c s where "split_on CHR ''/'' p = [c, s, []]" "list_all isValidID [c, s]"
    | c s t where "split_on CHR ''/'' p = [c, s, t, []]" "list_all isValidID [c, s, t]"
    using assms by (auto simp: media_prefix_def split: list.splits)
  then show ?thesis
  proof cases
    case 1
    have "p = join_slash [c, s] @ ''/''" using 1(1) join_split [of p] by simp
    with 1(2) that [of "[c, s]"] show ?thesis by simp
  next
    case 2
    have "p = join_slash [c, s, t] @ ''/''" using 2(1) join_split [of p] by simp
    with 2(2) that [of "[c, s, t]"] show ?thesis by simp
  qed
qed

lemma valid_id_good: "isValidID c \<Longrightarrow> good_comp c"
  using isValidID_no_dot [of c] isValidID_no_slash [of c] isValidID_nonempty [of c]
  by (auto simp: good_comp_def)

lemma valid_ids_good: "list_all isValidID cs \<Longrightarrow> cs \<noteq> [] \<Longrightarrow> good_comps cs"
  by (auto simp: good_comps_def list_all_iff valid_id_good)

lemma media_name_good: "media_name f \<Longrightarrow> good_comp f \<and> hd f \<noteq> CHR ''.'' \<and> count_list f CHR ''.'' = 1"
proof (elim media_nameE)
  fix i e
  assume f: "f = i @ CHR ''.'' # e" "isValidID i" "isValidID e"
  note ids = isValidID_no_dot [OF f(2)] isValidID_no_dot [OF f(3)] isValidID_no_slash [OF f(2)]
    isValidID_no_slash [OF f(3)] isValidID_nonempty [OF f(2)] isValidID_nonempty [OF f(3)]
  obtain a i' where "i = a # i'" using ids(5) by (cases i) auto
  then show ?thesis
    using ids f(1) by (auto simp: good_comp_def count_list_append count_notin)
qed

lemma str_contains_iff: "str_contains s sub \<longleftrightarrow> (\<exists>a b. s = a @ sub @ b)"
proof (induction s)
  case (Cons c s)
  have "(\<exists>a b. c # s = a @ sub @ b) \<longleftrightarrow> has_prefix (c # s) sub \<or> (\<exists>a b. s = a @ sub @ b)"
    by (auto simp: has_prefix_append Cons_eq_append_conv)
  with Cons show ?case by simp
qed auto

lemma no_dotdot: "count_list k CHR ''.'' \<le> 1 \<Longrightarrow> \<not> str_contains k ''..''"
  by (auto simp: str_contains_iff count_list_append)

lemma join_no_dot: "list_all isValidID cs \<Longrightarrow> CHR ''.'' \<notin> set (join_slash cs)"
  by (induction cs rule: join_slash.induct) (auto dest: isValidID_no_dot)

lemma media_key_good:
  assumes "media_key k"
  shows "good_comps (split_on CHR ''/'' k)" and "\<not> str_contains k ''..''"
proof -
  obtain c s t f where k: "k = c @ CHR ''/'' # s @ CHR ''/'' # t @ CHR ''/'' # f"
    "isValidID c" "isValidID s" "isValidID t" "media_name f" "split_on CHR ''/'' k = [c, s, t, f]"
    using assms by (rule media_keyE)
  show "good_comps (split_on CHR ''/'' k)"
    using k valid_id_good media_name_good by (auto simp: good_comps_def)
  have "count_list k CHR ''.'' = 1"
    using k media_name_good [of f] isValidID_no_dot
    by (simp add: count_list_append count_notin)
  then show "\<not> str_contains k ''..''" by (intro no_dotdot) simp
qed

text \<open>The keys and prefixes the program builds are of this shape.\<close>

lemma key_of_media:
  assumes "isValidID c" "isValidID s" "isValidID f" "kind_ok k"
  shows "media_key (key_of k c s f)"
proof -
  obtain e where e: "kind_ext k = CHR ''.'' # e" "isValidID e"
    using assms(4) by (cases k) (auto simp: kind_ext_def kind_ok_def media_ext_def isValidID_def id_char_def)
  have t: "isValidID (kind_dir k)"
    by (cases k) (auto simp: kind_dir_def isValidID_def id_char_def)
  have sp: "split_on CHR ''/'' (key_of k c s f) = [c, s, kind_dir k, f @ CHR ''.'' # e]"
    using assms(1-3) t e by (auto simp: key_of_shape split_on_Cons_iff split_on_one dest: isValidID_no_slash)
  have "split_on CHR ''.'' (f @ CHR ''.'' # e) = [f, e]"
    using assms(3) e by (auto simp: split_on_Cons_iff split_on_one dest: isValidID_no_dot)
  then have "media_name (f @ CHR ''.'' # e)" using assms(3) e by (simp add: media_name_def)
  with sp assms(1,2) t show ?thesis by (simp add: media_key_def)
qed

lemma prefixes_media:
  assumes "isValidID c" "isValidID s"
  shows "media_prefix (StreamPrefix c s)" and "media_prefix (RawPrefix c s)" and "media_prefix (VodPrefix c s)"
proof -
  have v: "isValidID ''raw''" "isValidID ''vod''" by (simp_all add: isValidID_def id_char_def)
  have "split_on CHR ''/'' (StreamPrefix c s) = [c, s, []]"
    "split_on CHR ''/'' (RawPrefix c s) = [c, s, ''raw'', []]"
    "split_on CHR ''/'' (VodPrefix c s) = [c, s, ''vod'', []]"
    using assms by (auto simp: prefix_defs split_on_Cons_iff split_on_one dest: isValidID_no_slash)
  with assms v show "media_prefix (StreamPrefix c s)" "media_prefix (RawPrefix c s)" "media_prefix (VodPrefix c s)"
    by (simp_all add: media_prefix_def)
qed

section \<open>The contract\<close>

text \<open>
  \<open>obj\<close> is the finite map from keys to contents that the state of a backend stands for. The laws
  speak about the keys and prefixes of the layout. An operation that reports an error may have
  failed anywhere, but never leaves a partial object: a failed \<open>Save\<close> left the old object or put
  the new one. A backend whose failed \<open>Save\<close> changes nothing is an \<open>atomic_store\<close>.
\<close>

locale media_store =
  fixes store :: "'s storage" and obj :: "'s \<Rightarrow> string \<Rightarrow> string option" and invar :: "'s \<Rightarrow> bool"
  assumes save: "invar s \<Longrightarrow> media_key k \<Longrightarrow> st_Save store k x s = (r, s') \<Longrightarrow>
      invar s' \<and> (\<forall>j. media_key j \<longrightarrow> j \<noteq> k \<longrightarrow> obj s' j = obj s j) \<and>
      obj s' k \<in> {obj s k, Some x} \<and> (\<forall>u. r = Inr u \<longrightarrow> obj s' k = Some x)"
    and get: "invar s \<Longrightarrow> media_key k \<Longrightarrow> st_Get store k s = (gr, s') \<Longrightarrow>
      invar s' \<and> obj s' = obj s \<and> (\<forall>x. gr = Inr x \<longrightarrow> obj s k = Some x)"
    and delete: "invar s \<Longrightarrow> media_prefix p \<Longrightarrow> st_DeleteFolder store p s = (dr, s') \<Longrightarrow>
      invar s' \<and> (\<forall>j. media_key j \<longrightarrow> \<not> has_prefix j p \<longrightarrow> obj s' j = obj s j) \<and>
      (\<forall>j. media_key j \<longrightarrow> obj s' j = None \<or> obj s' j = obj s j) \<and>
      (dr = Inr () \<longrightarrow> (\<forall>j. media_key j \<longrightarrow> has_prefix j p \<longrightarrow> obj s' j = None))"
    and stream_exists: "invar s \<Longrightarrow> media_prefix p \<Longrightarrow> st_StreamExists store p s = (er, s') \<Longrightarrow>
      invar s' \<and> obj s' = obj s \<and>
      (er = Inr False \<longrightarrow> (\<forall>j. media_key j \<longrightarrow> has_prefix j p \<longrightarrow> obj s j = None))"
    and list_keys: "invar s \<Longrightarrow> media_prefix p \<Longrightarrow> st_List store p s = (lr, s') \<Longrightarrow>
      invar s' \<and> obj s' = obj s \<and>
      (\<forall>ks. lr = Inr ks \<longrightarrow>
         (\<forall>k \<in> set ks. media_key k \<longrightarrow> has_prefix k p \<and> obj s k \<noteq> None) \<and>
         (\<forall>f. media_key (p @ f) \<longrightarrow> CHR ''/'' \<notin> set f \<longrightarrow> obj s (p @ f) \<noteq> None \<longrightarrow> p @ f \<in> set ks))"
begin

lemma save_then_get:
  assumes "invar s" "media_key k" "st_Save store k x s = (Inr u, s1)" "st_Get store k s1 = (Inr y, s2)"
  shows "y = x"
  using save [OF assms(1-3)] get [OF _ assms(2,4)] by auto

lemma save_other:
  assumes "invar s" "media_key k" "st_Save store k x s = (r, s1)" "media_key j" "j \<noteq> k"
  shows "obj s1 j = obj s j"
  using save [OF assms(1-3)] assms(4,5) by blast

lemma delete_stream_only:
  assumes "invar s" "isValidID c" "isValidID sid" "st_DeleteFolder store (StreamPrefix c sid) s = (r, s')"
    and "isValidID c'" "isValidID sid'" "isValidID f" "kind_ok k" "(c', sid') \<noteq> (c, sid)"
  shows "obj s' (key_of k c' sid' f) = obj s (key_of k c' sid' f)"
proof -
  have "\<not> has_prefix (key_of k c' sid' f) (StreamPrefix c sid)"
    using StreamPrefix_covers [of c c' sid sid' k f] assms by (auto dest: isValidID_no_slash)
  with delete [OF assms(1) prefixes_media(1) [OF assms(2,3)] assms(4)]
    key_of_media [OF assms(5-8)] show ?thesis by auto
qed

lemma delete_stream_all:
  assumes "invar s" "isValidID c" "isValidID sid" "st_DeleteFolder store (StreamPrefix c sid) s = (Inr (), s')"
    and "isValidID f" "kind_ok k"
  shows "obj s' (key_of k c sid f) = None"
proof -
  have "has_prefix (key_of k c sid f) (StreamPrefix c sid)"
    using StreamPrefix_covers [of c c sid sid k f] assms by (auto dest: isValidID_no_slash)
  with delete [OF assms(1) prefixes_media(1) [OF assms(2,3)] assms(4)]
    key_of_media [OF assms(2,3,5,6)] show ?thesis by auto
qed

end

locale atomic_store = media_store +
  assumes save_failed: "invar s \<Longrightarrow> media_key k \<Longrightarrow> st_Save store k x s = (Inl e, s') \<Longrightarrow> media_key j \<Longrightarrow>
      obj s' j = obj s j"
begin

lemma save_obj:
  assumes "invar s" "media_key k" "st_Save store k x s = (r, s')" "media_key j"
  shows "obj s' j = (case r of Inr _ \<Rightarrow> ((obj s)(k \<mapsto> x)) j | Inl _ \<Rightarrow> obj s j)"
proof (cases r)
  case (Inl e)
  with save_failed [of s k x e s' j] assms show ?thesis by simp
next
  case (Inr u)
  with save [OF assms(1-3)] assms(4) show ?thesis by simp
qed

end

end
