(* ===== verification/LocalStorage.thy ===== *)
theory LocalStorage
  imports Storage
begin

text \<open>
  \<^verbatim>\<open>internal/storage/local.go\<close>: the file-system backend, method by method, and the proof that it
  keeps the storage contract. A store's state pairs the server's disk with the remote bucket (of
  any type), as the handlers use the disk for scratch files whichever backend is configured.
\<close>

record 'b stores =
  disk :: disk
  bucket :: 'b

section \<open>Methods\<close>

definition ls_resolve :: "string \<Rightarrow> string \<Rightarrow> string res" where
  "ls_resolve base key =
     (if str_contains key ''..'' then Inl (ErrOther ''invalid storage key: contains ..'')
      else (let fullPath = path_join [base, key]; b = path_clean base
            in if fullPath \<noteq> b \<and> \<not> has_prefix fullPath (b @ ''/'')
               then Inl (ErrOther ''invalid storage key: escapes base directory'')
               else Inr fullPath))"

definition ls_GetURL :: "string \<Rightarrow> string \<Rightarrow> string" where
  "ls_GetURL url key = (if url \<noteq> [] then url @ ''/'' @ key else key)"

definition ls_Save :: "string \<Rightarrow> string \<Rightarrow> string \<Rightarrow> string \<Rightarrow> disk \<Rightarrow> string res \<times> disk" where
  "ls_Save base url key data d =
     (case ls_resolve base key of
        Inl e \<Rightarrow> (Inl e, d)
      | Inr fullPath \<Rightarrow>
         (let dir = path_dir fullPath
          in case os_MkdirAll dir d of
               (Inl e, d1) \<Rightarrow> (Inl e, d1)
             | (Inr _, d1) \<Rightarrow>
           (case os_CreateTemp dir (''.'' @ path_base fullPath @ ''.tmp'') d1 of
               (Inl e, d2) \<Rightarrow> (Inl e, d2)
             | (Inr tmp, d2) \<Rightarrow>
           (case io_Copy tmp data d2 of
               (Inl e, d3) \<Rightarrow> (Inl e, snd (os_Remove tmp d3))
             | (Inr _, d3) \<Rightarrow>
           (case os_Close d3 of
               (Inl e, d4) \<Rightarrow> (Inl e, snd (os_Remove tmp d4))
             | (Inr _, d4) \<Rightarrow>
           (case os_Rename tmp fullPath d4 of
               (Inl e, d5) \<Rightarrow> (Inl e, snd (os_Remove tmp d5))
             | (Inr _, d5) \<Rightarrow> (Inr (ls_GetURL url key), d5)))))))"

definition ls_Get :: "string \<Rightarrow> string \<Rightarrow> disk \<Rightarrow> string res \<times> disk" where
  "ls_Get base key d =
     (case ls_resolve base key of Inl e \<Rightarrow> (Inl e, d) | Inr fullPath \<Rightarrow> os_Open fullPath d)"

definition ls_DeleteFolder :: "string \<Rightarrow> string \<Rightarrow> disk \<Rightarrow> unit res \<times> disk" where
  "ls_DeleteFolder base key d =
     (case ls_resolve base key of Inl e \<Rightarrow> (Inl e, d) | Inr fullPath \<Rightarrow> os_RemoveAll fullPath d)"

definition ls_List :: "string \<Rightarrow> string \<Rightarrow> disk \<Rightarrow> string list res \<times> disk" where
  "ls_List base pre d =
     (case ls_resolve base pre of
        Inl e \<Rightarrow> (Inl e, d)
      | Inr fullPath \<Rightarrow>
         (case os_ReadDir fullPath d of
            (Inl e, d1) \<Rightarrow> (if e = ErrNotExist then (Inr [], d1) else (Inl e, d1))
          | (Inr entries, d1) \<Rightarrow>
              (Inr (map (\<lambda>en. ensureTrailingSlash pre @ fst en) (filter (\<lambda>en. \<not> snd en) entries)), d1)))"

definition ls_StreamExists :: "string \<Rightarrow> string \<Rightarrow> disk \<Rightarrow> bool res \<times> disk" where
  "ls_StreamExists base key d =
     (case ls_resolve base key of
        Inl e \<Rightarrow> (Inl e, d)
      | Inr fullPath \<Rightarrow>
         (case os_Stat fullPath d of
            (Inr _, d1) \<Rightarrow> (Inr True, d1)
          | (Inl e, d1) \<Rightarrow> (if e = ErrNotExist then (Inr False, d1) else (Inl e, d1))))"

definition NewLocalStorage :: "string \<Rightarrow> disk \<Rightarrow> unit res \<times> disk" where
  "NewLocalStorage baseDir d = os_MkdirAll baseDir d"

definition on_disk :: "(disk \<Rightarrow> 'a \<times> disk) \<Rightarrow> 'b stores \<Rightarrow> 'a \<times> 'b stores" where
  "on_disk f s = (case f (disk s) of (r, d) \<Rightarrow> (r, s\<lparr>disk := d\<rparr>))"

definition LocalStorage :: "string \<Rightarrow> string \<Rightarrow> 'b stores storage" where
  "LocalStorage base url =
     \<lparr>st_Save = (\<lambda>k x. on_disk (ls_Save base url k x)),
      st_Get = (\<lambda>k. on_disk (ls_Get base k)),
      st_GetURL = ls_GetURL url,
      st_DeleteFolder = (\<lambda>k. on_disk (ls_DeleteFolder base k)),
      st_StreamExists = (\<lambda>k. on_disk (ls_StreamExists base k)),
      st_List = (\<lambda>k. on_disk (ls_List base k)),
      st_IsLocal = True\<rparr>"

section \<open>What a local store holds\<close>

definition base_ok :: "string \<Rightarrow> bool" where
  "base_ok base \<longleftrightarrow> good_comps (split_on CHR ''/'' base) \<or>
     (has_prefix base ''/'' \<and> good_comps (split_on CHR ''/'' (tl base)))"

definition local_obj :: "string \<Rightarrow> 'b stores \<Rightarrow> string \<Rightarrow> string option" where
  "local_obj base s k = look (disk s) (base @ CHR ''/'' # k)"

lemma base_okE:
  assumes "base_ok base"
  obtains r cs where "good_comps cs" "base = slash_path r cs"
proof (cases "good_comps (split_on CHR ''/'' base)")
  case True
  then show ?thesis using that [of "split_on CHR ''/'' base" False] by (simp add: slash_path_def)
next
  case False
  with assms have "has_prefix base ''/''" "good_comps (split_on CHR ''/'' (tl base))"
    by (simp_all add: base_ok_def)
  then show ?thesis
    using that [of "split_on CHR ''/'' (tl base)" True] by (auto simp: slash_path_def has_prefix_append)
qed

text \<open>A hidden path is one whose last component starts with a dot, as the temporary names do.\<close>

definition hidden :: "string \<Rightarrow> bool" where
  "hidden p \<longleftrightarrow> (\<exists>dir f. p = dir @ CHR ''/'' # CHR ''.'' # f \<and> CHR ''/'' \<notin> set f)"

lemma media_not_hidden:
  assumes "media_key k"
  shows "\<not> hidden (base @ CHR ''/'' # k)"
proof -
  obtain c s t f where k: "k = c @ CHR ''/'' # s @ CHR ''/'' # t @ CHR ''/'' # f" and f: "media_name f"
    using assms by (rule media_keyE)
  have f3: "hd f \<noteq> CHR ''.''" "f \<noteq> []" "CHR ''/'' \<notin> set f"
    using media_name_good [OF f] by (auto simp: good_comp_def)
  show "\<not> hidden (base @ CHR ''/'' # k)"
  proof
    assume "hidden (base @ CHR ''/'' # k)"
    then obtain dir g where g: "base @ CHR ''/'' # k = dir @ CHR ''/'' # CHR ''.'' # g" "CHR ''/'' \<notin> set g"
      by (auto simp: hidden_def)
    then have "(base @ CHR ''/'' # c @ CHR ''/'' # s @ CHR ''/'' # t) @ CHR ''/'' # f = dir @ CHR ''/'' # (CHR ''.'' # g)"
      by (simp add: k)
    then have "f = CHR ''.'' # g"
      by (subst (asm) append_sep_last_inject) (use f3(3) g(2) in auto)
    with f3(1) show False by simp
  qed
qed

lemma resolve_good:
  assumes "good_comps cs" "good_comps ds" "\<not> str_contains (join_slash ds) ''..''"
  shows "ls_resolve (slash_path r cs) (join_slash ds) = Inr (slash_path r cs @ CHR ''/'' # join_slash ds)"
  using assms path_join_good(1) [OF assms(1,2), of r] path_clean_good [OF assms(1), of r]
  by (simp add: ls_resolve_def Let_def has_prefix_append)

lemma resolve_media:
  assumes "base_ok base" "media_key k"
  shows "ls_resolve base k = Inr (base @ CHR ''/'' # k)"
proof -
  obtain r cs where b: "good_comps cs" "base = slash_path r cs" using assms(1) by (rule base_okE)
  show ?thesis using resolve_good [OF b(1) media_key_good(1) [OF assms(2)], of r] media_key_good(2) [OF assms(2)]
    by (simp add: b)
qed

lemma no_dot_no_dotdot: "CHR ''.'' \<notin> set k \<Longrightarrow> \<not> str_contains k ''..''"
  by (rule no_dotdot) (simp add: count_notin)

lemma resolve_prefix:
  assumes "base_ok base" "media_prefix p"
  shows "ls_resolve base p = Inr (base @ CHR ''/'' # butlast p)" and "p = butlast p @ ''/''"
proof -
  obtain r cs where b: "good_comps cs" "base = slash_path r cs" using assms(1) by (rule base_okE)
  obtain ds where p: "p = join_slash ds @ ''/''" "ds \<noteq> []" "list_all isValidID ds"
    using assms(2) by (rule media_prefixE)
  have g: "good_comps ds" using p valid_ids_good by blast
  have "CHR ''.'' \<notin> set p" using join_no_dot [OF p(3)] p(1) by simp
  then have "\<not> str_contains p ''..''" by (rule no_dot_no_dotdot)
  then show "ls_resolve base p = Inr (base @ CHR ''/'' # butlast p)"
    using path_join_good(2) [OF b(1) g, of r] path_clean_good [OF b(1), of r]
    by (simp add: ls_resolve_def Let_def has_prefix_append b p(1))
  show "p = butlast p @ ''/''" using p(1) by simp
qed

lemma media_dir_base:
  assumes "base_ok base" "media_key k"
  obtains dir f where "base @ CHR ''/'' # k = dir @ CHR ''/'' # f" "path_dir (base @ CHR ''/'' # k) = dir"
    "path_base (base @ CHR ''/'' # k) = f" "CHR ''/'' \<notin> set f"
proof -
  obtain r cs where b: "good_comps cs" "base = slash_path r cs" using assms(1) by (rule base_okE)
  obtain c s t f where k: "k = c @ CHR ''/'' # s @ CHR ''/'' # t @ CHR ''/'' # f"
    "isValidID c" "isValidID s" "isValidID t" "media_name f" "split_on CHR ''/'' k = [c, s, t, f]"
    using assms(2) by (rule media_keyE)
  have f: "good_comp f" using media_name_good [OF k(5)] by simp
  then have nf: "CHR ''/'' \<notin> set f" by (simp add: good_comp_def)
  let ?dir = "base @ CHR ''/'' # c @ CHR ''/'' # s @ CHR ''/'' # t"
  have "good_comps [c, s, t]" using k by (intro valid_ids_good) auto
  then have g: "good_comps (cs @ [c, s, t])" using b(1) by simp
  have "?dir = slash_path r (cs @ [c, s, t])"
    using slash_path_append [OF b(1) \<open>good_comps [c, s, t]\<close>, of r] b(2) by simp
  then have "path_dir (?dir @ CHR ''/'' # f) = ?dir" using path_dir_good [OF g nf, of r] by simp
  moreover have "path_base (?dir @ CHR ''/'' # f) = f" using path_base_good [OF f, of ?dir] .
  ultimately show ?thesis using that [of ?dir f] nf k(1) by simp
qed

lemma nat_digits_no_slash: "CHR ''/'' \<notin> set (nat_digits n)"
proof
  assume "CHR ''/'' \<in> set (nat_digits n)"
  then have "digit_of CHR ''/'' \<noteq> None" by (rule nat_digits_digit)
  then show False by (simp add: digit_of_def)
qed

lemma hidden_temp: "CHR ''/'' \<notin> set f \<Longrightarrow> hidden (temp_name dir (''.'' @ f @ ''.tmp'') n)"
  unfolding hidden_def temp_name_def
  by (intro exI [of _ dir] exI [of _ "f @ ''.tmp'' @ nat_digits n"]) (simp add: nat_digits_no_slash)

text \<open>Outside hidden paths, \<^const>\<open>ls_Save\<close> writes exactly the object, or nothing.\<close>

lemma Save_effect:
  assumes sv: "ls_Save base url k x d = (r, d')" and ok: "disk_ok d" and b: "base_ok base" and k: "media_key k"
  shows "disk_ok d'" and "\<not> hidden p \<Longrightarrow>
     look d' p = (case r of Inr _ \<Rightarrow> ((look d)(base @ CHR ''/'' # k \<mapsto> x)) p | Inl _ \<Rightarrow> look d p)"
proof -
  let ?full = "base @ CHR ''/'' # k"
  obtain dir f where df: "?full = dir @ CHR ''/'' # f" "path_dir ?full = dir" "path_base ?full = f"
    "CHR ''/'' \<notin> set f" using b k by (rule media_dir_base)
  obtain r1 d1 where m: "os_MkdirAll dir d = (r1, d1)" by fastforce
  note M = MkdirAll_effect [OF m ok]
  obtain r2 d2 where ct: "os_CreateTemp dir (''.'' @ f @ ''.tmp'') d1 = (r2, d2)" by fastforce
  note C = CreateTemp_effect [OF ct M(2)]
  have ct: "os_CreateTemp dir (CHR ''.'' # f @ ''.tmp'') d1 = (r2, d2)" using ct by simp
  define tmp where "tmp = temp_name dir (''.'' @ f @ ''.tmp'') (serial d1)"
  have hid: "hidden tmp" using hidden_temp [OF df(4)] by (simp add: tmp_def)
  have ne: "\<not> hidden ?full" using k by (rule media_not_hidden)
  obtain r3 d3 where cp: "io_Copy tmp x d2 = (r3, d3)" by fastforce
  obtain r4 d4 where cl: "os_Close d3 = (r4, d4)" by fastforce
  obtain r5 d5 where rn: "os_Rename tmp ?full d4 = (r5, d5)" by fastforce
  show "disk_ok d'" and "\<not> hidden p \<Longrightarrow>
     look d' p = (case r of Inr _ \<Rightarrow> ((look d)(base @ CHR ''/'' # k \<mapsto> x)) p | Inl _ \<Rightarrow> look d p)"
  proof -
    have goal: "disk_ok d' \<and> (\<not> hidden p \<longrightarrow>
      look d' p = (case r of Inr _ \<Rightarrow> ((look d)(?full \<mapsto> x)) p | Inl _ \<Rightarrow> look d p))"
    proof (cases r1)
      case (Inl e)
      then have "r = Inl e" "d' = d1"
        using sv df(2) by (simp_all add: ls_Save_def resolve_media [OF b k] m Let_def)
      with M(1,2) show ?thesis by simp
    next
      case r1: (Inr u)
      show ?thesis
      proof (cases r2)
        case (Inl e)
        then have "r = Inl e" "d' = d2"
          using sv r1 df(2,3) by (simp_all add: ls_Save_def resolve_media [OF b k] m ct Let_def)
        with M C(2,3) Inl show ?thesis by simp
      next
        case (Inr t)
        then have r12: "r1 = Inr ()" "r2 = Inr tmp" using r1 C(1) [of t] by (simp_all add: tmp_def)
      have l2: "look d2 tmp = Some []" using C(2) r12 by simp
      note P = Copy_effect [OF cp C(3) l2]
      note L = Close_effect [OF cl]
      have ok4: "disk_ok d4" using L P(3) by simp
      note R = Rename_effect [OF rn ok4]
      have l2: "look d2 = (look d)(tmp \<mapsto> [])" using C(2) M(1) r12 by simp
      have sv': "ls_Save base url k x d =
        (case r3 of Inl e \<Rightarrow> (Inl e, snd (os_Remove tmp d3)) | Inr _ \<Rightarrow>
          (case r4 of Inl e \<Rightarrow> (Inl e, snd (os_Remove tmp d4)) | Inr _ \<Rightarrow>
            (case r5 of Inl e \<Rightarrow> (Inl e, snd (os_Remove tmp d5)) | Inr _ \<Rightarrow> (Inr (ls_GetURL url k), d5))))"
        using r12 df(2,3)
        by (cases r3; cases r4; cases r5; simp add: ls_Save_def resolve_media [OF b k] m ct cp cl rn Let_def)
      have rem: "disk_ok (snd (os_Remove tmp e)) \<and> (\<not> hidden p \<longrightarrow> look (snd (os_Remove tmp e)) p = look e p)"
        if "disk_ok e" for e
      proof -
        obtain rr e' where "os_Remove tmp e = (rr, e')" by fastforce
        with Remove_effect [OF this that] hid show ?thesis by auto
      qed
      have l4: "\<not> hidden p \<Longrightarrow> look d3 p = look d p" "\<not> hidden p \<Longrightarrow> look d4 p = look d p"
        using P(1) L l2 hid by auto
      show ?thesis
      proof (cases r3)
        case (Inl e)
        with sv sv' rem [OF P(3)] l4 show ?thesis by auto
      next
        case r3: (Inr u)
        show ?thesis
        proof (cases r4)
          case (Inl e)
          with sv sv' r3 rem [OF ok4] l4 show ?thesis by auto
        next
          case r4: (Inr u)
          show ?thesis
          proof (cases r5)
            case (Inl e)
            with sv sv' r3 r4 rem [OF R(3)] R(2) l4 show ?thesis by auto
          next
            case (Inr u)
            have "look d4 tmp = Some x" using P(2) r3 L l2 by simp
            then have "look d5 = (look d4)(tmp := None, ?full \<mapsto> x)" using R(1) Inr by auto
            with sv sv' r3 r4 Inr R(3) hid ne l4 show ?thesis by auto
          qed
        qed
      qed
      qed
    qed
    then show "disk_ok d'" and "\<not> hidden p \<Longrightarrow>
     look d' p = (case r of Inr _ \<Rightarrow> ((look d)(base @ CHR ''/'' # k \<mapsto> x)) p | Inl _ \<Rightarrow> look d p)" by auto
  qed
qed

section \<open>The local backend keeps the contract\<close>

lemma under_prefix:
  assumes "p = butlast p @ ''/''"
  shows "(base @ CHR ''/'' # k = base @ CHR ''/'' # butlast p \<or> under (base @ CHR ''/'' # butlast p) (base @ CHR ''/'' # k))
     \<longleftrightarrow> k = butlast p \<or> has_prefix k p"
proof -
  have "under (base @ CHR ''/'' # butlast p) (base @ CHR ''/'' # k) \<longleftrightarrow> has_prefix k (butlast p @ ''/'')"
    by (auto simp: under_def has_prefix_append)
  with assms show ?thesis by simp
qed

lemma media_key_not_dir: "media_prefix p \<Longrightarrow> media_key k \<Longrightarrow> k \<noteq> butlast p"
proof
  assume p: "media_prefix p" and k: "media_key k" and eq: "k = butlast p"
  obtain ds where ds: "p = join_slash ds @ ''/''" "ds \<noteq> []" "list_all isValidID ds"
    using p by (rule media_prefixE)
  then have "CHR ''.'' \<notin> set k" using eq join_no_dot [OF ds(3)] by simp
  moreover obtain c s t f where "k = c @ CHR ''/'' # s @ CHR ''/'' # t @ CHR ''/'' # f" "media_name f"
    using k by (rule media_keyE)
  ultimately show False by (auto elim: media_nameE)
qed

lemma DeleteFolder_effect:
  assumes del: "ls_DeleteFolder base p d = (r, d')" and ok: "disk_ok d" and b: "base_ok base" and p: "media_prefix p"
  shows "disk_ok d'" and "media_key k \<Longrightarrow> look d' (base @ CHR ''/'' # k) =
     (if r = Inr () \<and> has_prefix k p then None else look d (base @ CHR ''/'' # k))"
proof -
  note rp = resolve_prefix [OF b p]
  have ra: "os_RemoveAll (base @ CHR ''/'' # butlast p) d = (r, d')"
    using del by (simp add: ls_DeleteFolder_def rp(1))
  note R = RemoveAll_effect [OF ra ok]
  show "disk_ok d'" by (rule R(3))
  assume k: "media_key k"
  show "look d' (base @ CHR ''/'' # k) =
     (if r = Inr () \<and> has_prefix k p then None else look d (base @ CHR ''/'' # k))"
    using R(1,2) under_prefix [OF rp(2), of base k] media_key_not_dir [OF p k]
    by (cases "r = Inr ()") auto
qed

lemma below_missing:
  assumes "disk_ok d" "q \<notin> set (dirs d)" "q \<noteq> []" "under q x"
  shows "look d x = None"
  using assms by (auto simp: disk_ok_def tree_ok_def ancestors_iff subset_iff)

lemma file_entries:
  "set (map (\<lambda>en. p @ fst en) (filter (\<lambda>en. \<not> snd en)
      (sort_key fst (map (\<lambda>n. (n, False)) as @ map (\<lambda>n. (n, True)) bs)))) = (\<lambda>n. p @ n) ` set as"
  by (auto simp: image_iff)

lemma dir_children:
  assumes b: "base_ok base" and p: "media_prefix p" and ok: "disk_ok d"
    and rd: "ls_List base p d = (Inr ks, d')"
  shows "(\<forall>k \<in> set ks. media_key k \<longrightarrow> has_prefix k p \<and> look d (base @ CHR ''/'' # k) \<noteq> None) \<and>
     (\<forall>f. CHR ''/'' \<notin> set f \<longrightarrow> look d (base @ CHR ''/'' # p @ f) \<noteq> None \<longrightarrow> p @ f \<in> set ks)"
proof -
  note rp = resolve_prefix [OF b p]
  let ?q = "base @ CHR ''/'' # butlast p"
  have qp: "base @ CHR ''/'' # butlast p @ CHR ''/'' # f = base @ CHR ''/'' # p @ f" for f
    by (subst (2) rp(2)) simp
  have ets: "ensureTrailingSlash p = p"
    using rp(2) by (metis ensureTrailingSlash_def has_suffix_self)
  have lookdom: "look d x \<noteq> None \<longleftrightarrow> x \<in> set (map fst (files d))" for x
    by (simp add: look_def map_of_eq_None_iff)
  obtain t d0 where t: "os_tick d = (t, d0)" by fastforce
  note fr = os_tick_frame [OF t]
  show ?thesis
  proof (cases "?q \<in> set (dirs d)")
    case True
    let ?E = "map (\<lambda>n. (n, False)) (children ?q (map fst (files d))) @ map (\<lambda>n. (n, True)) (children ?q (dirs d))"
    have "ks = map (\<lambda>en. p @ fst en) (filter (\<lambda>en. \<not> snd en) (sort_key fst ?E))"
      using rd fr True os_tick_error [of d] by (auto simp: ls_List_def rp(1) os_ReadDir_def t ets
          split: option.splits if_splits prod.splits)
    then have "set ks = (\<lambda>n. p @ n) ` set (children ?q (map fst (files d)))"
      by (simp only: file_entries)
    then have ks: "k \<in> set ks \<longleftrightarrow> (\<exists>n. k = p @ n \<and> CHR ''/'' \<notin> set n \<and> look d (base @ CHR ''/'' # p @ n) \<noteq> None)" for k
      unfolding lookdom by (auto simp: children_iff qp simp del: set_map)
    show ?thesis by (auto simp: ks has_prefix_append)
  next
    case False
    then have "look d ?q = None" "ks = []"
      using rd fr os_tick_error [of d]
      by (auto simp: ls_List_def rp(1) os_ReadDir_def t split: option.splits if_splits prod.splits)
    moreover have "under ?q (base @ CHR ''/'' # p @ f)" for f
      by (auto simp: under_def has_prefix_append simp flip: qp)
    then have "look d (base @ CHR ''/'' # p @ f) = None" for f
      by (intro below_missing [OF ok False]) auto
    ultimately show ?thesis by simp
  qed
qed

lemma List_frame: "ls_List base p d = (r, d') \<Longrightarrow> look d' = look d \<and> (disk_ok d \<longrightarrow> disk_ok d')"
  by (auto simp: ls_List_def os_ReadDir_def tick_ok dest!: os_tick_frame
      split: sum.splits prod.splits option.splits if_splits)

lemma StreamExists_effect:
  assumes "ls_StreamExists base p d = (r, d')" "disk_ok d" "base_ok base" "media_prefix p"
  shows "look d' = look d" "disk_ok d'"
    and "r = Inr False \<Longrightarrow> has_prefix k p \<Longrightarrow> look d (base @ CHR ''/'' # k) = None"
proof -
  note rp = resolve_prefix [OF assms(3,4)]
  let ?q = "base @ CHR ''/'' # butlast p"
  obtain t d0 where t: "os_tick d = (t, d0)" by fastforce
  note fr = os_tick_frame [OF t]
  show "look d' = look d" "disk_ok d'"
    using assms(1,2) fr iffD2 [OF tick_ok [OF t] assms(2)]
    by (auto simp: ls_StreamExists_def rp(1) os_Stat_def t split: option.splits if_splits prod.splits)
  assume r: "r = Inr False" and k: "has_prefix k p"
  then have "?q \<notin> set (dirs d)"
    using assms(1) fr os_tick_error [of d] by (auto simp: ls_StreamExists_def rp(1) os_Stat_def t
        split: option.splits if_splits prod.splits)
  moreover have "under ?q (base @ CHR ''/'' # k)"
    using k by (subst (asm) rp(2)) (auto simp: under_def has_prefix_append)
  ultimately show "look d (base @ CHR ''/'' # k) = None"
    using below_missing [OF assms(2), of ?q] by simp
qed

text \<open>The state invariant: a usable base directory and a well-formed directory tree.\<close>

definition local_ok :: "string \<Rightarrow> 'b stores \<Rightarrow> bool" where
  "local_ok base s \<longleftrightarrow> base_ok base \<and> disk_ok (disk s)"

lemma local_Save_effect:
  assumes lo: "local_ok base s" and k: "media_key k" and sv: "st_Save (LocalStorage base url) k x s = (r, s')"
  shows "local_ok base s'"
    and "media_key j \<Longrightarrow>
      local_obj base s' j = (case r of Inr _ \<Rightarrow> ((local_obj base s)(k \<mapsto> x)) j | Inl _ \<Rightarrow> local_obj base s j)"
proof -
  have b: "base_ok base" and ok: "disk_ok (disk s)" using lo by (simp_all add: local_ok_def)
  from sv obtain d' where d': "ls_Save base url k x (disk s) = (r, d')" "s' = s\<lparr>disk := d'\<rparr>"
    by (auto simp: LocalStorage_def on_disk_def split: prod.splits)
  note E = Save_effect [OF d'(1) ok b k]
  show "local_ok base s'" using E(1) d'(2) b by (simp add: local_ok_def)
  show "local_obj base s' j = (case r of Inr _ \<Rightarrow> ((local_obj base s)(k \<mapsto> x)) j | Inl _ \<Rightarrow> local_obj base s j)"
    if "media_key j" for j
    using E(2) [OF media_not_hidden [OF that, of base]] by (auto simp: local_obj_def d'(2) split: sum.splits)
qed

interpretation local_store: atomic_store "LocalStorage base url" "local_obj base" "local_ok base"
  for base url
proof
  fix s :: "'b stores" and k x r s'
  assume lo: "local_ok base s" and k: "media_key k" and sv: "st_Save (LocalStorage base url) k x s = (r, s')"
  from local_Save_effect [OF this]
  show "local_ok base s' \<and> (\<forall>j. media_key j \<longrightarrow> j \<noteq> k \<longrightarrow> local_obj base s' j = local_obj base s j) \<and>
      local_obj base s' k \<in> {local_obj base s k, Some x} \<and> (\<forall>u. r = Inr u \<longrightarrow> local_obj base s' k = Some x)"
    using k by (auto split: sum.splits)
next
  fix s :: "'b stores" and k x e s' j
  assume "local_ok base s" "media_key k" "st_Save (LocalStorage base url) k x s = (Inl e, s')" "media_key j"
  then show "local_obj base s' j = local_obj base s j" using local_Save_effect(2) by fastforce
next
  fix s :: "'b stores" and k r s'
  assume lo: "local_ok base s" and k: "media_key k" and g: "st_Get (LocalStorage base url) k s = (r, s')"
  have b: "base_ok base" and ok: "disk_ok (disk s)" using lo by (simp_all add: local_ok_def)
  from g obtain d' where d': "os_Open (base @ CHR ''/'' # k) (disk s) = (r, d')" "s' = s\<lparr>disk := d'\<rparr>"
    by (auto simp: LocalStorage_def on_disk_def ls_Get_def resolve_media [OF b k] split: prod.splits)
  from Open_effect [OF d'(1)] ok d'(2)
  show "local_ok base s' \<and> local_obj base s' = local_obj base s \<and> (\<forall>x. r = Inr x \<longrightarrow> local_obj base s k = Some x)"
    using b by (auto simp: local_ok_def local_obj_def fun_eq_iff)
next
  fix s :: "'b stores" and p r s'
  assume lo: "local_ok base s" and p: "media_prefix p" and g: "st_DeleteFolder (LocalStorage base url) p s = (r, s')"
  have b: "base_ok base" and ok: "disk_ok (disk s)" using lo by (simp_all add: local_ok_def)
  from g obtain d' where d': "ls_DeleteFolder base p (disk s) = (r, d')" "s' = s\<lparr>disk := d'\<rparr>"
    by (auto simp: LocalStorage_def on_disk_def split: prod.splits)
  from DeleteFolder_effect [OF d'(1) ok b p] d'(2)
  show "local_ok base s' \<and> (\<forall>j. media_key j \<longrightarrow> \<not> has_prefix j p \<longrightarrow> local_obj base s' j = local_obj base s j) \<and>
      (\<forall>j. media_key j \<longrightarrow> local_obj base s' j = None \<or> local_obj base s' j = local_obj base s j) \<and>
      (r = Inr () \<longrightarrow> (\<forall>j. media_key j \<longrightarrow> has_prefix j p \<longrightarrow> local_obj base s' j = None))"
    using b by (auto simp: local_ok_def local_obj_def)
next
  fix s :: "'b stores" and p r s'
  assume lo: "local_ok base s" and p: "media_prefix p" and g: "st_StreamExists (LocalStorage base url) p s = (r, s')"
  have b: "base_ok base" and ok: "disk_ok (disk s)" using lo by (simp_all add: local_ok_def)
  from g obtain d' where d': "ls_StreamExists base p (disk s) = (r, d')" "s' = s\<lparr>disk := d'\<rparr>"
    by (auto simp: LocalStorage_def on_disk_def split: prod.splits)
  from StreamExists_effect [OF d'(1) ok b p] d'(2)
  show "local_ok base s' \<and> local_obj base s' = local_obj base s \<and>
      (r = Inr False \<longrightarrow> (\<forall>j. media_key j \<longrightarrow> has_prefix j p \<longrightarrow> local_obj base s j = None))"
    using b by (auto simp: local_ok_def local_obj_def fun_eq_iff)
next
  fix s :: "'b stores" and p r s'
  assume lo: "local_ok base s" and p: "media_prefix p" and g: "st_List (LocalStorage base url) p s = (r, s')"
  have b: "base_ok base" and ok: "disk_ok (disk s)" using lo by (simp_all add: local_ok_def)
  from g obtain d' where d': "ls_List base p (disk s) = (r, d')" "s' = s\<lparr>disk := d'\<rparr>"
    by (auto simp: LocalStorage_def on_disk_def split: prod.splits)
  from List_frame [OF d'(1)] ok d' dir_children [OF b p ok, of _ d']
  show "local_ok base s' \<and> local_obj base s' = local_obj base s \<and>
      (\<forall>ks. r = Inr ks \<longrightarrow> (\<forall>k \<in> set ks. media_key k \<longrightarrow> has_prefix k p \<and> local_obj base s k \<noteq> None) \<and>
        (\<forall>f. media_key (p @ f) \<longrightarrow> CHR ''/'' \<notin> set f \<longrightarrow> local_obj base s (p @ f) \<noteq> None \<longrightarrow> p @ f \<in> set ks))"
    using b by (auto simp: local_ok_def local_obj_def fun_eq_iff)
qed

lemma get_without_faults:
  assumes "local_ok base s" "media_key j" "os_faults (disk s) = []"
  shows "fst (st_Get (LocalStorage base url) j s) = (case local_obj base s j of None \<Rightarrow> Inl ErrNotExist | Some y \<Rightarrow> Inr y)"
  using assms resolve_media [of base j]
  by (auto simp: LocalStorage_def on_disk_def ls_Get_def os_Open_def os_tick_def local_obj_def local_ok_def
      split: option.splits)

section \<open>Properties\<close>

text \<open>
  C19. Saving is atomic and exact, whatever system call fails: after a \<^verbatim>\<open>Save\<close> of a media key that
  reports success the store holds exactly the saved bytes under that key; after a failed one it holds
  under that key what it held before, be it the old object or none; in both cases no other media object
  is changed, lost or made. A \<^verbatim>\<open>Get\<close> that meets no fault reads this back.
\<close>

theorem local_save_atomic:
  assumes "local_ok base s" "media_key k" "media_key j"
    and "st_Save (LocalStorage base url) k x s = (r, s1)"
  shows "local_ok base s1 \<and>
    local_obj base s1 j = (if (\<exists>u. r = Inr u) \<and> j = k then Some x else local_obj base s j) \<and>
    (os_faults (disk s1) = [] \<longrightarrow> fst (st_Get (LocalStorage base url) j s1) =
       (if (\<exists>u. r = Inr u) \<and> j = k then Inr x
        else case local_obj base s j of None \<Rightarrow> Inl ErrNotExist | Some y \<Rightarrow> Inr y))"
proof -
  have sv: "local_ok base s1" "local_obj base s1 j = (if (\<exists>u. r = Inr u) \<and> j = k then Some x else local_obj base s j)"
    using local_store.save [OF assms(1,2,4)] local_store.save_obj [OF assms(1,2,4,3)] by (auto split: sum.splits)
  have "fst (st_Get (LocalStorage base url) j s1) = (case local_obj base s1 j of None \<Rightarrow> Inl ErrNotExist | Some y \<Rightarrow> Inr y)"
    if "os_faults (disk s1) = []"
    using get_without_faults [OF sv(1) assms(3) that] .
  with sv show ?thesis by auto
qed

text \<open>
  C20. Deleting a stream's folder removes exactly that stream's media: every object of the stream is
  gone, every object of another stream or channel is untouched.
\<close>

theorem local_delete_exact:
  assumes "local_ok base s" "isValidID c" "isValidID sid"
    and "st_DeleteFolder (LocalStorage base url) (StreamPrefix c sid) s = (Inr (), s')"
    and "isValidID c'" "isValidID sid'" "isValidID f" "kind_ok k"
  shows "local_obj base s' (key_of k c' sid' f) =
    (if (c', sid') = (c, sid) then None else local_obj base s (key_of k c' sid' f))"
proof (cases "(c', sid') = (c, sid)")
  case True
  with local_store.delete_stream_all [OF assms(1-4,7,8)] show ?thesis by simp
next
  case False
  with local_store.delete_stream_only [OF assms(1-8)] show ?thesis by auto
qed

text \<open>An empty disk with the base directory, and a store with one object in each of two streams.\<close>

definition empty_store :: "unit stores" where
  "empty_store = \<lparr>disk = \<lparr>files = [], dirs = [''tmp''], os_faults = [], serial = 0\<rparr>, bucket = ()\<rparr>"

definition two_streams :: "unit stores" where
  "two_streams = snd (st_Save (LocalStorage ''tmp'' []) (RawKey ''ch'' ''s2'' ''f'') ''two''
     (snd (st_Save (LocalStorage ''tmp'' []) (RawKey ''ch'' ''s1'' ''f'') ''one'' empty_store)))"

lemma two_streams_ok: "local_ok ''tmp'' two_streams" and two_streams_objects:
  "local_obj ''tmp'' two_streams (RawKey ''ch'' ''s1'' ''f'') = Some ''one''"
  "local_obj ''tmp'' two_streams (RawKey ''ch'' ''s2'' ''f'') = Some ''two''"
  by code_simp+

text \<open>A save over an object whose rename fails: the old bytes stay.\<close>

definition failing_rename :: "unit stores" where
  "failing_rename = two_streams\<lparr>disk := (disk two_streams)\<lparr>os_faults := [None, None, None, None, Some (''EIO'', 0)]\<rparr>\<rparr>"

theorem local_save_atomic_witness:
  "fst (st_Get (LocalStorage ''tmp'' []) (RawKey ''ch'' ''s1'' ''f'')
     (snd (st_Save (LocalStorage ''tmp'' []) (RawKey ''ch'' ''s1'' ''f'') ''new'' two_streams))) = Inr ''new'' \<and>
   fst (st_Get (LocalStorage ''tmp'' []) (RawKey ''ch'' ''s1'' ''f'')
     (snd (st_Save (LocalStorage ''tmp'' []) (RawKey ''ch'' ''s1'' ''f'') ''new'' failing_rename))) = Inr ''one''"
proof -
  let ?k = "RawKey ''ch'' ''s1'' ''f''"
  let ?sv = "\<lambda>s. st_Save (LocalStorage ''tmp'' []) ?k ''new'' s"
  have k: "media_key ?k" and ok: "local_ok ''tmp'' failing_rename" by code_simp+
  have sv: "?sv two_streams = (Inr ?k, snd (?sv two_streams))"
    and fl: "?sv failing_rename = (Inl (ErrOther ''EIO''), snd (?sv failing_rename))" by code_simp+
  have f: "os_faults (disk (snd (?sv two_streams))) = []" "os_faults (disk (snd (?sv failing_rename))) = []"
    "local_obj ''tmp'' failing_rename ?k = Some ''one''" by code_simp+
  show ?thesis
    using local_save_atomic [OF two_streams_ok k k sv] local_save_atomic [OF ok k k fl] f by simp
qed

theorem local_delete_exact_witness:
  "local_obj ''tmp'' (snd (st_DeleteFolder (LocalStorage ''tmp'' []) (StreamPrefix ''ch'' ''s1'') two_streams))
     (key_of Raw ''ch'' ''s1'' ''f'') = None \<and>
   local_obj ''tmp'' (snd (st_DeleteFolder (LocalStorage ''tmp'' []) (StreamPrefix ''ch'' ''s1'') two_streams))
     (key_of Raw ''ch'' ''s2'' ''f'') = Some ''two''"
proof -
  let ?d = "st_DeleteFolder (LocalStorage ''tmp'' []) (StreamPrefix ''ch'' ''s1'') two_streams"
  have v: "isValidID ''ch''" "isValidID ''s1''" "isValidID ''s2''" "isValidID ''f''" "kind_ok Raw" by code_simp+
  have d: "?d = (Inr (), snd ?d)" by code_simp
  have k: "key_of Raw ''ch'' ''s2'' ''f'' = RawKey ''ch'' ''s2'' ''f''" by (simp add: key_of_def)
  show ?thesis
    using local_delete_exact [OF two_streams_ok v(1,2) d v(1,2,4,5)]
      local_delete_exact [OF two_streams_ok v(1,2) d v(1,3,4,5)] two_streams_objects(2)
    by (simp add: k)
qed

end
