(* ===== verification/Webhook.thy ===== *)
theory Webhook
  imports GoStrings Keys
begin

text \<open>
  \<^verbatim>\<open>internal/discord/webhook.go\<close>: the webhook notifier. A notification is the payload handed to the
  sender goroutine together with the URL it goes to; the outbox lists them in order. Timestamps
  stay the instants they render (Unix seconds), and instants of the clock are microseconds.
  \<open>lower\<close> is \<^verbatim>\<open>strings.ToLower\<close>.
\<close>

section \<open>Configuration\<close>

record channel_config =
  cc_Name :: string
  cc_NumPastStreams :: int
  cc_AdminKey :: string
  cc_MembersName :: string
  cc_DisplayName :: string
  cc_TwitchLogin :: string

record bot_config =
  bot_Token :: string
  bot_ChannelIDs :: "string list"
  bot_ChannelMap :: "(string \<times> string) list"
  bot_StreamTTLMinutes :: int

record discord_config =
  dc_WebhookURL :: string
  dc_AdminWebhookURL :: string
  dc_NotifyUserID :: string
  dc_NotifyRoleID :: string
  dc_TranscriptBaseURL :: string
  dc_Bot :: bot_config

record presentation =
  displayName :: string
  twitchLogin :: string

record discord_client =
  WebhookURL :: string
  AdminWebhookURL :: string
  NotifyPing :: string
  ClientVersion :: string
  transcriptBaseURL :: string
  presentations :: "string \<Rightarrow> presentation option"

definition present :: "(string \<Rightarrow> string) \<Rightarrow> channel_config \<Rightarrow> presentation" where
  "present lower cc =
     (let dn = (if cc_DisplayName cc = [] then cc_Name cc else cc_DisplayName cc)
      in \<lparr>displayName = dn,
          twitchLogin = (if cc_TwitchLogin cc = [] then lower dn else cc_TwitchLogin cc)\<rparr>)"

definition NewClient ::
  "(string \<Rightarrow> string) \<Rightarrow> discord_config \<Rightarrow> string \<Rightarrow> channel_config list \<Rightarrow> discord_client" where
  "NewClient lower cfg version channels =
     \<lparr>WebhookURL = dc_WebhookURL cfg,
      AdminWebhookURL = (if dc_AdminWebhookURL cfg = [] then dc_WebhookURL cfg else dc_AdminWebhookURL cfg),
      NotifyPing = (if dc_NotifyUserID cfg \<noteq> [] then ''<@'' @ dc_NotifyUserID cfg @ ''>''
                    else if dc_NotifyRoleID cfg \<noteq> [] then ''<@&'' @ dc_NotifyRoleID cfg @ ''>''
                    else []),
      ClientVersion = version,
      transcriptBaseURL = dc_TranscriptBaseURL cfg,
      presentations = fold (\<lambda>cc m. m(cc_Name cc \<mapsto> present lower cc)) channels (\<lambda>_. None)\<rparr>"

section \<open>Payloads\<close>

record admin_field =
  f_Name :: string
  f_Value :: string
  f_Inline :: bool

record embed =
  e_title :: string
  e_description :: string
  e_url :: "string option"
  e_color :: int
  e_image :: "string option"
  e_fields :: "admin_field list"
  e_timestamp :: int
  e_footer :: string

record post =
  post_url :: string
  post_content :: "string option"
  post_embed :: embed

record discord_state =
  outbox :: "post list"
  last500 :: "int option" \<comment> \<open>\<^const>\<open>None\<close>: the zero time\<close>

definition sendTo :: "string \<Rightarrow> string option \<Rightarrow> embed \<Rightarrow> discord_state \<Rightarrow> discord_state" where
  "sendTo url content e s =
     (if url = [] then s
      else s\<lparr>outbox := outbox s @ [\<lparr>post_url = url, post_content = content, post_embed = e\<rparr>]\<rparr>)"

definition footer :: "discord_client \<Rightarrow> string" where
  "footer d = ''Version: '' @ ClientVersion d"

definition plain_embed :: "discord_client \<Rightarrow> string \<Rightarrow> string \<Rightarrow> int \<Rightarrow> int \<Rightarrow> embed" where
  "plain_embed d title desc color now =
     \<lparr>e_title = title, e_description = desc, e_url = None, e_color = color, e_image = None,
      e_fields = [], e_timestamp = now div 1000000, e_footer = footer d\<rparr>"

text \<open>\<^verbatim>\<open>Duration.String\<close> of a whole number of seconds, and \<^verbatim>\<open>Round(time.Second)\<close> of microseconds.\<close>

definition format_duration :: "int \<Rightarrow> string" where
  "format_duration s =
     (let a = \<bar>s\<bar>; h = a div 3600; m = (a mod 3600) div 60; sec = a mod 60
      in (if s < 0 then ''-'' else []) @
         (if 0 < h then format_int h @ ''h'' @ format_int m @ ''m'' @ format_int sec @ ''s''
          else if 0 < m then format_int m @ ''m'' @ format_int sec @ ''s''
          else format_int sec @ ''s''))"

definition round_seconds :: "int \<Rightarrow> int" where
  "round_seconds us = (if us < 0 then - ((- us + 500000) div 1000000) else (us + 500000) div 1000000)"

text \<open>\<^verbatim>\<open>time.Since\<close> saturates at the largest \<^verbatim>\<open>Duration\<close>, which \<^verbatim>\<open>Round\<close> leaves as it is.\<close>

definition time_ago :: "int \<Rightarrow> int \<Rightarrow> string" where
  "time_ago now lastSeen =
     (if 9223372036854775 < now - lastSeen * 1000000 then ''2562047h47m16.854775807s''
      else format_duration (round_seconds (now - lastSeen * 1000000)))"

section \<open>Notifications\<close>

text \<open>Stream identifiers are ASCII (\<^const>\<open>isValidID\<close>), where \<^verbatim>\<open>unicode.IsDigit\<close> is a digit test.\<close>

definition is_twitch :: "string \<Rightarrow> bool" where
  "is_twitch streamID \<longleftrightarrow> 0 < length streamID \<and> list_all (\<lambda>c. digit_of c \<noteq> None) streamID"

definition NotifyStreamStart ::
  "(string \<Rightarrow> string) \<Rightarrow> discord_client \<Rightarrow> int \<Rightarrow> string \<Rightarrow> string \<Rightarrow> string \<Rightarrow> string
     \<Rightarrow> discord_state \<Rightarrow> discord_state" where
  "NotifyStreamStart lower d now channelKey streamID streamTitle startTime s =
     (if WebhookURL d = [] then s
      else
       (let ts = (case parse_int startTime of Some t \<Rightarrow> t | None \<Rightarrow> now div 1000000);
            fullName = (case presentations d channelKey of Some p \<Rightarrow> displayName p | None \<Rightarrow> channelKey);
            login = (case presentations d channelKey of Some p \<Rightarrow> twitchLogin p | None \<Rightarrow> lower channelKey);
            link = (if is_twitch streamID then ''https://twitch.tv/'' @ login
                    else ''https://www.youtube.com/watch?v='' @ streamID);
            image = (if is_twitch streamID
                     then ''https://static-cdn.jtvnw.net/previews-ttv/live_user_'' @ login @ ''-1280x720.jpg''
                     else ''https://i.ytimg.com/vi/'' @ streamID @ ''/maxresdefault.jpg'');
            transcript = (if transcriptBaseURL d \<noteq> [] then transcriptBaseURL d @ ''/'' @ channelKey @ ''/''
                          else ''https://'' @ (if ClientVersion d = ''dev'' then ''dev.duck-automata.com''
                                               else ''www.duck-automata.com'')
                               @ ''/live-transcript/'' @ channelKey @ ''/'')
        in sendTo (WebhookURL d) None
             \<lparr>e_title = fullName @ [CHR 0x27] @ ''s Stream Started'',
              e_description = ''**'' @ streamTitle @ ''**'' @ [CHR 0x0A, CHR 0x0A] @ ''[Stream Link]('' @ link
                 @ '') | [Transcript]('' @ transcript @ '')'',
              e_url = Some link, e_color = 3066993, e_image = Some image, e_fields = [],
              e_timestamp = ts, e_footer = footer d\<rparr> s))"

definition NotifyWorkerOffline :: "discord_client \<Rightarrow> int \<Rightarrow> string \<Rightarrow> int \<Rightarrow> discord_state \<Rightarrow> discord_state" where
  "NotifyWorkerOffline d now channelKey lastSeen s =
     (if WebhookURL d = [] then s
      else sendTo (WebhookURL d) (Some (NotifyPing d))
        (plain_embed d ''Worker Offline Alert''
           (''Worker for channel **'' @ channelKey @ ''** has been inactive.'' @ [CHR 0x0A] @ ''Last seen: ''
              @ time_ago now lastSeen @ '' ago'') 15158332 now) s)"

definition NotifyDiscordBotOffline :: "discord_client \<Rightarrow> int \<Rightarrow> int \<Rightarrow> discord_state \<Rightarrow> discord_state" where
  "NotifyDiscordBotOffline d now lastSeen s =
     (if WebhookURL d = [] then s
      else sendTo (WebhookURL d) (Some (NotifyPing d))
        (plain_embed d ''Discord Bot Offline Alert''
           (''The Discord listener bot has stopped receiving gateway updates and may miss stream starts.''
              @ [CHR 0x0A] @ ''Last heartbeat: '' @ time_ago now lastSeen @ '' ago.'' @ [CHR 0x0A]
              @ ''Forcing a reconnect.'') 15158332 now) s)"

definition NotifyDiscordBotRecovered :: "discord_client \<Rightarrow> int \<Rightarrow> discord_state \<Rightarrow> discord_state" where
  "NotifyDiscordBotRecovered d now s =
     (if WebhookURL d = [] then s
      else sendTo (WebhookURL d) (Some (NotifyPing d))
        (plain_embed d ''Discord Bot Recovered''
           ''The Discord listener bot is receiving gateway updates again.'' 3066993 now) s)"

definition NotifyDiscordBotStartupError :: "discord_client \<Rightarrow> int \<Rightarrow> string \<Rightarrow> discord_state \<Rightarrow> discord_state" where
  "NotifyDiscordBotStartupError d now err s =
     (if WebhookURL d = [] then s
      else sendTo (WebhookURL d) (Some (NotifyPing d))
        (plain_embed d ''Discord Bot Failed to Start''
           (''The Discord listener bot could not connect to the gateway at startup and is not receiving stream announcements.''
              @ [CHR 0x0A] @ ''**Error:** '' @ err @ [CHR 0x0A] @ ''Retrying automatically.'') 15158332 now) s)"

subsection \<open>The admin audit\<close>

text \<open>
  \<^verbatim>\<open>[]rune(s)\<close> of valid UTF-8: a rune starts at every byte that is not a continuation byte.
\<close>

definition continuation :: "char \<Rightarrow> bool" where
  "continuation c \<longleftrightarrow> (let n = of_char c :: nat in 128 \<le> n \<and> n < 192)"

function runes :: "string \<Rightarrow> string list" where
  "runes [] = []"
| "runes (c # cs) = (c # takeWhile continuation cs) # runes (dropWhile continuation cs)"
  by pat_completeness auto

termination
  by (relation "measure length") (auto simp: le_imp_less_Suc length_dropWhile_le)

definition ellipsis :: string where "ellipsis = [CHR 0xE2, CHR 0x80, CHR 0xA6]"

definition em_dash :: string where "em_dash = [CHR 0xE2, CHR 0x80, CHR 0x94]"

definition truncate :: "string \<Rightarrow> nat \<Rightarrow> string" where
  "truncate s limit =
     (let rs = runes s in if length rs \<le> limit then s else concat (take (limit - 1) rs) @ ellipsis)"

definition maxEmbedFields :: nat where "maxEmbedFields = 25"
definition maxFieldNameLength :: nat where "maxFieldNameLength = 256"
definition maxFieldValueLen :: nat where "maxFieldValueLen = 1024"

definition add_field :: "admin_field \<Rightarrow> admin_field list \<Rightarrow> admin_field list" where
  "add_field f acc =
     (if length acc \<ge> maxEmbedFields then acc
      else acc @ [\<lparr>f_Name = truncate (f_Name f) maxFieldNameLength,
                   f_Value = truncate (if f_Value f = [] then em_dash else f_Value f) maxFieldValueLen,
                   f_Inline = f_Inline f\<rparr>])"

definition NotifyAdminAction ::
  "discord_client \<Rightarrow> int \<Rightarrow> string \<Rightarrow> string \<Rightarrow> admin_field list \<Rightarrow> discord_state \<Rightarrow> discord_state" where
  "NotifyAdminAction d now channelKey action details s =
     (if AdminWebhookURL d = [] then s
      else sendTo (AdminWebhookURL d) None
        (plain_embed d (''Admin: '' @ action) [] 5793266 now
           \<lparr>e_fields := fold add_field
              (\<lparr>f_Name = ''Channel Key'', f_Value = channelKey, f_Inline = True\<rparr> # details) []\<rparr>) s)"

subsection \<open>Throttled 500 alerts\<close>

definition notify500Throttle :: int where "notify500Throttle = 10 * 1000000"

definition Notify500Error ::
  "discord_client \<Rightarrow> int \<Rightarrow> string \<Rightarrow> string \<Rightarrow> discord_state \<Rightarrow> discord_state" where
  "Notify500Error d now err contextMsg s =
     (if WebhookURL d = [] then s
      else if (case last500 s of None \<Rightarrow> False | Some t \<Rightarrow> now - t < notify500Throttle) then s
      else sendTo (WebhookURL d) (Some (NotifyPing d))
        (plain_embed d ''500 Internal Server Error''
           (''**Context:** '' @ contextMsg @ [CHR 0x0A] @ ''**Error:** '' @ err) 16744448 now)
        (s\<lparr>last500 := Some now\<rparr>))"

section \<open>Properties\<close>

lemma runes_concat [simp]: "concat (runes s) = s"
  by (induction s rule: runes.induct) auto

lemma length_runes_append_le: "length (runes (s @ t)) \<le> length (runes s) + length (runes t)"
proof (induction s rule: runes.induct)
  case (2 c cs)
  show ?case
  proof (cases "dropWhile continuation cs = []")
    case True
    then have all: "\<forall>x \<in> set cs. continuation x" by (simp add: dropWhile_eq_Nil_conv)
    then have "dropWhile continuation (cs @ t) = dropWhile continuation t" by simp
    moreover have "length (runes (dropWhile continuation t)) \<le> length (runes t)"
    proof (cases t)
      case (Cons a as)
      then show ?thesis by (cases "continuation a") auto
    qed simp
    ultimately show ?thesis by simp
  next
    case False
    then have "\<not> (\<forall>x \<in> set cs. continuation x)" by (simp add: dropWhile_eq_Nil_conv)
    then obtain x where "x \<in> set cs" "\<not> continuation x" by blast
    then have "dropWhile continuation (cs @ t) = dropWhile continuation cs @ t"
      by (rule dropWhile_append1)
    with 2 show ?thesis by simp
  qed
qed simp

lemma length_runes_concat_take: "length (runes (concat (take n (runes s)))) \<le> n"
proof (induction s arbitrary: n rule: runes.induct)
  case (2 c cs)
  show ?case
  proof (cases n)
    case (Suc m)
    let ?r = "c # takeWhile continuation cs"
    have drop: "dropWhile continuation (takeWhile continuation cs) = []"
      by (auto simp: dropWhile_eq_Nil_conv dest: set_takeWhileD)
    have one: "length (runes ?r) = 1" by (simp only: runes.simps drop) simp
    have "length (runes (concat (take n (runes (c # cs)))))
        \<le> length (runes ?r) + length (runes (concat (take m (runes (dropWhile continuation cs)))))"
      using length_runes_append_le [of ?r] Suc by simp
    with 2 [of m] one Suc show ?thesis by simp
  qed simp
qed simp

lemma truncate_runes: "0 < limit \<Longrightarrow> length (runes (truncate s limit)) \<le> limit"
proof -
  assume m: "0 < limit"
  have e: "length (runes ellipsis) = 1" by (simp add: ellipsis_def continuation_def)
  show ?thesis
  proof (cases "length (runes s) \<le> limit")
    case False
    have "length (runes (concat (take (limit - 1) (runes s)) @ ellipsis)) \<le> (limit - 1) + 1"
      using length_runes_append_le [of "concat (take (limit - 1) (runes s))" ellipsis]
        length_runes_concat_take [of "limit - 1" s] e by linarith
    with False m show ?thesis by (simp add: truncate_def Let_def)
  qed (simp add: truncate_def)
qed

lemma truncate_nonempty: "s \<noteq> [] \<Longrightarrow> truncate s limit \<noteq> []"
  by (simp add: truncate_def Let_def ellipsis_def)

definition field_ok :: "admin_field \<Rightarrow> bool" where
  "field_ok f \<longleftrightarrow> length (runes (f_Name f)) \<le> 256 \<and> length (runes (f_Value f)) \<le> 1024 \<and> f_Value f \<noteq> []"

lemma add_field_ok:
  "length acc \<le> 25 \<and> list_all field_ok acc \<Longrightarrow> length (add_field f acc) \<le> 25 \<and> list_all field_ok (add_field f acc)"
  by (auto simp: add_field_def maxEmbedFields_def maxFieldNameLength_def maxFieldValueLen_def
      field_ok_def truncate_runes truncate_nonempty em_dash_def)

lemma fold_add_field_ok:
  "length acc \<le> 25 \<and> list_all field_ok acc \<Longrightarrow>
   length (fold add_field fs acc) \<le> 25 \<and> list_all field_ok (fold add_field fs acc)"
proof (induction fs arbitrary: acc)
  case (Cons f fs)
  from Cons.IH [OF add_field_ok [OF Cons.prems]] show ?case by simp
qed simp

text \<open>
  An admin audit record is always acceptable to Discord: whatever the handler passes, the
  embed has at most 25 fields, every name has at most 256 characters and every value between 1 and
  1024, and the post goes to the admin webhook and pings nobody.
\<close>

theorem admin_audit_within_limits:
  assumes "AdminWebhookURL d \<noteq> []"
  shows "\<exists>p. outbox (NotifyAdminAction d now ch action details s) = outbox s @ [p] \<and>
     post_url p = AdminWebhookURL d \<and> post_content p = None \<and>
     length (e_fields (post_embed p)) \<le> 25 \<and> list_all field_ok (e_fields (post_embed p))"
  using assms fold_add_field_ok [of "[]" "\<lparr>f_Name = ''Channel Key'', f_Value = ch, f_Inline = True\<rparr> # details"]
  by (simp add: NotifyAdminAction_def sendTo_def)

definition sample_client :: discord_client where
  "sample_client = \<lparr>WebhookURL = ''hook'', AdminWebhookURL = ''hook'', NotifyPing = [], ClientVersion = ''dev'',
     transcriptBaseURL = [], presentations = (\<lambda>_. None)\<rparr>"

theorem admin_audit_within_limits_witness:
  "length (e_fields (post_embed (last (outbox (NotifyAdminAction sample_client 0 ''ch'' ''x''
     (replicate 30 \<lparr>f_Name = ''n'', f_Value = [], f_Inline = False\<rparr>) \<lparr>outbox = [], last500 = None\<rparr>))))) \<le> 25"
proof -
  have "AdminWebhookURL sample_client \<noteq> []" by (simp add: sample_client_def)
  from admin_audit_within_limits [OF this, of 0 "''ch''" "''x''"
      "replicate 30 \<lparr>f_Name = ''n'', f_Value = [], f_Inline = False\<rparr>" "\<lparr>outbox = [], last500 = None\<rparr>"]
  show ?thesis by auto
qed

text \<open>The instants at which a sequence of 500 errors posts an alert.\<close>

fun alert_times :: "discord_client \<Rightarrow> (int \<times> string \<times> string) list \<Rightarrow> discord_state \<Rightarrow> int list" where
  "alert_times d [] s = []"
| "alert_times d ((now, err, ctxt) # es) s =
     (let s' = Notify500Error d now err ctxt s
      in (if outbox s' \<noteq> outbox s then [now] else []) @ alert_times d es s')"

lemma Notify500Error_cases:
  "Notify500Error d now err ctxt s = s \<or>
   (last500 (Notify500Error d now err ctxt s) = Some now \<and>
    outbox (Notify500Error d now err ctxt s) \<noteq> outbox s \<and>
    (\<forall>t. last500 s = Some t \<longrightarrow> t + notify500Throttle \<le> now))"
  by (auto simp: Notify500Error_def sendTo_def split: option.splits)

lemma alert_times_after:
  "last500 s = Some t \<Longrightarrow> x \<in> set (alert_times d es s) \<Longrightarrow> t + notify500Throttle \<le> x"
proof (induction d es s arbitrary: t rule: alert_times.induct)
  case (2 d now err ctxt es s)
  show ?case
  proof (cases "Notify500Error d now err ctxt s = s")
    case True
    with 2 show ?thesis by (simp add: Let_def)
  next
    case False
    then have n: "last500 (Notify500Error d now err ctxt s) = Some now" "t + notify500Throttle \<le> now"
      using Notify500Error_cases [of d now err ctxt s] "2.prems"(1) by auto
    show ?thesis
    proof (cases "x = now")
      case False
      with "2.prems"(2) have "x \<in> set (alert_times d es (Notify500Error d now err ctxt s))"
        by (auto simp: Let_def split: if_splits)
      from "2.IH" [OF refl n(1) this] n(2) show ?thesis by (simp add: notify500Throttle_def)
    qed (use n in simp)
  qed
qed simp

text \<open>
  The throttle: whatever sequence of 500 errors is reported at whatever instants, any two
  alerts that are posted are at least ten seconds apart.
\<close>

theorem alerts_ten_seconds_apart:
  "sorted_wrt (\<lambda>t u. t + 10 * 1000000 \<le> u) (alert_times d es s)"
proof (induction d es s rule: alert_times.induct)
  case (2 d now err ctxt es s)
  show ?case
  proof (cases "Notify500Error d now err ctxt s = s")
    case False
    then have "last500 (Notify500Error d now err ctxt s) = Some now"
      using Notify500Error_cases [of d now err ctxt s] by auto
    with 2 alert_times_after [OF this] show ?thesis by (simp add: Let_def notify500Throttle_def)
  qed (use 2 in \<open>simp add: Let_def\<close>)
qed simp

end
