(* ===== verification/Config.thy ===== *)
theory Config
  imports Webhook Storage
begin

text \<open>
  \<^verbatim>\<open>internal/config/config.go\<close> (the schema and \<^verbatim>\<open>Validate\<close>), the backend selection of
  \<^verbatim>\<open>internal/storage/storage.go\<close> and the archive client of \<^verbatim>\<open>internal/archive/archive.go\<close>. The archive
  server and the transport to it are an argument of the client's operations.
\<close>

section \<open>Configuration\<close>

record r2_config =
  r2_AccountId :: string
  r2_AccessKeyId :: string
  r2_SecretAccessKey :: string
  r2_Bucket :: string
  r2_PublicUrl :: string

record config =
  cfg_ApiKey :: string
  cfg_ArchiveURL :: string
  cfg_ArchiveKey :: string
  cfg_StorageType :: string
  cfg_R2 :: r2_config
  cfg_Channels :: "channel_config list"
  cfg_Discord :: discord_config

fun check_channels :: "string list \<Rightarrow> channel_config list \<Rightarrow> gerr option" where
  "check_channels seen_names [] = None"
| "check_channels seen_names (ch # chs) =
     (if cc_Name ch = [] then Some (ErrOther ''channels[].name must not be empty'')
      else if cc_Name ch \<in> set seen_names then Some (ErrOther (''duplicate channel name '' @ cc_Name ch))
      else check_channels (cc_Name ch # seen_names) chs)"

definition Validate :: "config \<Rightarrow> gerr option" where
  "Validate c =
     (if cfg_StorageType c \<in> {[], ''local'', ''r2''} then check_channels [] (cfg_Channels c)
      else Some (ErrOther (''storage.type must be local or r2, got '' @ cfg_StorageType c)))"

text \<open>Which constructor \<^verbatim>\<open>storage.New\<close> calls.\<close>

datatype backend = UseLocal | UseR2

definition storage_New :: "string \<Rightarrow> backend res" where
  "storage_New type =
     (if type = [] \<or> type = ''local'' then Inr UseLocal
      else if type = ''r2'' then Inr UseR2
      else Inl (ErrOther (''unknown storage type '' @ type)))"

lemma check_channels_iff:
  "check_channels seen_names chs = None \<longleftrightarrow>
     distinct (map cc_Name chs) \<and> [] \<notin> cc_Name ` set chs \<and> cc_Name ` set chs \<inter> set seen_names = {}"
  by (induction seen_names chs rule: check_channels.induct) auto

text \<open>
  A configuration that validates can be served: the channels have distinct non-empty names, so
  the table of channels keyed by name loses none of them, and the storage constructor accepts the
  storage type; conversely nothing else is rejected.
\<close>

theorem Validate_accepts_exactly:
  "Validate c = None \<longleftrightarrow>
     distinct (map cc_Name (cfg_Channels c)) \<and> [] \<notin> cc_Name ` set (cfg_Channels c) \<and>
     (\<exists>b. storage_New (cfg_StorageType c) = Inr b)"
  by (auto simp: Validate_def check_channels_iff storage_New_def)

section \<open>The archive client\<close>

record archive_client =
  ar_baseURL :: string
  ar_apiKey :: string

record key_response =
  kr_Key :: string
  kr_ExpiresAt :: string

definition trim_right_slashes :: "string \<Rightarrow> string" where
  "trim_right_slashes s = rev (dropWhile (\<lambda>c. c = CHR ''/'') (rev s))"

definition archive_NewClient :: "string \<Rightarrow> string \<Rightarrow> archive_client" where
  "archive_NewClient baseURL apiKey = \<lparr>ar_baseURL = trim_right_slashes baseURL, ar_apiKey = apiKey\<rparr>"

definition Configured :: "archive_client \<Rightarrow> bool" where
  "Configured c \<longleftrightarrow> ar_baseURL c \<noteq> [] \<and> ar_apiKey c \<noteq> []"

text \<open>
  The transport: method, URL and the value of the \<^verbatim>\<open>X-API-Key\<close> header to a status code and body,
  or an error. \<open>escape\<close> is \<^verbatim>\<open>url.PathEscape\<close>; the decoders are \<^verbatim>\<open>encoding/json\<close>.
\<close>

record transport =
  http_Do :: "string \<Rightarrow> string \<Rightarrow> string \<Rightarrow> (int \<times> string) res"
  PathEscape :: "string \<Rightarrow> string"
  json_keys :: "string \<Rightarrow> key_response list option res" \<comment> \<open>\<^const>\<open>None\<close>: a JSON null\<close>
  json_key :: "string \<Rightarrow> key_response res"

definition endpoint :: "transport \<Rightarrow> archive_client \<Rightarrow> string \<Rightarrow> string" where
  "endpoint t c membersName = ar_baseURL c @ ''/membership/'' @ PathEscape t membersName"

definition archive_request :: "transport \<Rightarrow> archive_client \<Rightarrow> string \<Rightarrow> string \<Rightarrow> string res" where
  "archive_request t c meth membersName =
     (case http_Do t meth (endpoint t c membersName) (ar_apiKey c) of
        Inl e \<Rightarrow> Inl (ErrOther (''call archive '' @ meth @ '' '' @ endpoint t c membersName @ '': '' @ err_text e))
      | Inr (code, body) \<Rightarrow>
          (if code < 200 \<or> code \<ge> 300
           then Inl (ErrOther (''archive '' @ meth @ '' '' @ endpoint t c membersName
                               @ '' returned status '' @ format_int code))
           else Inr body))"

definition ListKeys :: "transport \<Rightarrow> archive_client \<Rightarrow> string \<Rightarrow> key_response list res" where
  "ListKeys t c membersName =
     (case archive_request t c ''GET'' membersName of
        Inl e \<Rightarrow> Inl e
      | Inr body \<Rightarrow> (case json_keys t body of
          Inl e \<Rightarrow> Inl (ErrOther (''decode archive key list: '' @ err_text e))
        | Inr None \<Rightarrow> Inr []
        | Inr (Some ks) \<Rightarrow> Inr ks))"

definition CreateKey :: "transport \<Rightarrow> archive_client \<Rightarrow> string \<Rightarrow> key_response res" where
  "CreateKey t c membersName =
     (case archive_request t c ''POST'' membersName of
        Inl e \<Rightarrow> Inl e
      | Inr body \<Rightarrow> (case json_key t body of
          Inl e \<Rightarrow> Inl (ErrOther (''decode archive created key: '' @ err_text e)) | Inr k \<Rightarrow> Inr k))"

definition DeleteKeys :: "transport \<Rightarrow> archive_client \<Rightarrow> string \<Rightarrow> unit res" where
  "DeleteKeys t c membersName =
     (case archive_request t c ''DELETE'' membersName of Inl e \<Rightarrow> Inl e | Inr _ \<Rightarrow> Inr ())"

lemma trim_right_slashes_no_trailing: "\<not> has_suffix (trim_right_slashes s) ''/''"
proof
  assume "has_suffix (trim_right_slashes s) ''/''"
  then obtain p where p: "trim_right_slashes s = p @ ''/''" by (auto simp: has_suffix_append)
  then have "dropWhile (\<lambda>c. c = CHR ''/'') (rev s) = CHR ''/'' # rev p"
    by (simp add: trim_right_slashes_def rev_swap)
  then show False using hd_dropWhile [of "\<lambda>c. c = CHR ''/''" "rev s"] by simp
qed

text \<open>
  The archive never leaks: the error of a rejected request depends on the status code alone, so
  whatever the archive server puts in the body of a non-2xx answer is not passed on.
\<close>

theorem archive_error_hides_body:
  assumes "http_Do t meth (endpoint t c m) (ar_apiKey c) = Inr (code, body)"
    and "http_Do t' meth (endpoint t' c m) (ar_apiKey c) = Inr (code, body')"
    and "PathEscape t' = PathEscape t" and "code < 200 \<or> 300 \<le> code"
  shows "archive_request t c meth m = archive_request t' c meth m \<and>
    (\<exists>e. archive_request t c meth m = Inl e)"
  using assms by (simp add: archive_request_def endpoint_def)

definition sample_transport :: "string \<Rightarrow> transport" where
  "sample_transport body = \<lparr>http_Do = (\<lambda>_ _ _. Inr (500, body)), PathEscape = (\<lambda>s. s),
     json_keys = (\<lambda>_. Inr None), json_key = (\<lambda>_. Inl ErrDriver)\<rparr>"

theorem archive_error_hides_body_witness:
  "ListKeys (sample_transport ''secret'') (archive_NewClient ''http://a//'' ''k'') ''m'' =
   ListKeys (sample_transport ''other'') (archive_NewClient ''http://a//'' ''k'') ''m''"
proof -
  let ?c = "archive_NewClient ''http://a//'' ''k''"
  have "archive_request (sample_transport ''secret'') ?c ''GET'' ''m'' = archive_request (sample_transport ''other'') ?c ''GET'' ''m'' \<and>
    (\<exists>e. archive_request (sample_transport ''secret'') ?c ''GET'' ''m'' = Inl e)"
    by (rule archive_error_hides_body [where code = 500 and body = "''secret''" and body' = "''other''"])
      (simp_all add: sample_transport_def)
  then obtain e where "archive_request (sample_transport ''secret'') ?c ''GET'' ''m'' = Inl e"
    "archive_request (sample_transport ''other'') ?c ''GET'' ''m'' = Inl e" by metis
  then show ?thesis by (simp add: ListKeys_def)
qed

end
