(* ===== verification/VodRegistry.thy ===== *)
theory VodRegistry
  imports Keys
begin

text \<open>
  The build registry of \<^verbatim>\<open>internal/server/vod.go\<close>. A \<^verbatim>\<open>*vodJob\<close> is an address into a heap of
  statuses, as the build goroutine keeps writing to a job after the registry has dropped it. Every
  operation is one critical section of the registry's or the job's mutex.
\<close>

section \<open>State\<close>

datatype vod_state = VodNone | VodRunning | VodDone | VodFailed

datatype vod_phase = NoPhase | Merging | Encoding | Uploading

text \<open>The phases of a build are ordered as a build goes through them.\<close>

fun phase_rank :: "vod_phase \<Rightarrow> nat" where
  "phase_rank NoPhase = 0"
| "phase_rank Merging = 1"
| "phase_rank Encoding = 2"
| "phase_rank Uploading = 3"

lemma phase_rank_inject [simp]: "phase_rank p = phase_rank q \<longleftrightarrow> p = q"
  by (cases p; cases q) simp_all

instantiation vod_phase :: linorder
begin

definition less_eq_vod_phase :: "vod_phase \<Rightarrow> vod_phase \<Rightarrow> bool" where
  "less_eq_vod_phase p q \<longleftrightarrow> phase_rank p \<le> phase_rank q"

definition less_vod_phase :: "vod_phase \<Rightarrow> vod_phase \<Rightarrow> bool" where
  "less_vod_phase p q \<longleftrightarrow> phase_rank p < phase_rank q"

instance
  by intro_classes (auto simp: less_eq_vod_phase_def less_vod_phase_def)

end

record vod_status =
  vs_State :: vod_state
  vs_Phase :: vod_phase
  vs_Failure :: string
  vs_StartedAt :: int
  vs_FinishedAt :: int

record vod_registry =
  jobs :: "string \<Rightarrow> nat option"
  job_heap :: "nat \<Rightarrow> vod_status option"
  next_job :: nat

definition newVodRegistry :: vod_registry where
  "newVodRegistry = \<lparr>jobs = (\<lambda>_. None), job_heap = (\<lambda>_. None), next_job = 0\<rparr>"

section \<open>Operations\<close>

definition vodJobKey :: "string \<Rightarrow> string \<Rightarrow> string" where
  "vodJobKey channelKey streamID = channelKey @ ''/'' @ streamID"

definition vod_get :: "string \<Rightarrow> string \<Rightarrow> vod_registry \<Rightarrow> nat option" where
  "vod_get channelKey streamID r = jobs r (vodJobKey channelKey streamID)"

definition job_status :: "nat \<Rightarrow> vod_registry \<Rightarrow> vod_status option" where
  "job_status j r = job_heap r j"

definition is_running :: "nat \<Rightarrow> vod_registry \<Rightarrow> bool" where
  "is_running j r \<longleftrightarrow> (case job_status j r of None \<Rightarrow> False | Some s \<Rightarrow> vs_State s = VodRunning)"

definition new_job :: "int \<Rightarrow> vod_status" where
  "new_job now = \<lparr>vs_State = VodRunning, vs_Phase = Merging, vs_Failure = [], vs_StartedAt = now,
     vs_FinishedAt = 0\<rparr>"

definition vod_claim :: "string \<Rightarrow> string \<Rightarrow> int \<Rightarrow> vod_registry \<Rightarrow> (nat \<times> bool) \<times> vod_registry" where
  "vod_claim channelKey streamID now r =
     (let key = vodJobKey channelKey streamID;
          fresh = next_job r;
          new = r\<lparr>job_heap := (job_heap r)(fresh \<mapsto> new_job now),
                  next_job := Suc fresh, jobs := (jobs r)(key \<mapsto> fresh)\<rparr>
      in case jobs r key of
           Some existing \<Rightarrow> (if is_running existing r then ((existing, False), r) else ((fresh, True), new))
         | None \<Rightarrow> ((fresh, True), new))"

definition vod_forget :: "string \<Rightarrow> string \<Rightarrow> vod_registry \<Rightarrow> vod_registry" where
  "vod_forget channelKey streamID r = r\<lparr>jobs := (jobs r)(vodJobKey channelKey streamID := None)\<rparr>"

definition setPhase :: "nat \<Rightarrow> vod_phase \<Rightarrow> vod_registry \<Rightarrow> vod_registry" where
  "setPhase j p r =
     (case job_heap r j of None \<Rightarrow> r
      | Some s \<Rightarrow> r\<lparr>job_heap := (job_heap r)(j \<mapsto> s\<lparr>vs_Phase := p\<rparr>)\<rparr>)"

definition job_finish :: "nat \<Rightarrow> string option \<Rightarrow> int \<Rightarrow> vod_registry \<Rightarrow> vod_registry" where
  "job_finish j err now r =
     (case job_heap r j of None \<Rightarrow> r
      | Some s \<Rightarrow>
          (let s1 = s\<lparr>vs_Phase := NoPhase, vs_FinishedAt := now\<rparr>;
               s2 = (case err of Some e \<Rightarrow> s1\<lparr>vs_State := VodFailed, vs_Failure := e\<rparr>
                     | None \<Rightarrow> s1\<lparr>vs_State := VodDone\<rparr>)
           in r\<lparr>job_heap := (job_heap r)(j \<mapsto> s2)\<rparr>))"

lemma vodJobKey_inject:
  assumes "CHR ''/'' \<notin> set c" "CHR ''/'' \<notin> set c'"
  shows "vodJobKey c s = vodJobKey c' s' \<longleftrightarrow> c = c' \<and> s = s'"
  using append_sep_first_inject [OF assms, of s s'] by (simp add: vodJobKey_def)

section \<open>Concurrent builds\<close>

text \<open>
  Goroutines interleave: any request may claim or forget, and a build that was started goes
  through phases and finishes. \<open>active\<close> lists the builds in flight with their key, \<open>forgotten\<close>
  the keys that were dropped while the server ran.
\<close>

record vod_sys =
  reg :: vod_registry
  active :: "(nat \<times> string) list"
  forgotten :: "string list"

inductive vod_step :: "vod_sys \<Rightarrow> vod_sys \<Rightarrow> bool" where
  claim_started: "vod_claim c sid now (reg s) = ((j, True), r) \<Longrightarrow>
     vod_step s (s\<lparr>reg := r, active := (j, vodJobKey c sid) # active s\<rparr>)"
| claim_joined: "vod_claim c sid now (reg s) = ((j, False), r) \<Longrightarrow> vod_step s (s\<lparr>reg := r\<rparr>)"
| phase: "(j, k) \<in> set (active s) \<Longrightarrow> vod_step s (s\<lparr>reg := setPhase j p (reg s)\<rparr>)"
| finished: "(j, k) \<in> set (active s) \<Longrightarrow>
     vod_step s (s\<lparr>reg := job_finish j err now (reg s), active := filter (\<lambda>a. fst a \<noteq> j) (active s)\<rparr>)"
| forget: "vod_step s (s\<lparr>reg := vod_forget c sid (reg s), forgotten := vodJobKey c sid # forgotten s\<rparr>)"

inductive_cases vod_stepE: "vod_step s t"

inductive vod_reachable :: "vod_sys \<Rightarrow> bool" where
  vod_start: "vod_reachable \<lparr>reg = newVodRegistry, active = [], forgotten = []\<rparr>"
| vod_next: "vod_reachable s \<Longrightarrow> vod_step s t \<Longrightarrow> vod_reachable t"

definition vod_inv :: "vod_sys \<Rightarrow> bool" where
  "vod_inv s \<longleftrightarrow>
     distinct (map fst (active s)) \<and>
     (\<forall>j. job_heap (reg s) j \<noteq> None \<longrightarrow> j < next_job (reg s)) \<and>
     (\<forall>(j, k) \<in> set (active s). is_running j (reg s)) \<and>
     (\<forall>(j, k) \<in> set (active s). k \<notin> set (forgotten s) \<longrightarrow> jobs (reg s) k = Some j) \<and>
     (\<forall>j. is_running j (reg s) \<longrightarrow> j \<in> fst ` set (active s))"

lemma is_running_heap: "is_running j r \<longleftrightarrow> (\<exists>s. job_heap r j = Some s \<and> vs_State s = VodRunning)"
  by (simp add: is_running_def job_status_def split: option.splits)

lemma claim_cases:
  assumes "vod_claim c sid now r = ((j, started), r')"
  obtains (joined) "\<not> started" "r' = r" "jobs r (vodJobKey c sid) = Some j" "is_running j r"
    | (fresh) "started" "j = next_job r"
        "\<forall>i. jobs r (vodJobKey c sid) = Some i \<longrightarrow> \<not> is_running i r"
        "jobs r' = (jobs r)(vodJobKey c sid \<mapsto> j)" "next_job r' = Suc j"
        "job_heap r' = (job_heap r)(j \<mapsto> new_job now)"
  using assms by (auto simp: vod_claim_def Let_def split: option.splits if_splits)

lemma vod_step_inv: "vod_step s t \<Longrightarrow> vod_inv s \<Longrightarrow> vod_inv t"
proof (induction rule: vod_step.induct)
  case (claim_started c sid now s j r)
  from claim_started(1) show ?case
  proof (cases rule: claim_cases)
    case fresh
    note inv = claim_started(2) [unfolded vod_inv_def]
    let ?key = "vodJobKey c sid"
    have nj: "\<not> is_running j (reg s)" using inv fresh(2) unfolding is_running_heap by blast
    have run: "is_running i r \<longleftrightarrow> i = j \<or> is_running i (reg s)" for i
      by (auto simp: is_running_heap fresh(6) new_job_def)
    have out: "j \<notin> fst ` set (active s)" using inv nj by fastforce
    have other: "k \<noteq> ?key" if "(i, k) \<in> set (active s)" "k \<notin> set (forgotten s)" for i k
    proof
      assume "k = ?key"
      with that inv have "jobs (reg s) ?key = Some i" "is_running i (reg s)" by fastforce+
      with fresh(3) show False by blast
    qed
    have "\<forall>i. job_heap r i \<noteq> None \<longrightarrow> i < next_job r"
      using inv by (auto simp: fresh(2,5,6) less_Suc_eq)
    moreover have "\<forall>(i, k) \<in> set ((j, ?key) # active s). is_running i r"
      using inv run by auto
    moreover have "\<forall>(i, k) \<in> set ((j, ?key) # active s). k \<notin> set (forgotten s) \<longrightarrow> jobs r k = Some i"
      using inv other by (auto simp: fresh(4))
    moreover have "\<forall>i. is_running i r \<longrightarrow> i \<in> fst ` set ((j, ?key) # active s)"
      using inv run by simp
    ultimately show ?thesis using inv out unfolding vod_inv_def by simp
  qed simp
next
  case (claim_joined c sid now s j r)
  from claim_joined(1) show ?case by (cases rule: claim_cases) (use claim_joined(2) in simp_all)
next
  case (phase j k s p)
  have "is_running i (setPhase j p (reg s)) = is_running i (reg s)" for i
    by (auto simp: setPhase_def is_running_heap split: option.splits)
  moreover have "(job_heap (setPhase j p (reg s)) i \<noteq> None) = (job_heap (reg s) i \<noteq> None)" for i
    by (auto simp: setPhase_def split: option.splits)
  moreover have "jobs (setPhase j p (reg s)) = jobs (reg s)" "next_job (setPhase j p (reg s)) = next_job (reg s)"
    by (auto simp: setPhase_def split: option.splits)
  ultimately show ?case using phase(2) unfolding vod_inv_def by simp
next
  case (finished j k s err now)
  let ?r = "job_finish j err now (reg s)"
  have run: "is_running i ?r \<longleftrightarrow> i \<noteq> j \<and> is_running i (reg s)" for i
    by (auto simp: job_finish_def is_running_heap Let_def split: option.splits)
  have h: "(\<exists>y. job_heap ?r i = Some y) = (\<exists>y. job_heap (reg s) i = Some y)" for i
    by (auto simp: job_finish_def Let_def split: option.splits)
  have rest: "jobs ?r = jobs (reg s)" "next_job ?r = next_job (reg s)"
    by (auto simp: job_finish_def Let_def split: option.splits)
  have "distinct (map fst (filter (\<lambda>a. fst a \<noteq> j) (active s)))"
    using finished(2) by (simp add: vod_inv_def distinct_map_filter)
  moreover have "i \<in> fst ` set (filter (\<lambda>a. fst a \<noteq> j) (active s))" if "is_running i ?r" for i
    using that finished(2) by (force simp: run vod_inv_def)
  ultimately show ?case using finished(2) unfolding vod_inv_def by (auto simp: run h rest)
next
  case (forget s c sid)
  have "is_running i (vod_forget c sid (reg s)) = is_running i (reg s)" for i
    by (simp add: vod_forget_def is_running_heap)
  with forget show ?case by (fastforce simp: vod_inv_def vod_forget_def)
qed

lemma vod_reachable_inv: "vod_reachable s \<Longrightarrow> vod_inv s"
proof (induction rule: vod_reachable.induct)
  case vod_start
  then show ?case by (simp add: vod_inv_def newVodRegistry_def is_running_heap)
qed (rule vod_step_inv)

text \<open>
  C28. Pressing the button concurrently never starts rival builds: in every interleaving, two builds
  in flight for the same stream are the same build, unless the stream's record was dropped in
  between; and a build in flight is the one every further request for the stream joins.
\<close>

theorem one_build_per_stream:
  assumes "vod_reachable s" "(j, vodJobKey c sid) \<in> set (active s)" "vodJobKey c sid \<notin> set (forgotten s)"
  shows "vod_claim c sid now (reg s) = ((j, False), reg s) \<and>
    (\<forall>i. (i, vodJobKey c sid) \<in> set (active s) \<longrightarrow> i = j)"
proof -
  have inv: "vod_inv s" using assms(1) by (rule vod_reachable_inv)
  then have "jobs (reg s) (vodJobKey c sid) = Some j" "is_running j (reg s)"
    using assms(2,3) unfolding vod_inv_def by fastforce+
  moreover have "i = j" if "(i, vodJobKey c sid) \<in> set (active s)" for i
  proof -
    have "jobs (reg s) (vodJobKey c sid) = Some i"
      using inv that assms(3) unfolding vod_inv_def by fastforce
    with calculation(1) show ?thesis by simp
  qed
  ultimately show ?thesis by (simp add: vod_claim_def Let_def)
qed

text \<open>One build in flight.\<close>

definition one_build :: vod_sys where
  "one_build = \<lparr>reg = snd (vod_claim ''ch'' ''s'' 5 newVodRegistry), active = [(0, ''ch/s'')], forgotten = []\<rparr>"

lemma one_build_reachable: "vod_reachable one_build"
proof -
  let ?s0 = "\<lparr>reg = newVodRegistry, active = [], forgotten = []\<rparr>"
  have c: "vod_claim ''ch'' ''s'' 5 newVodRegistry = ((0, True), reg one_build)"
    by (simp add: one_build_def vod_claim_def newVodRegistry_def Let_def)
  have "vod_step ?s0 (?s0\<lparr>reg := reg one_build, active := (0, vodJobKey ''ch'' ''s'') # active ?s0\<rparr>)"
    by (rule claim_started [of "''ch''" "''s''" 5]) (simp add: c)
  from vod_next [OF vod_start this] show ?thesis by (simp add: one_build_def vodJobKey_def)
qed

theorem one_build_per_stream_witness:
  "vod_claim ''ch'' ''s'' 9 (reg one_build) = ((0, False), reg one_build)"
  using one_build_per_stream [OF one_build_reachable, of 0 "''ch''" "''s''" 9]
  by (simp add: one_build_def vodJobKey_def)

text \<open>
  The exception is real: when a stream is deleted while its build is in flight, and the same
  stream comes back and is built again, two builds of one stream run at the same time.
\<close>

theorem deleted_stream_gets_rival_build:
  "\<exists>s i j. vod_reachable s \<and> i \<noteq> j \<and> (i, vodJobKey ''ch'' ''s'') \<in> set (active s) \<and>
     (j, vodJobKey ''ch'' ''s'') \<in> set (active s)"
proof -
  let ?s1 = "one_build\<lparr>reg := vod_forget ''ch'' ''s'' (reg one_build),
     forgotten := vodJobKey ''ch'' ''s'' # forgotten one_build\<rparr>"
  let ?r2 = "snd (vod_claim ''ch'' ''s'' 7 (reg ?s1))"
  have "vod_claim ''ch'' ''s'' 7 (reg ?s1) = ((1, True), ?r2)"
    by (simp add: one_build_def vod_claim_def vod_forget_def newVodRegistry_def Let_def)
  from claim_started [OF this]
  have "vod_reachable (?s1\<lparr>reg := ?r2, active := (1, vodJobKey ''ch'' ''s'') # active ?s1\<rparr>)"
    using vod_next [OF vod_next [OF one_build_reachable vod_step.forget]] by blast
  moreover have "(0, vodJobKey ''ch'' ''s'') \<in> set (active one_build)"
    by (simp add: one_build_def vodJobKey_def)
  ultimately show ?thesis
    by (intro exI [of _ "?s1\<lparr>reg := ?r2, active := (1, vodJobKey ''ch'' ''s'') # active ?s1\<rparr>"]
        exI [of _ 0] exI [of _ 1]) simp
qed

end
