(* ===== verification/World.thy ===== *)
theory World
  imports Store_Props Hub Notifier LocalStorage Config VodRegistry "HOL-Library.State_Monad"
begin

text \<open>
  The application (\<^verbatim>\<open>internal/server/app.go\<close>): the \<open>App\<close> value with its fixed parts as a record of
  arguments, everything it changes as the \<open>world\<close>, and the request and response values the handlers
  exchange with \<^verbatim>\<open>net/http\<close>. Handlers are actions of the state monad over the world; a world pairs
  the database connection, the stores, the clock (microseconds), the hubs and change counters of
  the channels, the notifier, the activation gauge, the build registry, the storage deletions and
  builds left to goroutines, the Discord outbox and the supply of random identifiers.
\<close>

section \<open>The fixed parts\<close>

record channel =
  Key :: string
  AdminKey :: string
  MembersName :: string
  BaseMediaFolder :: string
  NumPastStreams :: int

text \<open>
  \<^verbatim>\<open>media.Processor\<close>: each operation reads and writes files of the disk and reports success. Times
  are finite float64 values in units of the smallest subnormal, so that they are integers.
\<close>

record processor =
  p_Convert :: "string \<Rightarrow> string \<Rightarrow> disk \<Rightarrow> unit res \<times> disk"
  p_Remux :: "string \<Rightarrow> string \<Rightarrow> disk \<Rightarrow> unit res \<times> disk"
  p_Trim :: "string \<Rightarrow> string \<Rightarrow> int \<Rightarrow> int \<Rightarrow> disk \<Rightarrow> unit res \<times> disk"
  p_ExtractFrame :: "string \<Rightarrow> string \<Rightarrow> int \<Rightarrow> disk \<Rightarrow> unit res \<times> disk"

text \<open>
  \<open>lower\<close> is \<^verbatim>\<open>strings.ToLower\<close>, \<open>shortuuid\<close> the identifier package, \<open>sanitize\<close> its
  \<^verbatim>\<open>sanitize.BaseName\<close>, \<open>QueryEscape\<close> and \<open>RFC1123\<close> the functions of \<^verbatim>\<open>net/url\<close> and \<^verbatim>\<open>time\<close>.
\<close>

record 'b app =
  ApiKey :: string
  Storage :: "'b stores storage"
  Media :: processor
  Discord :: discord_client
  Archive :: archive_client
  Transport :: transport
  Channels :: "channel list"
  MaxConn :: int
  MaxClipSize :: int
  TempDir :: string
  IncomingStreamTTL :: int \<comment> \<open>microseconds\<close>
  AppVersion :: string
  AppBuildTime :: string
  lower :: "string \<Rightarrow> string"
  shortuuid :: "nat \<Rightarrow> string"
  sanitize :: "string \<Rightarrow> string"
  QueryEscape :: "string \<Rightarrow> string"
  RFC1123 :: "int \<Rightarrow> string"

definition find_channel :: "'b app \<Rightarrow> string \<Rightarrow> channel option" where
  "find_channel app k = find (\<lambda>cs. Key cs = k) (Channels app)"

section \<open>The world\<close>

text \<open>
  \<open>vod_target\<close> and the arguments of a build goroutine of \<^verbatim>\<open>vod.go\<close>: \<open>pending_builds\<close> lists the
  goroutines that were started and have not run yet, and \<open>upgrading\<close> counts, per channel, the WebSocket
  handlers that have reserved a slot and not yet added their client or given the slot back.
\<close>

record vod_target =
  tgt_stream :: stream
  tgt_ext :: string
  tgt_totalLines :: int
  tgt_mediaLines :: int

record vod_task =
  task_job :: nat
  task_channel :: channel
  task_target :: vod_target
  task_files :: "string list"

record 'b world =
  conn :: dbconn
  stores :: "'b stores"
  clock :: int
  hubs :: "string \<Rightarrow> hub"
  counters :: "string \<Rightarrow> int"
  notifier :: notifier
  gauge :: "(string \<times> string \<times> string) \<Rightarrow> int option"
  vods :: vod_registry
  async_deletes :: "string list"
  pending_builds :: "vod_task list"
  upgrading :: "string \<Rightarrow> nat"
  discord :: discord_state
  next_uuid :: nat

type_synonym ('b, 'a) act = "('b world, 'a) state"

abbreviation ret :: "'a \<Rightarrow> ('s, 'a) state" where "ret \<equiv> State_Monad.return"

abbreviation run :: "('s, 'a) state \<Rightarrow> 's \<Rightarrow> 'a \<times> 's" where "run \<equiv> run_state"

definition modify :: "('s \<Rightarrow> 's) \<Rightarrow> ('s, unit) state" where
  "modify f = State (\<lambda>s. ((), f s))"

definition gets :: "('s \<Rightarrow> 'a) \<Rightarrow> ('s, 'a) state" where
  "gets f = State (\<lambda>s. (f s, s))"

definition sql :: "(dbconn \<Rightarrow> 'a \<times> dbconn) \<Rightarrow> ('b, 'a) act" where
  "sql f = State (\<lambda>w. case f (conn w) of (r, c) \<Rightarrow> (r, w\<lparr>conn := c\<rparr>))"

definition store :: "('b stores \<Rightarrow> 'a \<times> 'b stores) \<Rightarrow> ('b, 'a) act" where
  "store f = State (\<lambda>w. case f (stores w) of (r, s) \<Rightarrow> (r, w\<lparr>stores := s\<rparr>))"

definition os :: "(disk \<Rightarrow> 'a \<times> disk) \<Rightarrow> ('b, 'a) act" where
  "os f = store (on_disk f)"

definition time_Now :: "('b, int) act" where "time_Now = gets clock"

definition unix_Now :: "('b, int) act" where "unix_Now = gets (\<lambda>w. clock w div 1000000)"

definition new_uuid :: "'b app \<Rightarrow> ('b, string) act" where
  "new_uuid app = State (\<lambda>w. (shortuuid app (next_uuid w), w\<lparr>next_uuid := Suc (next_uuid w)\<rparr>))"

definition broadcast :: "string \<Rightarrow> message \<Rightarrow> ('b, unit) act" where
  "broadcast ch msg = modify (\<lambda>w. w\<lparr>hubs := (hubs w)(ch := Broadcast msg (hubs w ch))\<rparr>)"

definition gauge_Set :: "string \<Rightarrow> string \<Rightarrow> string \<Rightarrow> int \<Rightarrow> ('b, unit) act" where
  "gauge_Set ch sid title v = modify (\<lambda>w. w\<lparr>gauge := (gauge w)((ch, sid, title) \<mapsto> v)\<rparr>)"

definition gauge_Delete :: "string \<Rightarrow> string \<Rightarrow> string \<Rightarrow> ('b, unit) act" where
  "gauge_Delete ch sid title = modify (\<lambda>w. w\<lparr>gauge := (gauge w)((ch, sid, title) := None)\<rparr>)"

definition alert :: "(int \<Rightarrow> discord_state \<Rightarrow> discord_state) \<Rightarrow> ('b, unit) act" where
  "alert f = modify (\<lambda>w. w\<lparr>discord := f (clock w) (discord w)\<rparr>)"

lemma run_modify [simp]: "run (modify f) s = ((), f s)"
  by (simp add: modify_def)

lemma run_gets [simp]: "run (gets f) s = (f s, s)"
  by (simp add: gets_def)

lemma run_sql: "run (sql f) w = (case f (conn w) of (r, c) \<Rightarrow> (r, w\<lparr>conn := c\<rparr>))"
  by (simp add: sql_def)

lemma run_store: "run (store f) w = (case f (stores w) of (r, s) \<Rightarrow> (r, w\<lparr>stores := s\<rparr>))"
  by (simp add: store_def)

lemma run_os: "run (os f) w = (case f (disk (stores w)) of (r, d) \<Rightarrow> (r, w\<lparr>stores := (stores w)\<lparr>disk := d\<rparr>\<rparr>))"
  by (simp add: os_def run_store on_disk_def split: prod.splits)

lemmas act_defs = time_Now_def unix_Now_def broadcast_def gauge_Set_def gauge_Delete_def alert_def

section \<open>Requests and responses\<close>

record clip_request =
  clip_StreamID :: string
  clip_Start :: int
  clip_End :: int
  clip_Type :: string

record trim_request =
  trim_StreamID :: string
  trim_ClipID :: string
  trim_Format :: string
  trim_Start :: int
  trim_End :: int

record edit_request =
  ed_StreamTitle :: "string option"
  ed_StartTime :: "int option"
  ed_MediaType :: "string option"

text \<open>
  The body as the handler of the route sees it: the value the JSON decoder yields for the struct it
  decodes into, the uploaded file of a multipart form, or what is left when decoding fails.
\<close>

datatype payload =
    NoPayload
  | SyncPayload worker_data
  | LinePayload line
  | HeartbeatPayload worker_status_request
  | FilePayload string
  | FormWithoutFile
  | UrlPayload string
  | ClipPayload clip_request
  | TrimPayload trim_request
  | EditPayload edit_request

record request =
  r_Method :: string
  r_Path :: string
  r_PathValue :: "string \<Rightarrow> string"
  r_Query :: "string \<Rightarrow> string"
  r_Header :: "string \<Rightarrow> string"
  r_Body :: payload
  r_UploadMs :: int \<comment> \<open>the measured time of reading the body\<close>

record vod_response =
  vr_StreamID :: string
  vr_State :: vod_state
  vr_Phase :: vod_phase
  vr_Error :: string
  vr_Format :: string
  vr_TotalLines :: int
  vr_MediaLines :: int
  vr_MissingLines :: int
  vr_URL :: string
  vr_Path :: string
  vr_StartedAt :: int
  vr_FinishedAt :: int

record bot_status =
  bs_State :: string
  bs_Detail :: string
  bs_LastHeartbeatAck :: int
  bs_LastConnect :: int
  bs_LastDisconnect :: int
  bs_LastError :: string
  bs_LastErrorAt :: int
  bs_ListeningChannels :: int
  bs_ChannelMapped :: bool

record admin_info =
  ai_Channel :: string
  ai_Worker :: "worker_status option"
  ai_Streams :: "stream list"
  ai_IncomingURLs :: "string list"
  ai_RestartPending :: bool
  ai_RestartAt :: int
  ai_Version :: string
  ai_BuildTime :: string
  ai_ConnectedClients :: int
  ai_MembershipEnabled :: bool
  ai_DiscordBot :: bot_status

datatype body =
    NoBody
  | Text string
  | JStatus string string "worker_status list"
  | JTranscript "line list"
  | JClip string
  | JIncoming "string list"
  | JRestart bool int
  | JEvents int "(string \<times> string list) list"
  | JPoll int
  | JAdminInfo admin_info
  | JVod vod_response
  | JKeys "key_response list"
  | JKey key_response
  | FileBody string \<comment> \<open>path handed to \<^verbatim>\<open>http.ServeFile\<close>\<close>
  | Html

record response =
  code :: int
  headers :: "(string \<times> string) list"
  body :: body

definition reply :: "int \<Rightarrow> body \<Rightarrow> response" where
  "reply c b = \<lparr>code = c, headers = [], body = b\<rparr>"

definition http_Error :: "string \<Rightarrow> int \<Rightarrow> response" where
  "http_Error msg c = reply c (Text msg)"

definition writeJSON :: "body \<Rightarrow> response" where
  "writeJSON b = \<lparr>code = 200, headers = [(''Content-Type'', ''application/json'')], body = b\<rparr>"

lemma code_simps [simp]:
  "code (reply c b) = c" "body (reply c b) = b" "code (http_Error m c) = c" "code (writeJSON b) = 200"
  "body (writeJSON b) = b" "body (http_Error m c) = Text m"
  by (simp_all add: reply_def http_Error_def writeJSON_def)

section \<open>Methods of \<^verbatim>\<open>App\<close>\<close>

definition isClientGone :: "gerr \<Rightarrow> bool" where
  "isClientGone e \<longleftrightarrow> e = ErrCanceled \<or> e = ErrDeadlineExceeded"

definition report500 :: "'b app \<Rightarrow> request \<Rightarrow> gerr \<Rightarrow> string \<Rightarrow> ('b, unit) act" where
  "report500 app r e msg =
     (if isClientGone e then ret ()
      else alert (\<lambda>now. Notify500Error (Discord app) now (msg @ '': '' @ err_text e) (r_Path r)))"

definition fail500 :: "'b app \<Rightarrow> request \<Rightarrow> string \<Rightarrow> gerr \<Rightarrow> string \<Rightarrow> ('b, response) act" where
  "fail500 app r shown e msg = do { report500 app r e msg; ret (http_Error shown 500) }"

definition bumpAdminChange :: "'b app \<Rightarrow> string \<Rightarrow> ('b, unit) act" where
  "bumpAdminChange app ch =
     (case find_channel app ch of
        None \<Rightarrow> ret ()
      | Some _ \<Rightarrow> modify (\<lambda>w. w\<lparr>counters := (counters w)(ch := wrap64 (counters w ch + 1)),
                                notifier := Notify (notifier w)\<rparr>))"

definition QueueIncomingStream :: "'b app \<Rightarrow> string \<Rightarrow> string \<Rightarrow> ('b, unit res) act" where
  "QueueIncomingStream app ch url =
     (case find_channel app ch of
        None \<Rightarrow> ret (Inl (ErrOther (''unknown channel '' @ ch)))
      | Some _ \<Rightarrow> do {
          now \<leftarrow> unix_Now;
          r \<leftarrow> sql (UpsertIncomingStream ch url now);
          (case r of Inl e \<Rightarrow> ret (Inl e) | Inr _ \<Rightarrow> do { bumpAdminChange app ch; ret (Inr ()) }) })"

definition membershipEnabled :: "'b app \<Rightarrow> channel \<Rightarrow> bool" where
  "membershipEnabled app cs \<longleftrightarrow> Configured (Archive app) \<and> MembersName cs \<noteq> []"

definition field :: "string \<Rightarrow> string \<Rightarrow> bool \<Rightarrow> admin_field" where
  "field n v i = \<lparr>f_Name = n, f_Value = v, f_Inline = i\<rparr>"

definition notifyAdminAction ::
  "'b app \<Rightarrow> request \<Rightarrow> channel \<Rightarrow> string \<Rightarrow> admin_field list \<Rightarrow> ('b, unit) act" where
  "notifyAdminAction app r cs action details =
     alert (\<lambda>now. NotifyAdminAction (Discord app) now (Key cs) action
       (details @ [field ''Endpoint'' (r_Method r @ '' '' @ r_Path r) False]))"

definition yesNo :: "bool \<Rightarrow> string" where
  "yesNo b = (if b then ''yes'' else ''no'')"

definition make_channel :: "string \<Rightarrow> channel_config \<Rightarrow> channel" where
  "make_channel tempDir cc =
     \<lparr>Key = cc_Name cc, AdminKey = cc_AdminKey cc, MembersName = cc_MembersName cc,
      BaseMediaFolder = path_join [tempDir, cc_Name cc], NumPastStreams = cc_NumPastStreams cc\<rparr>"

text \<open>
  \<^verbatim>\<open>NewApp\<close>: the parts of the application it derives from the configuration. The backends, the
  processor and the functions of other packages come with the template \<open>env\<close>.
\<close>

definition NewApp :: "'b app \<Rightarrow> 'b stores storage \<Rightarrow> 'b stores storage \<Rightarrow> config \<Rightarrow> string \<Rightarrow> string \<Rightarrow> string
    \<Rightarrow> 'b app res" where
  "NewApp env localS r2S cfg tempDir version buildTime =
     (let minutes = bot_StreamTTLMinutes (dc_Bot (cfg_Discord cfg));
          ttl = (if minutes \<le> 0 then 24 * 60 else minutes)
      in case storage_New (cfg_StorageType cfg) of
           Inl e \<Rightarrow> Inl (ErrOther (''initialize storage: '' @ err_text e))
         | Inr b \<Rightarrow>
           (if bot_Token (dc_Bot (cfg_Discord cfg)) \<noteq> [] \<and> bot_ChannelMap (dc_Bot (cfg_Discord cfg)) = []
            then Inl (ErrOther ''construct discord bot: discord.bot.channelMap is empty; bot would never match a message'')
            else Inr (env\<lparr>
             ApiKey := cfg_ApiKey cfg,
             Storage := (case b of UseLocal \<Rightarrow> localS | UseR2 \<Rightarrow> r2S),
             Discord := NewClient (lower env) (cfg_Discord cfg) version (cfg_Channels cfg),
             Archive := archive_NewClient (cfg_ArchiveURL cfg) (cfg_ArchiveKey cfg),
             Channels := map (make_channel tempDir) (cfg_Channels cfg),
             MaxConn := 10000, MaxClipSize := 40, TempDir := tempDir,
             IncomingStreamTTL := ttl * 60 * 1000000, AppVersion := version, AppBuildTime := buildTime\<rparr>)))"

text \<open>The runtime state right after \<^verbatim>\<open>NewApp\<close>: fresh hubs, and counters seeded from the clock.\<close>

definition new_world :: "'b app \<Rightarrow> dbconn \<Rightarrow> 'b stores \<Rightarrow> int \<Rightarrow> 'b world" where
  "new_world app c s now =
     \<lparr>conn = c, stores = s, clock = now, hubs = (\<lambda>_. NewHub (MaxConn app)),
      counters = (\<lambda>_. now div 1000), notifier = New, gauge = (\<lambda>_. None), vods = newVodRegistry,
      async_deletes = [], pending_builds = [], upgrading = (\<lambda>_. 0), discord = \<lparr>outbox = [], last500 = None\<rparr>, next_uuid = 0\<rparr>"

fun mkdirs :: "channel list \<Rightarrow> ('b, unit res) act" where
  "mkdirs [] = ret (Inr ())"
| "mkdirs (cs # css) = do {
     r \<leftarrow> os (os_MkdirAll (BaseMediaFolder cs));
     (case r of Inl e \<Rightarrow> ret (Inl e) | Inr _ \<Rightarrow> mkdirs css) }"

fun seed_workers :: "string \<Rightarrow> int \<Rightarrow> channel list \<Rightarrow> ('b, unit res) act" where
  "seed_workers bt now [] = ret (Inr ())"
| "seed_workers bt now (cs # css) = do {
     r \<leftarrow> sql (UpsertWorkerStatus (Key cs) ''N/A'' bt now);
     (case r of Inl e \<Rightarrow> ret (Inl e) | Inr _ \<Rightarrow> seed_workers bt now css) }"

definition Init :: "'b app \<Rightarrow> ('b, unit res) act" where
  "Init app = do {
     r \<leftarrow> os (os_MkdirAll (TempDir app));
     (case r of Inl e \<Rightarrow> ret (Inl e)
      | Inr _ \<Rightarrow> do {
        r \<leftarrow> mkdirs (Channels app);
        (case r of Inl e \<Rightarrow> ret (Inl e)
         | Inr _ \<Rightarrow> do {
           r \<leftarrow> sql ResetWorkerStatus;
           (case r of Inl e \<Rightarrow> ret (Inl e)
            | Inr _ \<Rightarrow> do {
              now \<leftarrow> unix_Now;
              seed_workers (AppBuildTime app) now (Channels app) }) }) }) }"

end
