(* ===== verification/Lifecycle.thy ===== *)
theory Lifecycle
  imports World
begin

text \<open>
  \<^verbatim>\<open>internal/server/lifecycle.go\<close>: activation, retention, deactivation and removal of streams and
  the broadcasts that announce them. Logging and the per-stream play counters are left out; the
  activation gauge is kept.
\<close>

section \<open>Broadcasts\<close>

definition deleteStreamStorageAsync :: "string \<Rightarrow> string \<Rightarrow> ('b, unit) act" where
  "deleteStreamStorageAsync ch sid = modify (\<lambda>w. w\<lparr>async_deletes := async_deletes w @ [StreamPrefix ch sid]\<rparr>)"

definition exclude_id :: "stream list \<Rightarrow> string" where
  "exclude_id ss =
     (case filter IsLive ss of
        s # _ \<Rightarrow> StreamID s
      | [] \<Rightarrow> (case ss of [] \<Rightarrow> [] | s # _ \<Rightarrow> StreamID s))"

definition broadcastPastStreams :: "channel \<Rightarrow> ('b, unit) act" where
  "broadcastPastStreams cs = do {
     r \<leftarrow> sql (GetAllStreams (Key cs));
     (case r of
        Inl e \<Rightarrow> ret ()
      | Inr ss \<Rightarrow> do {
          r \<leftarrow> sql (GetPastStreams (Key cs) (exclude_id ss));
          (case r of Inl e \<Rightarrow> ret () | Inr ps \<Rightarrow> broadcast (Key cs) (EventPastStreams ps)) }) }"

definition new_line_event :: "int \<Rightarrow> line \<Rightarrow> message" where
  "new_line_event uploadTime l =
     EventNewLine \<lparr>nl_LineID = LineID l, nl_Timestamp = Timestamp l, nl_UploadTime = uploadTime,
       nl_MediaAvailable = False, nl_Segments = Segments l, nl_VodAccurate = VodAccurate l\<rparr>"

definition broadcastNewLine :: "channel \<Rightarrow> string \<Rightarrow> int \<Rightarrow> line option \<Rightarrow> ('b, unit) act" where
  "broadcastNewLine cs activeID uploadTime newLine =
     (case newLine of
        Some l \<Rightarrow> broadcast (Key cs) (new_line_event uploadTime l)
      | None \<Rightarrow> do {
          r \<leftarrow> sql (GetLastLine (Key cs) activeID);
          (case r of
             Inl e \<Rightarrow> ret ()
           | Inr None \<Rightarrow> ret ()
           | Inr (Some l) \<Rightarrow> broadcast (Key cs) (new_line_event uploadTime l)) })"

definition broadcastNewMedia :: "channel \<Rightarrow> string \<Rightarrow> (int \<times> string) list \<Rightarrow> ('b, unit) act" where
  "broadcastNewMedia cs sid fs = broadcast (Key cs) (EventNewMedia sid fs)"

section \<open>Retention\<close>

text \<open>Local storage: streams beyond the kept ones are deleted; \<open>kept\<close> counts the kept past streams.\<close>

fun retain_local :: "channel \<Rightarrow> string \<Rightarrow> int \<Rightarrow> stream list \<Rightarrow> ('b, unit) act" where
  "retain_local cs active_id kept [] = ret ()"
| "retain_local cs active_id kept (s # ss) =
     (if StreamID s = active_id then retain_local cs active_id kept ss
      else if kept < NumPastStreams cs then retain_local cs active_id (kept + 1) ss
      else do {
        r \<leftarrow> sql (DeleteStreamCascade (Key cs) (StreamID s));
        (case r of Inl e \<Rightarrow> ret () | Inr _ \<Rightarrow> deleteStreamStorageAsync (Key cs) (StreamID s));
        retain_local cs active_id kept ss })"

fun reconcile_remote :: "'b app \<Rightarrow> channel \<Rightarrow> string \<Rightarrow> stream list \<Rightarrow> ('b, unit) act" where
  "reconcile_remote app cs active_id [] = ret ()"
| "reconcile_remote app cs active_id (s # ss) =
     (if StreamID s = active_id then reconcile_remote app cs active_id ss
      else do {
        r \<leftarrow> store (st_StreamExists (Storage app) (StreamPrefix (Key cs) (StreamID s)));
        (case r of
           Inl e \<Rightarrow> ret ()
         | Inr True \<Rightarrow> ret ()
         | Inr False \<Rightarrow> do { _ \<leftarrow> sql (DeleteStreamCascade (Key cs) (StreamID s)); ret () });
        reconcile_remote app cs active_id ss })"

definition applyRetention :: "'b app \<Rightarrow> channel \<Rightarrow> string \<Rightarrow> ('b, unit) act" where
  "applyRetention app cs active_id = do {
     r \<leftarrow> sql (GetAllStreams (Key cs));
     (case r of
        Inl e \<Rightarrow> ret ()
      | Inr all \<Rightarrow>
          (if st_IsLocal (Storage app) then retain_local cs active_id 0 all
           else if length all \<le> 1 then ret ()
           else reconcile_remote app cs active_id all)) }"

section \<open>Activation\<close>

definition announce :: "'b app \<Rightarrow> channel \<Rightarrow> message \<Rightarrow> ('b, bool) act" where
  "announce app cs msg = do { broadcast (Key cs) msg; bumpAdminChange app (Key cs); ret True }"

definition status_event :: "stream \<Rightarrow> bool \<Rightarrow> message" where
  "status_event s live = EventStatus \<lparr>st_StreamID = StreamID s, st_StreamTitle = StreamTitle s, st_IsLive = live\<rparr>"

definition new_stream_event :: "'b app \<Rightarrow> stream \<Rightarrow> message" where
  "new_stream_event app s =
     EventNewStream \<lparr>ns_StreamID = StreamID s, ns_StreamTitle = StreamTitle s, ns_StartTime = StartTime s,
       ns_MediaType = MediaType s, ns_MediaBaseURL = st_GetURL (Storage app) [], ns_IsLive = IsLive s\<rparr>"

definition live_stream :: "channel \<Rightarrow> string \<Rightarrow> string \<Rightarrow> string \<Rightarrow> string \<Rightarrow> int \<Rightarrow> stream" where
  "live_stream cs sid title startTime mediaType now =
     \<lparr>ChannelID = Key cs, StreamID = sid, StreamTitle = title, StartTime = startTime, IsLive = True,
      MediaType = mediaType, ActivatedTime = now\<rparr>"

text \<open>The branch for a stream that is not the channel's most recent one.\<close>

definition start_stream ::
  "'b app \<Rightarrow> channel \<Rightarrow> stream option \<Rightarrow> string \<Rightarrow> string \<Rightarrow> string \<Rightarrow> string \<Rightarrow> ('b, bool) act" where
  "start_stream app cs current sid title startTime mediaType = do {
     (case current of
        Some c \<Rightarrow> if StreamID c \<noteq> [] then gauge_Delete (Key cs) (StreamID c) (StreamTitle c) else ret ()
      | None \<Rightarrow> ret ());
     now \<leftarrow> time_Now;
     let newStream = live_stream cs sid title startTime mediaType now;
     (case current of
        Some c \<Rightarrow> if IsLive c then do { _ \<leftarrow> sql (SetStreamLive (Key cs) (StreamID c) False); ret () } else ret ()
      | None \<Rightarrow> ret ());
     r \<leftarrow> sql (UpsertStream newStream);
     (case r of
        Inl e \<Rightarrow> ret False
      | Inr _ \<Rightarrow> do {
          alert (\<lambda>now. NotifyStreamStart (lower app) (Discord app) now (Key cs) sid title startTime);
          applyRetention app cs sid;
          r \<leftarrow> sql (GetPastStreams (Key cs) sid);
          (case r of Inl e \<Rightarrow> ret () | Inr ps \<Rightarrow> broadcast (Key cs) (EventPastStreams ps));
          announce app cs (new_stream_event app newStream) }) }"

definition activateStream ::
  "'b app \<Rightarrow> channel \<Rightarrow> string \<Rightarrow> string \<Rightarrow> string \<Rightarrow> string \<Rightarrow> ('b, bool) act" where
  "activateStream app cs sid title startTime mediaType = do {
     r \<leftarrow> sql (GetRecentStream (Key cs));
     (case r of
        Inl e \<Rightarrow> ret False
      | Inr current \<Rightarrow>
          (case current of
             None \<Rightarrow> start_stream app cs current sid title startTime mediaType
           | Some c \<Rightarrow>
               (if StreamID c \<noteq> sid then start_stream app cs current sid title startTime mediaType
                else if \<not> IsLive c then do {
                  r \<leftarrow> sql (SetStreamLive (Key cs) (StreamID c) True);
                  (case r of Inl e \<Rightarrow> ret False | Inr _ \<Rightarrow> announce app cs (status_event c True)) }
                else ret False))) }"

definition deactivateStream :: "'b app \<Rightarrow> channel \<Rightarrow> string \<Rightarrow> ('b, bool) act" where
  "deactivateStream app cs sid = do {
     r \<leftarrow> sql (GetRecentStream (Key cs));
     (case r of
        Inl e \<Rightarrow> ret False
      | Inr None \<Rightarrow> ret False
      | Inr (Some c) \<Rightarrow>
          (if StreamID c \<noteq> sid \<or> \<not> IsLive c then ret False
           else do {
             gauge_Delete (Key cs) (StreamID c) (StreamTitle c);
             r \<leftarrow> sql (SetStreamLive (Key cs) sid False);
             (case r of Inl e \<Rightarrow> ret False | Inr _ \<Rightarrow> announce app cs (status_event c False)) })) }"

definition removeStream :: "'b app \<Rightarrow> channel \<Rightarrow> stream \<Rightarrow> bool \<Rightarrow> ('b, unit res) act" where
  "removeStream app cs s deleteMedia = do {
     r \<leftarrow> sql (DeleteStreamCascade (Key cs) (StreamID s));
     (case r of
        Inl e \<Rightarrow> ret (Inl (if isClientGone e then e else ErrOther (''delete stream: '' @ err_text e)))
      | Inr _ \<Rightarrow> do {
          modify (\<lambda>w. w\<lparr>vods := vod_forget (Key cs) (StreamID s) (vods w)\<rparr>);
          (if StreamTitle s \<noteq> [] then gauge_Delete (Key cs) (StreamID s) (StreamTitle s) else ret ());
          broadcast (Key cs) (EventDeletedStream \<lparr>ds_StreamID = StreamID s, ds_StreamTitle = StreamTitle s,
            ds_WasLive = IsLive s\<rparr>);
          (if deleteMedia then deleteStreamStorageAsync (Key cs) (StreamID s) else ret ());
          ret (Inr ()) }) }"

text \<open>One of the goroutines \<^verbatim>\<open>deleteStreamStorageAsync\<close> started runs to its end.\<close>

definition run_async_delete :: "'b app \<Rightarrow> string \<Rightarrow> ('b, unit) act" where
  "run_async_delete app k = do {
     _ \<leftarrow> store (st_DeleteFolder (Storage app) k);
     modify (\<lambda>w. w\<lparr>async_deletes := remove1 k (async_deletes w)\<rparr>) }"

end
