(* ===== verification/Merge.thy ===== *)
theory Merge
  imports Lifecycle
begin

text \<open>
  \<^verbatim>\<open>internal/media/merge.go\<close>. The pipeline of \<^verbatim>\<open>MergeRawAudio\<close> (producer, downloaders and writer)
  is a step relation; \<open>MergeRawAudio\<close> itself is the action the handlers call, which runs the
  pipeline on the schedule where each chunk is downloaded when the writer asks for it.
\<close>

section \<open>The action\<close>

definition wrap :: "string \<Rightarrow> gerr \<Rightarrow> gerr" where
  "wrap msg e = (if isClientGone e then e else ErrOther (msg @ err_text e))"

definition downloadChunk ::
  "'b stores storage \<Rightarrow> string \<Rightarrow> string \<Rightarrow> string \<Rightarrow> string \<Rightarrow> nat \<Rightarrow> ('b, string res) act" where
  "downloadChunk st downloadDir ch sid fileID i = do {
     let key = RawKey ch sid fileID;
     r \<leftarrow> store (st_Get st key);
     (case r of
        Inl e \<Rightarrow> ret (Inl (wrap (''failed to get raw file '' @ key @ '': '') e))
      | Inr content \<Rightarrow> do {
          let tempPath = path_join [downloadDir, nat_digits i @ ''_'' @ fileID @ ''.raw''];
          r \<leftarrow> os (os_Create tempPath);
          (case r of
             Inl e \<Rightarrow> ret (Inl (wrap (''failed to create temp file '' @ tempPath @ '': '') e))
           | Inr _ \<Rightarrow> do {
               r \<leftarrow> os (io_Copy tempPath content);
               (case r of
                  Inl e \<Rightarrow> do { _ \<leftarrow> os os_Close; ret (Inl (wrap (''failed to write temp file '' @ tempPath @ '': '') e)) }
                | Inr _ \<Rightarrow> do {
                    r \<leftarrow> os os_Close;
                    (case r of
                       Inl e \<Rightarrow> ret (Inl (wrap (''failed to close temp file '' @ tempPath @ '': '') e))
                     | Inr _ \<Rightarrow> ret (Inr tempPath)) }) }) }) }"

text \<open>The writer: append the chunks in order, deleting each once it is appended.\<close>

definition append_chunk :: "string \<Rightarrow> string \<Rightarrow> ('b, unit res) act" where
  "append_chunk merged p = do {
     r \<leftarrow> os (os_Open p);
     (case r of
        Inl e \<Rightarrow> ret (Inl (ErrOther (''failed to open chunk '' @ p @ '' for merging: '' @ err_text e)))
      | Inr x \<Rightarrow> do {
          r \<leftarrow> os (io_Copy merged x);
          (case r of
             Inl e \<Rightarrow> ret (Inl (ErrOther (''failed to append chunk '' @ p @ '' to merged file: '' @ err_text e)))
           | Inr _ \<Rightarrow> do { _ \<leftarrow> os (os_Remove p); ret (Inr ()) }) }) }"

fun write_chunks ::
  "'b stores storage \<Rightarrow> string \<Rightarrow> string \<Rightarrow> string \<Rightarrow> string \<Rightarrow> nat \<Rightarrow> string list \<Rightarrow> ('b, unit res) act" where
  "write_chunks st downloadDir ch sid merged i [] = ret (Inr ())"
| "write_chunks st downloadDir ch sid merged i (f # fs) = do {
     r \<leftarrow> downloadChunk st downloadDir ch sid f i;
     (case r of
        Inl e \<Rightarrow> ret (Inl e)
      | Inr p \<Rightarrow> do {
          r \<leftarrow> append_chunk merged p;
          (case r of
             Inl e \<Rightarrow> ret (Inl e)
           | Inr _ \<Rightarrow> write_chunks st downloadDir ch sid merged (Suc i) fs) }) }"

definition MergeRawAudio ::
  "'b stores storage \<Rightarrow> string \<Rightarrow> string \<Rightarrow> string \<Rightarrow> string list \<Rightarrow> string \<Rightarrow> ('b, string res) act" where
  "MergeRawAudio st tempDir ch sid fileIDs outputName =
     (if fileIDs = [] then ret (Inl (ErrOther ''no files to merge''))
      else do {
        let merged = path_join [tempDir, outputName @ ''.raw''];
        r \<leftarrow> os (os_Create merged);
        (case r of
           Inl e \<Rightarrow> ret (Inl (ErrOther (''failed to create merged file: '' @ err_text e)))
         | Inr _ \<Rightarrow> do {
             r \<leftarrow> os (os_MkdirTemp tempDir (''merge_'' @ outputName @ ''_''));
             (case r of
                Inl e \<Rightarrow> do {
                  _ \<leftarrow> os os_Close;
                  _ \<leftarrow> os (os_Remove merged);
                  ret (Inl (ErrOther (''failed to create temp dir for merge: '' @ err_text e))) }
              | Inr downloadDir \<Rightarrow> do {
                  r \<leftarrow> write_chunks st downloadDir ch sid merged 0 fileIDs;
                  _ \<leftarrow> os (os_RemoveAll downloadDir);
                  _ \<leftarrow> os os_Close;
                  (case r of
                     Inl e \<Rightarrow> do { _ \<leftarrow> os (os_Remove merged); ret (Inl e) }
                   | Inr _ \<Rightarrow> ret (Inr merged)) }) }) })"

section \<open>The pipeline\<close>

text \<open>
  \<open>m_next\<close> is the producer's position, \<open>m_slots\<close> the slots taken, \<open>m_running\<close> the downloads in
  flight, \<open>m_results\<close> the buffered hand-offs, \<open>m_scratch\<close> the chunk files that may be on disk,
  \<open>m_pos\<close> the writer's position and \<open>m_out\<close> the merged file. \<open>m_stop\<close> is the cancellation of the
  download context, \<open>m_ctx\<close> that of the caller's. A writer is at the head of its loop, waiting for
  its chunk, about to release the slot, aborting, waiting for the goroutines, or has returned.
\<close>

definition mergeConcurrency :: nat where "mergeConcurrency = 32"

datatype writer_pc = Head | Receiving | Releasing | Aborting gerr | Draining | Returned "string res"

record merge_sys =
  m_next :: nat
  m_producing :: bool
  m_slots :: nat
  m_running :: "nat set"
  m_results :: "nat \<Rightarrow> string res option"
  m_scratch :: "nat set"
  m_pos :: nat
  m_out :: string
  m_stop :: bool
  m_ctx :: bool
  m_pc :: writer_pc

definition merge_start :: merge_sys where
  "merge_start = \<lparr>m_next = 0, m_producing = True, m_slots = 0, m_running = {}, m_results = (\<lambda>_. None),
     m_scratch = {}, m_pos = 0, m_out = [], m_stop = False, m_ctx = False, m_pc = Head\<rparr>"

text \<open>
  A job is the number of chunks, what downloading each one yields, the error, if any, of appending it,
  and whether removing its file, and in the end the whole directory, works: the code ignores the errors
  of both. A download in a cancelled context may fail with the cancellation instead.
\<close>

record merge_job =
  j_chunks :: nat
  j_fetch :: "nat \<Rightarrow> string res"
  j_append :: "nat \<Rightarrow> gerr option"
  j_remove :: "nat \<Rightarrow> bool"
  j_remove_all :: bool

definition swept_scratch :: "merge_job \<Rightarrow> nat set \<Rightarrow> nat set" where
  "swept_scratch j scratch = (if j_remove_all j then {} else scratch)"

inductive merge_step :: "merge_job \<Rightarrow> merge_sys \<Rightarrow> merge_sys \<Rightarrow> bool" for j :: merge_job where
  launch: "m_producing s \<Longrightarrow> m_next s < j_chunks j \<Longrightarrow> m_slots s < mergeConcurrency \<Longrightarrow>
     merge_step j s (s\<lparr>m_next := Suc (m_next s), m_slots := Suc (m_slots s),
       m_running := insert (m_next s) (m_running s), m_scratch := insert (m_next s) (m_scratch s)\<rparr>)"
| produced: "m_producing s \<Longrightarrow> m_next s = j_chunks j \<or> m_stop s \<Longrightarrow> merge_step j s (s\<lparr>m_producing := False\<rparr>)"
| download: "i \<in> m_running s \<Longrightarrow> r = j_fetch j i \<or> m_stop s \<and> r = Inl ErrCanceled \<Longrightarrow>
     merge_step j s (s\<lparr>m_running := m_running s - {i}, m_results := (m_results s)(i \<mapsto> r)\<rparr>)"
| next_chunk: "m_pc s = Head \<Longrightarrow> \<not> m_ctx s \<Longrightarrow> m_pos s < j_chunks j \<Longrightarrow> merge_step j s (s\<lparr>m_pc := Receiving\<rparr>)"
| saw_cancel: "m_pc s = Head \<and> m_pos s < j_chunks j \<or> m_pc s = Receiving \<Longrightarrow> m_ctx s \<Longrightarrow>
     merge_step j s (s\<lparr>m_pc := Aborting ErrCanceled, m_stop := True\<rparr>)"
| fetch_failed: "m_pc s = Receiving \<Longrightarrow> m_results s (m_pos s) = Some (Inl e) \<Longrightarrow>
     merge_step j s (s\<lparr>m_pc := Aborting e, m_stop := True\<rparr>)"
| append_failed: "m_pc s = Receiving \<Longrightarrow> m_results s (m_pos s) = Some (Inr x) \<Longrightarrow> j_append j (m_pos s) = Some e \<Longrightarrow>
     merge_step j s (s\<lparr>m_pc := Aborting e, m_stop := True\<rparr>)"
| append: "m_pc s = Receiving \<Longrightarrow> m_results s (m_pos s) = Some (Inr x) \<Longrightarrow> j_append j (m_pos s) = None \<Longrightarrow>
     merge_step j s (s\<lparr>m_pc := Releasing, m_out := m_out s @ x, m_scratch := (if j_remove j (m_pos s) then m_scratch s - {m_pos s} else m_scratch s)\<rparr>)"
| release: "m_pc s = Releasing \<Longrightarrow>
     merge_step j s (s\<lparr>m_pc := Head, m_pos := Suc (m_pos s), m_slots := m_slots s - 1\<rparr>)"
| written: "m_pc s = Head \<Longrightarrow> m_pos s = j_chunks j \<Longrightarrow> merge_step j s (s\<lparr>m_pc := Draining\<rparr>)"
| finish: "m_pc s = Draining \<Longrightarrow> \<not> m_producing s \<Longrightarrow> m_running s = {} \<Longrightarrow>
     merge_step j s (s\<lparr>m_pc := Returned (Inr (m_out s)), m_scratch := swept_scratch j (m_scratch s)\<rparr>)"
| give_up: "m_pc s = Aborting e \<Longrightarrow> \<not> m_producing s \<Longrightarrow> m_running s = {} \<Longrightarrow>
     merge_step j s (s\<lparr>m_pc := Returned (Inl e), m_scratch := swept_scratch j (m_scratch s)\<rparr>)"
| cancel: "\<not> m_ctx s \<Longrightarrow> merge_step j s (s\<lparr>m_ctx := True, m_stop := True\<rparr>)"

inductive merge_reachable :: "merge_job \<Rightarrow> merge_sys \<Rightarrow> bool" for j :: merge_job where
  start: "merge_reachable j merge_start"
| more: "merge_reachable j s \<Longrightarrow> merge_step j s s' \<Longrightarrow> merge_reachable j s'"

section \<open>The sequential merge and the invariant\<close>

definition chunk_result :: "merge_job \<Rightarrow> nat \<Rightarrow> string res" where
  "chunk_result j i =
     (case j_fetch j i of Inl e \<Rightarrow> Inl e
      | Inr x \<Rightarrow> (case j_append j i of Some e \<Rightarrow> Inl e | None \<Rightarrow> Inr x))"

fun seq_merge :: "merge_job \<Rightarrow> nat \<Rightarrow> string res" where
  "seq_merge j 0 = Inr []"
| "seq_merge j (Suc n) =
     (case seq_merge j n of Inl e \<Rightarrow> Inl e
      | Inr out \<Rightarrow> (case chunk_result j n of Inl e \<Rightarrow> Inl e | Inr x \<Rightarrow> Inr (out @ x)))"

lemma seq_merge_Inl_mono: "seq_merge j k = Inl e \<Longrightarrow> k \<le> n \<Longrightarrow> seq_merge j n = Inl e"
  by (induction n) (auto simp: le_Suc_eq)

definition merged_upto :: "merge_sys \<Rightarrow> nat" where
  "merged_upto s = (if m_pc s = Releasing then Suc (m_pos s) else m_pos s)"

definition inv_count :: "merge_job \<Rightarrow> merge_sys \<Rightarrow> bool" where
  "inv_count j s \<longleftrightarrow> m_pos s \<le> m_next s \<and> m_next s \<le> j_chunks j \<and> m_slots s = m_next s - m_pos s \<and>
     m_slots s \<le> mergeConcurrency \<and> (m_pc s = Receiving \<longrightarrow> m_pos s < j_chunks j) \<and>
     (m_pc s = Releasing \<longrightarrow> m_pos s < m_next s)"

definition inv_chunks :: "merge_job \<Rightarrow> merge_sys \<Rightarrow> bool" where
  "inv_chunks j s \<longleftrightarrow> m_running s \<subseteq> {..<m_next s} \<and>
     (\<forall>i. m_results s i \<noteq> None \<longrightarrow> i < m_next s \<and> i \<notin> m_running s) \<and>
     (\<forall>i < m_next s. i \<in> m_running s \<or> m_results s i \<noteq> None) \<and>
     (\<forall>i \<in> m_scratch s. j_remove j i \<longrightarrow> merged_upto s \<le> i \<and> i < m_next s)"

definition inv_value :: "merge_job \<Rightarrow> merge_sys \<Rightarrow> bool" where
  "inv_value j s \<longleftrightarrow> seq_merge j (merged_upto s) = Inr (m_out s) \<and>
     (\<forall>i r. m_results s i = Some r \<longrightarrow> r = j_fetch j i \<or> m_stop s \<and> r = Inl ErrCanceled)"

definition inv_control :: "merge_job \<Rightarrow> merge_sys \<Rightarrow> bool" where
  "inv_control j s \<longleftrightarrow> (m_ctx s \<longrightarrow> m_stop s) \<and> (\<not> m_producing s \<longrightarrow> m_next s = j_chunks j \<or> m_stop s) \<and>
     (case m_pc s of
        Aborting e \<Rightarrow> m_stop s \<and> (seq_merge j (j_chunks j) = Inl e \<or> m_ctx s \<and> e = ErrCanceled)
      | Returned r \<Rightarrow> m_running s = {} \<and> \<not> m_producing s \<and> (j_remove_all j \<longrightarrow> m_scratch s = {}) \<and>
          (seq_merge j (j_chunks j) = r \<or> m_ctx s \<and> r = Inl ErrCanceled)
      | Draining \<Rightarrow> m_pos s = j_chunks j \<and> (m_stop s \<longrightarrow> m_ctx s)
      | _ \<Rightarrow> m_stop s \<longrightarrow> m_ctx s)"

definition merge_inv :: "merge_job \<Rightarrow> merge_sys \<Rightarrow> bool" where
  "merge_inv j s \<longleftrightarrow> inv_count j s \<and> inv_chunks j s \<and> inv_value j s \<and> inv_control j s"

lemmas merge_inv_parts = merge_inv_def inv_count_def inv_chunks_def inv_value_def inv_control_def merged_upto_def

lemma inv_count_step: "merge_inv j s \<Longrightarrow> merge_step j s s' \<Longrightarrow> inv_count j s'"
  unfolding merge_inv_def inv_count_def inv_chunks_def
  by (erule merge_step.cases) (auto simp: Suc_le_eq)

lemma inv_chunks_step:
  assumes "merge_inv j s" "merge_step j s s'"
  shows "inv_chunks j s'"
  using assms(2,1)
proof cases
  case (append x)
  have "m_pos s < i" if "m_pos s \<le> i" "j_remove j i" "\<not> j_remove j (m_pos s)" for i
    using that le_neq_implies_less by blast
  with append assms(1) show ?thesis
    by (auto simp: merge_inv_def inv_chunks_def merged_upto_def less_Suc_eq Suc_le_eq)
qed (auto simp: merge_inv_def inv_count_def inv_chunks_def merged_upto_def less_Suc_eq swept_scratch_def split: if_splits)

lemma received:
  assumes "merge_inv j s" "m_pc s = Receiving" "m_results s (m_pos s) = Some r"
  shows "r = j_fetch j (m_pos s) \<or> m_ctx s \<and> r = Inl ErrCanceled"
    and "seq_merge j (m_pos s) = Inr (m_out s)" and "m_pos s < j_chunks j"
proof -
  from assms have "r = j_fetch j (m_pos s) \<or> m_stop s \<and> r = Inl ErrCanceled" "m_stop s \<longrightarrow> m_ctx s"
    by (simp_all add: merge_inv_def inv_value_def inv_control_def)
  then show "r = j_fetch j (m_pos s) \<or> m_ctx s \<and> r = Inl ErrCanceled" by blast
  from assms show "seq_merge j (m_pos s) = Inr (m_out s)" "m_pos s < j_chunks j"
    by (simp_all add: merge_inv_def inv_value_def inv_count_def merged_upto_def)
qed

lemma inv_value_step:
  assumes "merge_inv j s" "merge_step j s s'"
  shows "inv_value j s'"
  using assms(2,1)
proof cases
  case (append x)
  with received [OF assms(1) append(2,3)] assms(1) show ?thesis
    by (auto simp: merge_inv_def inv_value_def merged_upto_def chunk_result_def split: sum.splits)
qed (auto simp: merge_inv_def inv_value_def merged_upto_def)

lemma fetch_failure:
  assumes "merge_inv j s" "m_pc s = Receiving" "m_results s (m_pos s) = Some (Inl e)"
  shows "seq_merge j (j_chunks j) = Inl e \<or> m_ctx s \<and> e = ErrCanceled"
proof (cases "m_ctx s \<and> e = ErrCanceled")
  case False
  note r = received [OF assms]
  from r(1) False have "j_fetch j (m_pos s) = Inl e" by auto
  with r(2) have "seq_merge j (Suc (m_pos s)) = Inl e" by (simp add: chunk_result_def)
  with r(3) seq_merge_Inl_mono show ?thesis by (metis Suc_leI)
qed simp

lemma append_failure:
  assumes "merge_inv j s" "m_pc s = Receiving" "m_results s (m_pos s) = Some (Inr x)" "j_append j (m_pos s) = Some e"
  shows "seq_merge j (j_chunks j) = Inl e"
proof -
  note r = received [OF assms(1-3)]
  from r(1) have "j_fetch j (m_pos s) = Inr x" by auto
  with r(2) assms(4) have "seq_merge j (Suc (m_pos s)) = Inl e" by (simp add: chunk_result_def)
  with r(3) seq_merge_Inl_mono show ?thesis by (metis Suc_leI)
qed

lemma inv_control_step:
  assumes "merge_inv j s" "merge_step j s s'"
  shows "inv_control j s'"
  using assms(2,1)
proof cases
  case (fetch_failed e)
  with fetch_failure [OF assms(1) fetch_failed(2,3)] assms(1) show ?thesis
    by (auto simp: merge_inv_def inv_control_def)
next
  case (append_failed x e)
  with append_failure [OF assms(1) append_failed(2-4)] assms(1) show ?thesis
    by (auto simp: merge_inv_def inv_control_def)
next
  case (finish)
  with assms(1) have "m_pos s = j_chunks j" by (simp add: merge_inv_def inv_control_def)
  moreover have "seq_merge j (m_pos s) = Inr (m_out s)"
    using finish assms(1) by (simp add: merge_inv_def inv_value_def merged_upto_def)
  ultimately have "seq_merge j (j_chunks j) = Inr (m_out s)" by simp
  with finish assms(1) show ?thesis by (simp add: merge_inv_def inv_control_def swept_scratch_def)
qed (use assms(1) in \<open>cases "m_pc s"; auto simp: merge_inv_def inv_control_def inv_count_def swept_scratch_def\<close>)+

lemma merge_reachable_inv: "merge_reachable j s \<Longrightarrow> merge_inv j s"
proof (induction rule: merge_reachable.induct)
  case start
  show ?case by (simp add: merge_inv_parts merge_start_def)
next
  case (more s s')
  show ?case
    using inv_count_step [OF more.IH more.hyps(2)] inv_chunks_step [OF more.IH more.hyps(2)]
      inv_value_step [OF more.IH more.hyps(2)] inv_control_step [OF more.IH more.hyps(2)]
    by (simp add: merge_inv_def)
qed

section \<open>Bounded scratch space, the sequential result, and termination\<close>

lemma merge_scratch_bound: "merge_inv j s \<Longrightarrow> card (m_scratch s \<inter> {i. j_remove j i}) \<le> mergeConcurrency"
proof -
  assume inv: "merge_inv j s"
  then have "m_scratch s \<inter> {i. j_remove j i} \<subseteq> {m_pos s..<m_next s}"
    by (auto simp: merge_inv_def inv_chunks_def merged_upto_def split: if_splits)
  then have "card (m_scratch s \<inter> {i. j_remove j i}) \<le> m_next s - m_pos s"
    using card_mono [of "{m_pos s..<m_next s}"] by fastforce
  with inv show ?thesis by (simp add: merge_inv_def inv_count_def)
qed

text \<open>
  C6. Whatever the interleaving of the producer, the parallel downloads and the writer, a merge never
  has more than 32 chunk files on disk, beside those the operating system refused to remove; when it
  returns, no download is running any more and the scratch files are gone, unless their directory could
  not be removed; and what it returns is what appending the chunks one after the other gives
  (their contents in order, or the error of the first failing chunk), unless the caller cancelled.
\<close>

theorem merge_pipeline_sequential:
  assumes "merge_reachable j s"
  shows "card (m_scratch s \<inter> {i. j_remove j i}) \<le> 32 \<and>
    (\<forall>r. m_pc s = Returned r \<longrightarrow> m_running s = {} \<and> (j_remove_all j \<longrightarrow> m_scratch s = {}) \<and>
       (r = seq_merge j (j_chunks j) \<or> m_ctx s \<and> r = Inl ErrCanceled))"
  using merge_reachable_inv [OF assms] merge_scratch_bound [of j s]
  by (auto simp: merge_inv_def inv_control_def mergeConcurrency_def)

definition one_chunk :: merge_job where
  "one_chunk = \<lparr>j_chunks = 1, j_fetch = (\<lambda>_. Inr ''ab''), j_append = (\<lambda>_. None),
     j_remove = (\<lambda>_. True), j_remove_all = True\<rparr>"

definition one_chunk_at :: "bool \<Rightarrow> nat \<Rightarrow> nat set \<Rightarrow> (nat \<Rightarrow> string res option) \<Rightarrow> nat set \<Rightarrow> nat \<Rightarrow> string
    \<Rightarrow> writer_pc \<Rightarrow> merge_sys" where
  "one_chunk_at producing slots running results scratch pos out wp =
     \<lparr>m_next = 1, m_producing = producing, m_slots = slots, m_running = running, m_results = results,
      m_scratch = scratch, m_pos = pos, m_out = out, m_stop = False, m_ctx = False, m_pc = wp\<rparr>"

lemma one_chunk_run: "\<exists>s. merge_reachable one_chunk s \<and> m_pc s = Returned (Inr ''ab'')"
proof -
  let ?at = one_chunk_at and ?got = "[0 \<mapsto> Inr ''ab''] :: nat \<Rightarrow> string res option"
  note defs = swept_scratch_def one_chunk_def one_chunk_at_def merge_start_def mergeConcurrency_def
  note go = merge_reachable.more
  have "merge_reachable one_chunk (?at True 1 {0} (\<lambda>_. None) {0} 0 [] Head)"
    using go [OF merge_reachable.start merge_step.launch, of one_chunk] by (simp add: defs)
  then have "merge_reachable one_chunk (?at True 1 {} ?got {0} 0 [] Head)"
    using go [OF _ merge_step.download [of 0 _ "Inr ''ab''"], of one_chunk] by (fastforce simp: defs)
  then have "merge_reachable one_chunk (?at True 1 {} ?got {0} 0 [] Receiving)"
    using go [OF _ merge_step.next_chunk, of one_chunk] by (fastforce simp: defs)
  then have "merge_reachable one_chunk (?at True 1 {} ?got {} 0 ''ab'' Releasing)"
    using go [OF _ merge_step.append [of _ "''ab''"], of one_chunk] by (fastforce simp: defs)
  then have "merge_reachable one_chunk (?at True 0 {} ?got {} 1 ''ab'' Head)"
    using go [OF _ merge_step.release, of one_chunk] by (fastforce simp: defs)
  then have "merge_reachable one_chunk (?at False 0 {} ?got {} 1 ''ab'' Head)"
    using go [OF _ merge_step.produced, of one_chunk] by (fastforce simp: defs)
  then have "merge_reachable one_chunk (?at False 0 {} ?got {} 1 ''ab'' Draining)"
    using go [OF _ merge_step.written, of one_chunk] by (fastforce simp: defs)
  then have "merge_reachable one_chunk (?at False 0 {} ?got {} 1 ''ab'' (Returned (Inr ''ab'')))"
    using go [OF _ merge_step.finish, of one_chunk] by (fastforce simp: defs)
  then show ?thesis by (auto simp: one_chunk_at_def)
qed

theorem merge_pipeline_sequential_witness:
  "\<exists>s. merge_reachable one_chunk s \<and> m_pc s = Returned (seq_merge one_chunk 1) \<and> m_scratch s = {}"
proof -
  obtain s where s: "merge_reachable one_chunk s" "m_pc s = Returned (Inr ''ab'')"
    using one_chunk_run by blast
  from merge_pipeline_sequential [OF s(1)] s(2)
  have "Inr ''ab'' = seq_merge one_chunk 1" "m_scratch s = {}" by (simp_all add: one_chunk_def)
  with s show ?thesis by metis
qed

fun writer_left :: "nat \<Rightarrow> writer_pc \<Rightarrow> nat" where
  "writer_left k Head = 3 * k + 5"
| "writer_left k Receiving = 3 * k + 4"
| "writer_left k Releasing = 3 * k + 3"
| "writer_left k (Aborting e) = 1"
| "writer_left k Draining = 1"
| "writer_left k (Returned r) = 0"

definition merge_left :: "merge_job \<Rightarrow> merge_sys \<Rightarrow> nat" where
  "merge_left j s = 2 * (j_chunks j - m_next s) + of_bool (m_producing s) + card (m_running s)
     + writer_left (j_chunks j - m_pos s) (m_pc s) + of_bool (\<not> m_ctx s)"

lemma merge_step_decreases:
  assumes "merge_inv j s" "merge_step j s s'"
  shows "merge_left j s' < merge_left j s"
proof -
  have fin: "finite (m_running s)" and nin: "m_next s \<notin> m_running s"
    using assms(1) by (auto simp: merge_inv_def inv_chunks_def intro: finite_subset)
  from assms(2,1) show ?thesis
  proof cases
    case launch
    with fin nin show ?thesis by (simp add: merge_left_def)
  next
    case (download i r)
    then have "card (m_running s - {i}) < card (m_running s)" using fin by (intro card_Diff1_less)
    with download show ?thesis by (simp add: merge_left_def)
  next
    case release
    with assms(1) have "m_pos s < j_chunks j" by (simp add: merge_inv_def inv_count_def)
    with release show ?thesis by (simp add: merge_left_def)
  qed (auto simp: merge_left_def)
qed

definition merge_moves :: "merge_job \<Rightarrow> merge_sys \<Rightarrow> bool" where
  "merge_moves j s \<longleftrightarrow> (\<exists>s'. merge_step j s s' \<and> m_ctx s' = m_ctx s)"

lemma moves_download: "i \<in> m_running s \<Longrightarrow> merge_moves j s"
  unfolding merge_moves_def by (rule exI, rule conjI, rule merge_step.download [of i s "j_fetch j i"]) auto

lemma moves_produced: "m_producing s \<Longrightarrow> m_next s = j_chunks j \<or> m_stop s \<Longrightarrow> merge_moves j s"
  unfolding merge_moves_def by (rule exI, rule conjI, rule merge_step.produced) auto

lemma moves_head:
  assumes "merge_inv j s" "m_pc s = Head"
  shows "merge_moves j s"
proof -
  from assms have "m_pos s \<le> j_chunks j" by (simp add: merge_inv_def inv_count_def)
  then consider "m_pos s = j_chunks j" | "m_pos s < j_chunks j" "m_ctx s" | "m_pos s < j_chunks j" "\<not> m_ctx s"
    by linarith
  then show ?thesis unfolding merge_moves_def
    by cases (use assms(2) in \<open>fastforce dest: merge_step.written, fastforce intro: merge_step.saw_cancel,
        fastforce intro: merge_step.next_chunk\<close>)
qed

lemma moves_receiving:
  assumes inv: "merge_inv j s" and pc: "m_pc s = Receiving"
  shows "merge_moves j s"
proof (cases "m_results s (m_pos s)")
  case (Some r)
  note a = merge_step.fetch_failed [OF pc] merge_step.append_failed [OF pc] merge_step.append [OF pc]
  show ?thesis unfolding merge_moves_def
    by (cases r; cases "j_append j (m_pos s)") (use Some a in fastforce)+
next
  case None
  show ?thesis
  proof (cases "m_pos s < m_next s")
    case True
    with None inv have "m_pos s \<in> m_running s" by (auto simp: merge_inv_def inv_chunks_def)
    then show ?thesis by (rule moves_download)
  next
    case False
    with inv pc have c: "m_next s < j_chunks j" "m_slots s < mergeConcurrency"
      "m_producing s \<or> m_stop s" "m_stop s \<longrightarrow> m_ctx s"
      by (auto simp: merge_inv_def inv_count_def inv_control_def mergeConcurrency_def)
    show ?thesis
    proof (cases "m_producing s")
      case True
      from merge_step.launch [OF this c(1,2)] show ?thesis unfolding merge_moves_def by fastforce
    next
      case False
      with c have "m_ctx s" by blast
      from merge_step.saw_cancel [OF _ this, of j] pc show ?thesis unfolding merge_moves_def using \<open>m_ctx s\<close> by fastforce
    qed
  qed
qed

lemma merge_progress:
  assumes inv: "merge_inv j s" and busy: "\<And>r. m_pc s \<noteq> Returned r"
  shows "merge_moves j s"
proof (cases "m_running s = {}")
  case False
  then show ?thesis using moves_download by blast
next
  case idle: True
  show ?thesis
  proof (cases "m_pc s")
    case Releasing
    from merge_step.release [OF this, of j] show ?thesis unfolding merge_moves_def by fastforce
  next
    case (Aborting e)
    with inv have "m_stop s" by (simp add: merge_inv_def inv_control_def)
    then show ?thesis using moves_produced merge_step.give_up [OF Aborting _ idle, of j]
      unfolding merge_moves_def by (cases "m_producing s") fastforce+
  next
    case Draining
    with inv have "m_next s = j_chunks j" by (auto simp: merge_inv_def inv_control_def inv_count_def)
    then show ?thesis using moves_produced merge_step.finish [OF Draining _ idle, of j]
      unfolding merge_moves_def by (cases "m_producing s") fastforce+
  qed (use moves_head moves_receiving inv busy in auto)
qed

text \<open>
  C22. A merge always returns: every step of the pipeline brings it closer to its end, and until it has
  returned some step other than a cancellation by the caller is possible, so neither the bounded slots
  nor the hand-offs can block it, in the error paths either.
\<close>

theorem merge_always_returns:
  assumes "merge_reachable j s"
  shows "(\<forall>s'. merge_step j s s' \<longrightarrow> merge_left j s' < merge_left j s) \<and>
    ((\<exists>r. m_pc s = Returned r) \<or> (\<exists>s'. merge_step j s s' \<and> m_ctx s' = m_ctx s))"
  using merge_reachable_inv [OF assms] merge_step_decreases merge_progress merge_moves_def by metis

theorem merge_always_returns_witness: "\<exists>s'. merge_step one_chunk merge_start s' \<and> \<not> m_ctx s'"
  using merge_always_returns [OF merge_reachable.start, of one_chunk] by (auto simp: merge_start_def)

end
