(* ===== verification/Worker_Handlers.thy ===== *)
theory Worker_Handlers
  imports Merge
begin

text \<open>
  \<^verbatim>\<open>internal/server/handlers_worker.go\<close>: the requests of the transcription worker, one action per
  handler. Timing logs and the request metrics are left out; the activation gauge is kept.
\<close>

definition bad_request :: "string \<Rightarrow> ('b, response) act" where
  "bad_request msg = ret (http_Error msg 400)"

section \<open>\<^verbatim>\<open>/sync\<close> and \<^verbatim>\<open>/line\<close>\<close>

definition carry_media :: "(int \<times> string) list \<Rightarrow> line \<Rightarrow> line" where
  "carry_media available l =
     (case map_of available (LineID l) of
        None \<Rightarrow> l | Some f \<Rightarrow> l\<lparr>MediaAvailable := True, FileID := f\<rparr>)"

definition synced_stream :: "channel \<Rightarrow> worker_data \<Rightarrow> stream" where
  "synced_stream cs data =
     \<lparr>ChannelID = Key cs, StreamID = wd_StreamID data, StreamTitle = wd_StreamTitle data,
      StartTime = wd_StartTime data, IsLive = wd_IsLive data, MediaType = wd_MediaType data, ActivatedTime = 0\<rparr>"

definition syncHandler :: "'b app \<Rightarrow> request \<Rightarrow> channel \<Rightarrow> ('b, response) act" where
  "syncHandler app r cs =
     (case r_Body r of
        SyncPayload data \<Rightarrow>
          (if \<not> isValidID (wd_StreamID data) then bad_request ''Invalid stream ID''
           else do {
             u \<leftarrow> sql (UpsertStream (synced_stream cs data));
             (case u of
                Inl e \<Rightarrow> fail500 app r ''Database error'' e ''failed to upsert stream''
              | Inr _ \<Rightarrow> do {
                  a \<leftarrow> sql (GetLastAvailableMediaFiles (Key cs) (wd_StreamID data) (-1));
                  let available = (case a of Inl e \<Rightarrow> [] | Inr fs \<Rightarrow> fs);
                  t \<leftarrow> sql (ReplaceTranscript (Key cs) (wd_StreamID data) (map (carry_media available) (wd_Transcript data)));
                  (case t of
                     Inl e \<Rightarrow> fail500 app r ''Database error'' e ''failed to replace transcript''
                   | Inr _ \<Rightarrow> do {
                       bumpAdminChange app (Key cs);
                       broadcastNewLine cs (wd_StreamID data) (r_UploadMs r) None;
                       ret (reply 200 (Text ''JSON Sync data received and processed successfully'')) }) }) })
      | _ \<Rightarrow> bad_request ''Error decoding JSON data'')"

definition lineHandler :: "'b app \<Rightarrow> request \<Rightarrow> channel \<Rightarrow> ('b, response) act" where
  "lineHandler app r cs =
     (case r_Body r of
        LinePayload l0 \<Rightarrow>
          (let sid = r_PathValue r ''streamID'' in
           if \<not> isValidID sid then bad_request ''Invalid stream ID''
           else do {
             let l = l0\<lparr>MediaAvailable := False\<rparr>;
             i \<leftarrow> sql (InsertNextLine (Key cs) sid l);
             (case i of
                Inl (ErrOutOfSync _ _) \<Rightarrow> ret (http_Error ''Server out of sync. Send current state.'' 409)
              | Inl e \<Rightarrow> fail500 app r ''Database error'' e ''failed to insert transcript line''
              | Inr _ \<Rightarrow> do {
                  broadcastNewLine cs sid (r_UploadMs r) (Some l);
                  ret (reply 200 (Text ''JSON Line data received and processed successfully'')) }) })
      | _ \<Rightarrow> bad_request ''Error decoding JSON data'')"

section \<open>Media uploads\<close>

definition uploadFile :: "'b app \<Rightarrow> string \<Rightarrow> string \<Rightarrow> ('b, unit res) act" where
  "uploadFile app key path = do {
     f \<leftarrow> os (os_Open path);
     (case f of
        Inl e \<Rightarrow> ret (Inl (wrap (''open '' @ path @ '': '') e))
      | Inr content \<Rightarrow> do {
          i \<leftarrow> os (os_Stat path);
          (case i of
             Inl e \<Rightarrow> ret (Inl (wrap (''stat '' @ path @ '': '') e))
           | Inr _ \<Rightarrow> do {
               s \<leftarrow> store (st_Save (Storage app) key content);
               (case s of
                  Inl e \<Rightarrow> ret (Inl (wrap (''save '' @ key @ '': '') e))
                | Inr _ \<Rightarrow> ret (Inr ())) }) }) }"

text \<open>\<^verbatim>\<open>defer os.Remove(p)\<close> around the rest of a handler.\<close>

definition defer_Remove :: "string \<Rightarrow> ('b, 'a) act \<Rightarrow> ('b, 'a) act" where
  "defer_Remove p act = do { x \<leftarrow> act; _ \<leftarrow> os (os_Remove p); ret x }"

text \<open>\<^verbatim>\<open>time.Sleep\<close>: the clock advances and the other requests do what they do meanwhile.\<close>

definition time_Sleep :: "('b world \<Rightarrow> 'b world) \<Rightarrow> int \<Rightarrow> ('b, unit) act" where
  "time_Sleep others us = modify (\<lambda>w. others (w\<lparr>clock := clock w + us\<rparr>))"

definition upload_frame :: "'b app \<Rightarrow> channel \<Rightarrow> string \<Rightarrow> string \<Rightarrow> string \<Rightarrow> ('b, 'a) act \<Rightarrow> ('b, 'a) act" where
  "upload_frame app cs sid fileID raw rest = do {
     s \<leftarrow> sql (GetStreamByID (Key cs) sid);
     (case s of
        Inr (Some st) \<Rightarrow>
          (if MediaType st = ''video'' then do {
             let jpg = ChangeExtension raw ''.jpg'';
             x \<leftarrow> os (p_ExtractFrame (Media app) raw jpg 480);
             (case x of
                Inl e \<Rightarrow> rest
              | Inr _ \<Rightarrow> defer_Remove jpg (do {
                  _ \<leftarrow> uploadFile app (FrameKey (Key cs) sid fileID) jpg;
                  rest })) }
           else rest)
      | _ \<Rightarrow> rest) }"

definition mark_available ::
  "'b app \<Rightarrow> ('b world \<Rightarrow> 'b world) \<Rightarrow> request \<Rightarrow> channel \<Rightarrow> string \<Rightarrow> int \<Rightarrow> string \<Rightarrow> ('b, response) act" where
  "mark_available app others r cs sid lid fileID = do {
     m \<leftarrow> sql (SetMediaAvailable (Key cs) sid lid fileID True);
     m \<leftarrow> (if m = Inl ErrNotFound then do {
             time_Sleep others 500000;
             sql (SetMediaAvailable (Key cs) sid lid fileID True) }
           else ret m);
     (case m of
        Inl e \<Rightarrow> fail500 app r ''Database error'' e ''failed to set media available''
      | Inr _ \<Rightarrow> do {
          fs \<leftarrow> sql (GetLastAvailableMediaFiles (Key cs) sid 100);
          broadcastNewMedia cs sid (case fs of Inl e \<Rightarrow> [(lid, fileID)] | Inr fl \<Rightarrow> fl);
          ret (reply 200 (Text ''Media received and processed successfully'')) }) }"

definition process_media ::
  "'b app \<Rightarrow> ('b world \<Rightarrow> 'b world) \<Rightarrow> request \<Rightarrow> channel \<Rightarrow> string \<Rightarrow> int \<Rightarrow> string \<Rightarrow> ('b, response) act" where
  "process_media app others r cs sid lid raw = do {
     let m4a = ChangeExtension raw ''.m4a'';
     c \<leftarrow> os (p_Convert (Media app) raw m4a);
     (case c of
        Inl e \<Rightarrow> fail500 app r ''Unable to convert media'' e ''unable to convert media''
      | Inr _ \<Rightarrow> defer_Remove m4a (do {
          fileID \<leftarrow> new_uuid app;
          u \<leftarrow> uploadFile app (RawKey (Key cs) sid fileID) raw;
          (case u of
             Inl e \<Rightarrow> fail500 app r ''Storage Error'' e ''failed to upload raw file''
           | Inr _ \<Rightarrow> do {
               u \<leftarrow> uploadFile app (AudioKey (Key cs) sid fileID) m4a;
               (case u of
                  Inl e \<Rightarrow> fail500 app r ''Storage Error'' e ''failed to upload m4a file''
                | Inr _ \<Rightarrow> upload_frame app cs sid fileID raw
                    (mark_available app others r cs sid lid fileID)) }) })) }"

definition mediaHandler ::
  "'b app \<Rightarrow> ('b world \<Rightarrow> 'b world) \<Rightarrow> request \<Rightarrow> channel \<Rightarrow> ('b, response) act" where
  "mediaHandler app others r cs =
     (case parse_int (r_PathValue r ''id'') of
        None \<Rightarrow> bad_request ''Invalid ID''
      | Some lid \<Rightarrow>
     (case r_Body r of
        FilePayload content \<Rightarrow>
          (let sid = r_PathValue r ''streamID'' in
           if \<not> isValidID sid then bad_request ''Invalid stream ID''
           else do {
             x \<leftarrow> sql (StreamExists (Key cs) sid);
             (case x of
                Inl e \<Rightarrow> fail500 app r ''Database error'' e ''failed to check stream exists''
              | Inr False \<Rightarrow> ret (http_Error ''Stream not found'' 404)
              | Inr True \<Rightarrow> do {
                  let raw = path_join [TempDir app, Key cs @ ''_'' @ sid @ ''_'' @ format_int lid @ ''.raw''];
                  d \<leftarrow> os (os_Create raw);
                  (case d of
                     Inl e \<Rightarrow> fail500 app r ''Unable to create temp file'' e ''unable to create temp raw file''
                   | Inr _ \<Rightarrow> do {
                       c \<leftarrow> os (io_Copy raw content);
                       _ \<leftarrow> os os_Close;
                       (case c of
                          Inl e \<Rightarrow> do {
                            _ \<leftarrow> os (os_Remove raw);
                            fail500 app r ''Unable to save file'' e ''unable to save temp raw file'' }
                        | Inr _ \<Rightarrow> defer_Remove raw (process_media app others r cs sid lid raw)) }) }) })
      | FormWithoutFile \<Rightarrow> bad_request ''Unable to get file''
      | _ \<Rightarrow> bad_request ''Unable to parse form''))"

section \<open>Activation and heartbeats\<close>

definition activateHandler :: "'b app \<Rightarrow> request \<Rightarrow> channel \<Rightarrow> ('b, response) act" where
  "activateHandler app r cs =
     (let sid = r_Query r ''id''; title = r_Query r ''title''; startTime = r_Query r ''startTime'';
          mediaType = r_Query r ''mediaType''
      in if sid = [] \<or> title = [] \<or> startTime = [] then bad_request ''Missing required parameters''
         else if \<not> isValidID sid then bad_request ''Invalid stream ID''
         else do {
           t \<leftarrow> (case parse_int startTime of Some n \<Rightarrow> ret n | None \<Rightarrow> unix_Now);
           activated \<leftarrow> activateStream app cs sid title (format_int t) mediaType;
           (if activated then do {
              gauge_Set (Key cs) sid title t;
              ret (reply 200 (Text (Key cs @ '' stream successfully activated''))) }
            else ret (reply 208 (Text (Key cs @ '' stream is already activated'')))) })"

definition deactivateHandler :: "'b app \<Rightarrow> request \<Rightarrow> channel \<Rightarrow> ('b, response) act" where
  "deactivateHandler app r cs =
     (let sid = r_Query r ''id'' in
      if \<not> isValidID sid then bad_request ''Invalid stream ID''
      else do {
        deactivated \<leftarrow> deactivateStream app cs sid;
        (if deactivated then ret (reply 200 (Text (Key cs @ '' stream successfully deactivated'')))
         else ret (reply 208 (Text (Key cs @ '' stream was not deactivated'')))) })"

fun upsert_heartbeats :: "worker_status_request \<Rightarrow> int \<Rightarrow> string list \<Rightarrow> ('b, unit) act" where
  "upsert_heartbeats q lastSeen [] = ret ()"
| "upsert_heartbeats q lastSeen (k # ks) = do {
     _ \<leftarrow> sql (UpsertWorkerStatus k (req_Version q) (req_BuildTime q) lastSeen);
     upsert_heartbeats q lastSeen ks }"

definition workerStatusHandler :: "request \<Rightarrow> ('b, response) act" where
  "workerStatusHandler r =
     (case r_Body r of
        HeartbeatPayload q \<Rightarrow> do {
          lastSeen \<leftarrow> unix_Now;
          upsert_heartbeats q lastSeen (req_Keys q);
          ret (reply 200 NoBody) }
      | _ \<Rightarrow> bad_request ''Invalid JSON'')"

definition statuscheckHandler :: "channel \<Rightarrow> ('b, response) act" where
  "statuscheckHandler cs = do {
     n \<leftarrow> gets (\<lambda>w. Connections (hubs w (Key cs)));
     ret (reply 200 (Text (''Current number of clients: '' @ format_int n))) }"

section \<open>The incoming queue and the restart flag\<close>

definition getIncomingHandler :: "'b app \<Rightarrow> request \<Rightarrow> channel \<Rightarrow> ('b, response) act" where
  "getIncomingHandler app r cs = do {
     x \<leftarrow> sql (GetIncomingStreams (Key cs));
     (case x of
        Inl e \<Rightarrow> fail500 app r ''Database error'' e ''failed to get incoming streams''
      | Inr urls \<Rightarrow> ret (writeJSON (JIncoming urls))) }"

definition deleteIncomingHandler :: "'b app \<Rightarrow> request \<Rightarrow> channel \<Rightarrow> ('b, response) act" where
  "deleteIncomingHandler app r cs =
     (let url = r_Query r ''url'' in
      if url = [] then bad_request ''Missing required parameter: url''
      else do {
        x \<leftarrow> sql (DeleteIncomingStream (Key cs) url);
        (case x of
           Inl e \<Rightarrow> fail500 app r ''Database error'' e ''failed to delete incoming stream''
         | Inr n \<Rightarrow>
             (if n = 0 then ret (http_Error ''URL not queued'' 404)
              else do { bumpAdminChange app (Key cs); ret (reply 204 NoBody) })) })"

definition postRestartHandler :: "'b app \<Rightarrow> request \<Rightarrow> channel \<Rightarrow> ('b, response) act" where
  "postRestartHandler app r cs = do {
     now \<leftarrow> unix_Now;
     x \<leftarrow> sql (UpsertRestartRequest (Key cs) now);
     (case x of
        Inl e \<Rightarrow> fail500 app r ''Database error'' e ''failed to upsert restart request''
      | Inr _ \<Rightarrow> do { bumpAdminChange app (Key cs); ret (reply 204 NoBody) }) }"

definition getRestartHandler :: "'b app \<Rightarrow> request \<Rightarrow> channel \<Rightarrow> ('b, response) act" where
  "getRestartHandler app r cs = do {
     x \<leftarrow> sql (GetRestartRequest (Key cs));
     (case x of
        Inl e \<Rightarrow> fail500 app r ''Database error'' e ''failed to get restart request''
      | Inr t \<Rightarrow> ret (writeJSON (JRestart (0 < t) t))) }"

definition deleteRestartHandler :: "'b app \<Rightarrow> request \<Rightarrow> channel \<Rightarrow> ('b, response) act" where
  "deleteRestartHandler app r cs = do {
     x \<leftarrow> sql (DeleteRestartRequest (Key cs));
     (case x of
        Inl e \<Rightarrow> fail500 app r ''Database error'' e ''failed to delete restart request''
      | Inr n \<Rightarrow>
          (if n = 0 then ret (http_Error ''No restart pending'' 404)
           else do { bumpAdminChange app (Key cs); ret (reply 204 NoBody) })) }"

end
