(* ===== verification/Public_Handlers.thy ===== *)
theory Public_Handlers
  imports Worker_Handlers
begin

text \<open>
  \<^verbatim>\<open>internal/server/handlers_public.go\<close>: the endpoints any viewer may call. Play, download and timing
  metrics are left out. \<^verbatim>\<open>http.ServeFile\<close> is the body \<^const>\<open>FileBody\<close> with the path it is given.
\<close>

definition mediaContentTypes :: "(string \<times> string) list" where
  "mediaContentTypes = [(''.m4a'', ''audio/mp4''), (''.mp4'', ''video/mp4''), (''.mp3'', ''audio/mpeg''),
     (''.jpg'', ''image/jpeg'')]"

definition workerActiveWindow :: int where "workerActiveWindow = 300"

definition with_activity :: "int \<Rightarrow> worker_status \<Rightarrow> worker_status" where
  "with_activity now ws = ws\<lparr>IsActive := now - LastSeen ws < workerActiveWindow\<rparr>"

definition getStatusHandler :: "'b app \<Rightarrow> ('b, response) act" where
  "getStatusHandler app = do {
     x \<leftarrow> sql GetAllWorkerStatus;
     (case x of
        Inl e \<Rightarrow> ret (http_Error ''Database Error'' 500)
      | Inr workers \<Rightarrow> do {
          now \<leftarrow> unix_Now;
          ret (writeJSON (JStatus (AppVersion app) (AppBuildTime app) (map (with_activity now) workers))) }) }"

section \<open>Serving files\<close>

definition serve_file :: "(string \<times> string) list \<Rightarrow> string \<Rightarrow> response" where
  "serve_file hs path = \<lparr>code = 200, headers = hs, body = FileBody path\<rparr>"

text \<open>\<^verbatim>\<open>os.Stat\<close> and what the handlers answer for its result.\<close>

definition stat_and_serve ::
  "'b app \<Rightarrow> request \<Rightarrow> string \<Rightarrow> string \<Rightarrow> string \<Rightarrow> (string \<times> string) list \<Rightarrow> ('b, response) act" where
  "stat_and_serve app r path missing msg hs = do {
     s \<leftarrow> os (os_Stat path);
     (case s of
        Inl e \<Rightarrow> (if e = ErrNotExist then ret (http_Error missing 404)
                 else fail500 app r ''Internal Server Error'' e msg)
      | Inr _ \<Rightarrow> ret (serve_file hs path)) }"

definition streamHandler :: "'b app \<Rightarrow> request \<Rightarrow> channel \<Rightarrow> ('b, response) act" where
  "streamHandler app r cs =
     (if \<not> st_IsLocal (Storage app) then bad_request ''Endpoint disabled for remote storage''
      else
       (let filename = r_PathValue r ''filename''; sid = r_PathValue r ''streamID''; mediaType = r_PathValue r ''type'';
            ext = path_ext filename; idStr = trim_suffix filename ext
        in if mediaType \<notin> set [''audio'', ''clips''] then bad_request ''Invalid media type''
           else (case map_of mediaContentTypes ext of
               None \<Rightarrow> bad_request ''Invalid extension''
             | Some contentType \<Rightarrow>
                 (if ext = ''.jpg'' then bad_request ''Invalid extension''
                  else if \<not> isValidID sid \<or> \<not> isValidID idStr then bad_request ''Invalid path''
                  else stat_and_serve app r (path_join [BaseMediaFolder cs, sid, mediaType, idStr @ ext])
                         ''File not found'' ''unable to check file'' [(''Content-Type'', contentType)]))))"

definition getFrameHandler :: "'b app \<Rightarrow> request \<Rightarrow> channel \<Rightarrow> ('b, response) act" where
  "getFrameHandler app r cs =
     (if \<not> st_IsLocal (Storage app) then bad_request ''Endpoint disabled for remote storage''
      else
       (let filename = r_PathValue r ''filename''; sid = r_PathValue r ''streamID'';
            ext = path_ext filename; idStr = trim_suffix filename ext
        in if ext \<noteq> ''.jpg'' then bad_request ''Invalid extension''
           else if \<not> isValidID sid \<or> \<not> isValidID idStr then bad_request ''Invalid path''
           else stat_and_serve app r (path_join [BaseMediaFolder cs, sid, ''frame'', idStr @ ext])
                  ''No frame found'' ''unable to check frame file''
                  [(''Cache-Control'', ''public, max-age=31536000''), (''Content-Type'', ''image/jpeg'')]))"

definition downloadHandler :: "'b app \<Rightarrow> request \<Rightarrow> channel \<Rightarrow> ('b, response) act" where
  "downloadHandler app r cs =
     (if \<not> st_IsLocal (Storage app) then bad_request ''Endpoint disabled for remote storage''
      else
       (let filename = r_PathValue r ''filename''; sid = r_PathValue r ''streamID''; mediaType = r_PathValue r ''type''
        in if mediaType \<notin> set [''audio'', ''clips'', ''frame'', ''vod''] then bad_request ''Invalid media type''
           else if \<not> isValidID sid then bad_request ''Invalid stream ID''
           else do {
             s \<leftarrow> os (os_Stat (path_join [BaseMediaFolder cs, sid]));
             (case s of
                Inl e \<Rightarrow> ret (http_Error ''Stream not found'' 404)
              | Inr _ \<Rightarrow>
                 (let ext = path_ext filename; idStr = trim_suffix filename ext in
                  if \<not> isValidID idStr then bad_request ''Invalid file name''
                  else (case map_of mediaContentTypes ext of
                      None \<Rightarrow> bad_request ''Invalid file extension''
                    | Some contentType \<Rightarrow>
                       (let q = r_Query r ''name'';
                            downloadFilename = (if q \<noteq> [] then sanitize app q @ ext else sid @ ''_'' @ filename)
                        in stat_and_serve app r (path_join [BaseMediaFolder cs, sid, mediaType, idStr @ ext])
                             ''File not found'' ''unable to check file''
                             [(''Content-Disposition'', ''attachment; filename='' @ [CHR 0x22] @ downloadFilename @ [CHR 0x22]),
                              (''Content-Type'', contentType)])))) }))"

section \<open>Transcripts\<close>

text \<open>The age (microseconds) that goes into the histogram, if one does.\<close>

definition observePastStreamAge :: "channel \<Rightarrow> string \<Rightarrow> ('b, int option) act" where
  "observePastStreamAge cs sid = do {
     x \<leftarrow> sql (GetStreamByID (Key cs) sid);
     (case x of
        Inl e \<Rightarrow> ret None
      | Inr None \<Rightarrow> ret None
      | Inr (Some s) \<Rightarrow>
          (if IsLive s \<or> ActivatedTime s \<le> 0 then ret None
           else do {
             now \<leftarrow> time_Now;
             (let age = now - ActivatedTime s in ret (if age < 0 then None else Some age)) })) }"

definition getTranscriptHandler :: "'b app \<Rightarrow> request \<Rightarrow> channel \<Rightarrow> ('b, response) act" where
  "getTranscriptHandler app r cs =
     (let sid = r_PathValue r ''streamID'' in
      if \<not> isValidID sid then bad_request ''Invalid stream ID''
      else do {
        x \<leftarrow> sql (GetTranscript (Key cs) sid);
        (case x of
           Inl e \<Rightarrow> fail500 app r ''Database error'' e ''failed to get transcript''
         | Inr ls \<Rightarrow> do {
             _ \<leftarrow> observePastStreamAge cs sid;
             ret (writeJSON (JTranscript ls)) }) })"

section \<open>Clips\<close>

definition clip_extension :: "string \<Rightarrow> string \<Rightarrow> response + string" where
  "clip_extension mediaType reqType =
     (if reqType = ''mp4'' then
        (if mediaType \<noteq> ''video'' then Inl (http_Error ''Video clipping is disabled for this stream'' 405)
         else Inr ''.mp4'')
      else if reqType = ''mp3'' then Inr ''.mp3''
      else if reqType = ''m4a'' \<or> reqType = [] then Inr ''.m4a''
      else Inl (http_Error ''Invalid media type'' 400))"

definition upload_clip :: "'b app \<Rightarrow> channel \<Rightarrow> string \<Rightarrow> string \<Rightarrow> string \<Rightarrow> string \<Rightarrow> string option \<Rightarrow> ('b, response) act" where
  "upload_clip app cs sid uid ext temp sidecar = do {
     u \<leftarrow> uploadFile app (ClipKey (Key cs) sid uid ext) temp;
     (case u of
        Inl e \<Rightarrow> ret (http_Error ''Storage Error'' 500)
      | Inr _ \<Rightarrow> do {
          _ \<leftarrow> (case sidecar of
                  None \<Rightarrow> ret (Inr ())
                | Some p \<Rightarrow> uploadFile app (ClipKey (Key cs) sid uid ''.m4a'') p);
          ret (writeJSON (JClip uid)) }) }"

definition convert_failed :: "'b app \<Rightarrow> request \<Rightarrow> string \<Rightarrow> gerr \<Rightarrow> ('b, response) act" where
  "convert_failed app r temp e = do {
     _ \<leftarrow> os (os_Remove temp);
     fail500 app r ''Server error'' e ''unable to convert raw media to new extension'' }"

definition render_clip ::
  "'b app \<Rightarrow> request \<Rightarrow> channel \<Rightarrow> string \<Rightarrow> string \<Rightarrow> string \<Rightarrow> string \<Rightarrow> string \<Rightarrow> ('b, response) act" where
  "render_clip app r cs sid reqType uid ext merged =
     (let temp = path_join [TempDir app, uid @ ext] in
      if reqType = ''mp4'' then do {
        c \<leftarrow> os (p_Remux (Media app) merged temp);
        (case c of
           Inl e \<Rightarrow> convert_failed app r temp e
         | Inr _ \<Rightarrow> do {
             let sidecar = path_join [TempDir app, uid @ ''.m4a''];
             s \<leftarrow> os (p_Convert (Media app) merged sidecar);
             (case s of
                Inl e \<Rightarrow> do {
                  _ \<leftarrow> os (os_Remove sidecar);
                  defer_Remove temp (upload_clip app cs sid uid ext temp None) }
              | Inr _ \<Rightarrow> defer_Remove sidecar
                  (defer_Remove temp (upload_clip app cs sid uid ext temp (Some sidecar)))) }) }
      else do {
        c \<leftarrow> os (p_Convert (Media app) merged temp);
        (case c of
           Inl e \<Rightarrow> convert_failed app r temp e
         | Inr _ \<Rightarrow> defer_Remove temp (upload_clip app cs sid uid ext temp None)) })"

definition make_clip ::
  "'b app \<Rightarrow> request \<Rightarrow> channel \<Rightarrow> string \<Rightarrow> int \<Rightarrow> int \<Rightarrow> string \<Rightarrow> string \<Rightarrow> ('b, response) act" where
  "make_clip app r cs sid start stop reqType ext = do {
     uid \<leftarrow> new_uuid app;
     f \<leftarrow> sql (GetFileIDsInRange (Key cs) sid start stop);
     (case f of
        Inl e \<Rightarrow> fail500 app r ''Database error'' e ''failed to get file ids for clip''
      | Inr fileIDs \<Rightarrow>
         (let expectedCount = stop - start + 1 in
          if int (length fileIDs) \<noteq> expectedCount
          then fail500 app r ''Missing media files for requested range''
                 (ErrOther (''expected '' @ format_int expectedCount @ '' file ids, got '' @ format_int (int (length fileIDs))))
                 ''missing file ids for clip''
          else do {
            m \<leftarrow> MergeRawAudio (Storage app) (TempDir app) (Key cs) sid fileIDs uid;
            (case m of
               Inl e \<Rightarrow> fail500 app r ''Server error'' e ''unable to merge raw audio''
             | Inr merged \<Rightarrow> defer_Remove merged (render_clip app r cs sid reqType uid ext merged)) })) }"

definition postClipHandler :: "'b app \<Rightarrow> request \<Rightarrow> channel \<Rightarrow> ('b, response) act" where
  "postClipHandler app r cs =
     (case r_Body r of
        ClipPayload q \<Rightarrow>
          (let sid = clip_StreamID q; start = clip_Start q; stop = clip_End q in
           if \<not> isValidID sid then bad_request ''Invalid stream ID''
           else do {
             x \<leftarrow> sql (GetStreamByID (Key cs) sid);
             (case x of
                Inl e \<Rightarrow> fail500 app r ''Database error'' e ''failed to get stream for clip''
              | Inr so \<Rightarrow>
                 (case clip_extension (case so of None \<Rightarrow> ''none'' | Some s \<Rightarrow> MediaType s) (clip_Type q) of
                    Inl resp \<Rightarrow> ret resp
                  | Inr ext \<Rightarrow>
                     (if start < 0 \<or> stop < start \<or> MaxClipSize app \<le> stop - start
                      then bad_request ''Invalid request''
                      else make_clip app r cs sid start stop (clip_Type q) ext))) })
      | _ \<Rightarrow> bad_request ''Invalid JSON body'')"

section \<open>Trims\<close>

definition trim_source ::
  "'b app \<Rightarrow> request \<Rightarrow> channel \<Rightarrow> trim_request \<Rightarrow> string \<Rightarrow> string \<Rightarrow> ('b, response) act" where
  "trim_source app r cs q uid tempSource = do {
     let tempDest = path_join [TempDir app, ''trim_'' @ uid @ ''.'' @ trim_Format q];
     t \<leftarrow> os (p_Trim (Media app) tempSource tempDest (trim_Start q) (trim_End q));
     (case t of
        Inl e \<Rightarrow> ret (http_Error ''Trim failed'' 500)
      | Inr _ \<Rightarrow> defer_Remove tempDest (do {
          u \<leftarrow> uploadFile app (ClipKey (Key cs) (trim_StreamID q) uid (''.'' @ trim_Format q)) tempDest;
          (case u of
             Inl e \<Rightarrow> ret (http_Error ''Upload failed'' 500)
           | Inr _ \<Rightarrow> ret (writeJSON (JClip uid))) })) }"

definition postTrimHandler :: "'b app \<Rightarrow> request \<Rightarrow> channel \<Rightarrow> ('b, response) act" where
  "postTrimHandler app r cs =
     (case r_Body r of
        TrimPayload q \<Rightarrow>
          (if trim_Start q < 0 \<or> trim_End q \<le> trim_Start q then bad_request ''Invalid start or end time''
           else if trim_Format q \<notin> set [''m4a'', ''mp3'', ''mp4''] then bad_request ''Invalid file format''
           else if \<not> isValidID (trim_StreamID q) \<or> \<not> isValidID (trim_ClipID q)
           then bad_request ''Invalid stream or clip ID''
           else do {
             uid \<leftarrow> new_uuid app;
             let sourceKey = ClipKey (Key cs) (trim_StreamID q) (trim_ClipID q) (''.'' @ trim_Format q);
             let tempSource = path_join [TempDir app, ''src_'' @ uid @ ''.'' @ trim_Format q];
             g \<leftarrow> store (st_Get (Storage app) sourceKey);
             (case g of
                Inl e \<Rightarrow> ret (http_Error ''Source file not found'' 404)
              | Inr content \<Rightarrow> do {
                  o_c \<leftarrow> os (os_Create tempSource);
                  (case o_c of
                     Inl e \<Rightarrow> fail500 app r ''Server Error'' e ''unable to create temp file for trim''
                   | Inr _ \<Rightarrow> do {
                       c \<leftarrow> os (io_Copy tempSource content);
                       _ \<leftarrow> os os_Close;
                       defer_Remove tempSource
                         (case c of
                            Inl e \<Rightarrow> fail500 app r ''Server Error'' e ''unable to download source for trim''
                          | Inr _ \<Rightarrow> trim_source app r cs q uid tempSource) }) }) })
      | _ \<Rightarrow> bad_request ''Invalid JSON body'')"

end
