(* ===== verification/Maintenance.thy ===== *)
theory Maintenance
  imports Public_Handlers
begin

text \<open>
  \<^verbatim>\<open>internal/server/maintenance.go\<close>: the periodic sweeps. A tick of a ticker is one run of the action;
  the loop itself is the schedule \<open>sweeps\<close> of which sweep runs at start and at which interval.
\<close>

definition cleanupIncomingStreams :: "'b app \<Rightarrow> ('b, unit) act" where
  "cleanupIncomingStreams app = do {
     now \<leftarrow> time_Now;
     _ \<leftarrow> sql (CleanupExpiredIncomingStreams ((now - IncomingStreamTTL app) div 1000000));
     ret () }"

fun alert_offline :: "'b app \<Rightarrow> int \<Rightarrow> worker_status list \<Rightarrow> ('b, unit) act" where
  "alert_offline app now [] = ret ()"
| "alert_offline app now (x # xs) = do {
     (if ChannelKey x \<noteq> ''test'' \<and> ChannelKey x \<noteq> ''dev'' \<and> workerActiveWindow \<le> now - LastSeen x
      then alert (\<lambda>t. NotifyWorkerOffline (Discord app) t (ChannelKey x) (LastSeen x))
      else ret ());
     alert_offline app now xs }"

definition checkWorkerStatus :: "'b app \<Rightarrow> ('b, unit) act" where
  "checkWorkerStatus app = do {
     r \<leftarrow> sql GetAllWorkerStatus;
     (case r of
        Inl e \<Rightarrow> ret ()
      | Inr workers \<Rightarrow> do { now \<leftarrow> unix_Now; alert_offline app now workers }) }"

definition databaseCleanup :: "('b, unit) act" where
  "databaseCleanup = do { _ \<leftarrow> sql CleanupOrphanedTranscripts; ret () }"

section \<open>Pruning against remote storage\<close>

definition hour :: int where "hour = 3600 * 1000000"

definition too_young :: "int \<Rightarrow> stream \<Rightarrow> bool" where
  "too_young now s \<longleftrightarrow>
     (MediaType s = ''none'' \<and> now - ActivatedTime s < 7 * 24 * hour) \<or> now - ActivatedTime s < 24 * hour"

fun prune_streams :: "'b app \<Rightarrow> channel \<Rightarrow> bool \<Rightarrow> stream list \<Rightarrow> ('b, bool) act" where
  "prune_streams app cs updated [] = ret updated"
| "prune_streams app cs updated (s # ss) = do {
     now \<leftarrow> time_Now;
     (if too_young now s then prune_streams app cs updated ss
      else do {
        x \<leftarrow> store (st_StreamExists (Storage app) (RawPrefix (Key cs) (StreamID s)));
        (case x of
           Inr False \<Rightarrow> do {
             d \<leftarrow> sql (DeleteStreamCascade (Key cs) (StreamID s));
             prune_streams app cs (updated \<or> d = Inr ()) ss }
         | _ \<Rightarrow> prune_streams app cs updated ss) }) }"

definition prune_channel :: "'b app \<Rightarrow> channel \<Rightarrow> ('b, unit) act" where
  "prune_channel app cs = do {
     r \<leftarrow> sql (GetAllStreams (Key cs));
     (case r of
        Inl e \<Rightarrow> ret ()
      | Inr ss \<Rightarrow>
         (if ss = [] then ret ()
          else do {
            updated \<leftarrow> prune_streams app cs False ss;
            (if updated then broadcastPastStreams cs else ret ()) })) }"

fun prune_channels :: "'b app \<Rightarrow> channel list \<Rightarrow> ('b, unit) act" where
  "prune_channels app [] = ret ()"
| "prune_channels app (cs # css) = do { prune_channel app cs; prune_channels app css }"

definition pruneExpiredStreams :: "'b app \<Rightarrow> ('b, unit) act" where
  "pruneExpiredStreams app = prune_channels app (Channels app)"

section \<open>The schedule\<close>

datatype sweep = DatabaseCleanup | PruneExpired | CheckWorkers | CleanupIncoming

text \<open>\<^verbatim>\<open>StartMaintenanceLoop\<close>: interval in minutes, and whether the sweep also runs at once.\<close>

definition sweeps :: "'b app \<Rightarrow> (sweep \<times> int \<times> bool) list" where
  "sweeps app =
     [(DatabaseCleanup, 12 * 60, True)] @
     (if st_IsLocal (Storage app) then [] else [(PruneExpired, 4 * 60, True)]) @
     [(CheckWorkers, 2 * 60, False), (CleanupIncoming, 15, True)]"

definition run_sweep :: "'b app \<Rightarrow> sweep \<Rightarrow> ('b, unit) act" where
  "run_sweep app s =
     (case s of DatabaseCleanup \<Rightarrow> databaseCleanup
      | PruneExpired \<Rightarrow> pruneExpiredStreams app
      | CheckWorkers \<Rightarrow> checkWorkerStatus app
      | CleanupIncoming \<Rightarrow> cleanupIncomingStreams app)"

end
