(* ===== verification/Vod_Build.thy ===== *)
theory Vod_Build
  imports Worker_Handlers
begin

text \<open>
  The handlers and the build of \<^verbatim>\<open>internal/server/vod.go\<close> over the registry of \<open>VodRegistry\<close>: a full
  render of an ended stream, built by a goroutine (\<open>buildVod\<close>) that the POST handler starts and the
  admin page polls.
\<close>

definition server_error :: "string \<Rightarrow> ('b, response) act" where
  "server_error msg = ret (http_Error msg 500)"

definition vodExtension :: "stream \<Rightarrow> string" where
  "vodExtension s = (if MediaType s = ''video'' then ''.mp4'' else if MediaType s = ''audio'' then ''.m4a'' else [])"

definition resolveVodTarget :: "request \<Rightarrow> channel \<Rightarrow> ('b, response + vod_target) act" where
  "resolveVodTarget r cs =
     (let sid = r_PathValue r ''streamID'' in
      if \<not> isValidID sid then ret (Inl (http_Error ''invalid stream id'' 400))
      else do {
        x \<leftarrow> sql (GetStreamByID (Key cs) sid);
        (case x of
           Inl e \<Rightarrow> ret (Inl (http_Error ''Database error'' 500))
         | Inr None \<Rightarrow> ret (Inl (http_Error ''stream not found'' 404))
         | Inr (Some s) \<Rightarrow>
            (if IsLive s then ret (Inl (http_Error (''Cannot build a VOD for a live stream. Wait until the stream has ended (or use '' @ [CHR 0x22] @ ''Stop current stream'' @ [CHR 0x22] @ ''), then try again.'') 409))
             else if vodExtension s = [] then ret (Inl (http_Error ''This stream has no media stored, so it has no VOD to build.'' 409))
             else do {
               c \<leftarrow> sql (CountTranscriptMedia (Key cs) sid);
               (case c of
                  Inl e \<Rightarrow> ret (Inl (http_Error ''Database error'' 500))
                | Inr (n, m) \<Rightarrow> ret (Inr \<lparr>tgt_stream = s, tgt_ext = vodExtension s, tgt_totalLines = n, tgt_mediaLines = m\<rparr>)) })) })"

definition findVodArtifact :: "'b app \<Rightarrow> string \<Rightarrow> string \<Rightarrow> string \<Rightarrow> ('b, string res) act" where
  "findVodArtifact app ch sid ext = do {
     l \<leftarrow> store (st_List (Storage app) (VodPrefix ch sid));
     (case l of
        Inl e \<Rightarrow> ret (Inl (wrap ''list vod folder: '' e))
      | Inr ks \<Rightarrow> ret (Inr (case filter (\<lambda>k. has_suffix k ext) ks of [] \<Rightarrow> [] | k # _ \<Rightarrow> k))) }"

definition vodDownloadName :: "'b app \<Rightarrow> stream \<Rightarrow> string" where
  "vodDownloadName app s =
     (let name = sanitize app (StreamTitle s) in if name \<noteq> [] then name else StreamID s)"

definition vodDownloadLinks :: "'b app \<Rightarrow> string \<Rightarrow> stream \<Rightarrow> string \<Rightarrow> string \<times> string" where
  "vodDownloadLinks app key s ext =
     (let name = vodDownloadName app s in
      if st_IsLocal (Storage app)
      then ([], ''/download/'' @ StreamID s @ ''/vod/'' @ path_base key @ ''?name='' @ QueryEscape app name)
      else (st_GetURL (Storage app) key @ ''?download=true&name='' @ QueryEscape app (name @ ext), []))"

definition missing_lines :: "vod_target \<Rightarrow> int" where
  "missing_lines t = max (tgt_totalLines t - tgt_mediaLines t) 0"

definition vod_answer :: "vod_target \<Rightarrow> vod_response" where
  "vod_answer t =
     \<lparr>vr_StreamID = StreamID (tgt_stream t), vr_State = VodNone, vr_Phase = NoPhase, vr_Error = [],
      vr_Format = tl (tgt_ext t), vr_TotalLines = tgt_totalLines t, vr_MediaLines = tgt_mediaLines t,
      vr_MissingLines = missing_lines t, vr_URL = [], vr_Path = [], vr_StartedAt = 0, vr_FinishedAt = 0\<rparr>"

definition zero_status :: vod_status where
  "zero_status = \<lparr>vs_State = VodNone, vs_Phase = NoPhase, vs_Failure = [], vs_StartedAt = 0, vs_FinishedAt = 0\<rparr>"

definition tracked_status :: "channel \<Rightarrow> string \<Rightarrow> 'b world \<Rightarrow> vod_status" where
  "tracked_status cs sid w =
     (case vod_get (Key cs) sid (vods w) of
        None \<Rightarrow> zero_status
      | Some j \<Rightarrow> (case job_status j (vods w) of None \<Rightarrow> zero_status | Some s \<Rightarrow> s))"

definition vodResponse :: "'b app \<Rightarrow> channel \<Rightarrow> vod_target \<Rightarrow> ('b, vod_response res) act" where
  "vodResponse app cs t = do {
     let s = tgt_stream t;
     status \<leftarrow> gets (tracked_status cs (StreamID s));
     let resp = (vod_answer t)\<lparr>vr_StartedAt := vs_StartedAt status, vr_FinishedAt := vs_FinishedAt status\<rparr>;
     (if vs_State status = VodRunning
      then ret (Inr (resp\<lparr>vr_State := VodRunning, vr_Phase := vs_Phase status\<rparr>))
      else do {
        k \<leftarrow> findVodArtifact app (Key cs) (StreamID s) (tgt_ext t);
        (case k of
           Inl e \<Rightarrow> ret (Inl e)
         | Inr key \<Rightarrow>
            (if key \<noteq> [] then
               (case vodDownloadLinks app key s (tgt_ext t) of
                  (url, path) \<Rightarrow> ret (Inr (resp\<lparr>vr_State := VodDone, vr_URL := url, vr_Path := path\<rparr>)))
             else if vs_State status = VodFailed
             then ret (Inr (resp\<lparr>vr_State := VodFailed, vr_Error := vs_Failure status\<rparr>))
             else ret (Inr resp))) }) }"

definition getAdminVodHandler :: "'b app \<Rightarrow> request \<Rightarrow> channel \<Rightarrow> ('b, response) act" where
  "getAdminVodHandler app r cs = do {
     t \<leftarrow> resolveVodTarget r cs;
     (case t of
        Inl resp \<Rightarrow> ret resp
      | Inr target \<Rightarrow> do {
          v \<leftarrow> vodResponse app cs target;
          (case v of
             Inl e \<Rightarrow> ret (http_Error ''Storage error'' 502)
           | Inr resp \<Rightarrow> ret (writeJSON (JVod resp))) }) }"

text \<open>
  \<^verbatim>\<open>WriteHeader(202)\<close> comes before \<^verbatim>\<open>writeJSON\<close>, whose content type is then not sent: the answer
  has no header of its own.
\<close>

definition accepted :: "vod_response \<Rightarrow> response" where
  "accepted resp = reply 202 (JVod resp)"

definition start_build :: "'b app \<Rightarrow> request \<Rightarrow> channel \<Rightarrow> vod_target \<Rightarrow> string list \<Rightarrow> ('b, unit) act" where
  "start_build app r cs t fileIDs = do {
     now \<leftarrow> unix_Now;
     claimed \<leftarrow> State (\<lambda>w. case vod_claim (Key cs) (StreamID (tgt_stream t)) now (vods w) of
                   (x, v) \<Rightarrow> (x, w\<lparr>vods := v\<rparr>));
     (case claimed of
        (job, started) \<Rightarrow>
          (if started then do {
             modify (\<lambda>w. w\<lparr>pending_builds := pending_builds w @
               [\<lparr>task_job = job, task_channel = cs, task_target = t, task_files = fileIDs\<rparr>]\<rparr>);
             notifyAdminAction app r cs ''Started full VOD build''
               [field ''Stream ID'' (StreamID (tgt_stream t)) True, field ''Format'' (tl (tgt_ext t)) True,
                field ''Chunks'' (format_int (int (length fileIDs))) True,
                field ''Lines Without Media'' (format_int (missing_lines t)) True,
                field ''Stream Title'' (StreamTitle (tgt_stream t)) False] }
           else ret ())) }"

definition postAdminVodHandler :: "'b app \<Rightarrow> request \<Rightarrow> channel \<Rightarrow> ('b, response) act" where
  "postAdminVodHandler app r cs = do {
     x \<leftarrow> resolveVodTarget r cs;
     (case x of
        Inl resp \<Rightarrow> ret resp
      | Inr t \<Rightarrow>
         (if tgt_mediaLines t = 0
          then ret (http_Error ''No media is stored for this stream, so there is nothing to build.'' 409)
          else do {
            v \<leftarrow> vodResponse app cs t;
            (case v of
               Inl e \<Rightarrow> ret (http_Error ''Could not check whether a VOD already exists for this stream. Try again in a moment.'' 502)
             | Inr resp \<Rightarrow>
                (if vr_State resp = VodDone then ret (writeJSON (JVod resp))
                 else if vr_State resp = VodRunning then ret (accepted resp)
                 else do {
                   f \<leftarrow> sql (GetAllMediaFileIDs (Key cs) (StreamID (tgt_stream t)));
                   (case f of
                      Inl e \<Rightarrow> server_error ''Database error''
                    | Inr fileIDs \<Rightarrow>
                       (if fileIDs = []
                        then ret (http_Error ''No media is stored for this stream, so there is nothing to build.'' 409)
                        else do {
                          start_build app r cs t fileIDs;
                          v \<leftarrow> vodResponse app cs t;
                          ret (accepted (case v of
                            Inl e \<Rightarrow> resp\<lparr>vr_State := VodRunning, vr_Phase := Merging\<rparr>
                          | Inr final \<Rightarrow> final)) })) })) })) }"

section \<open>The build\<close>

definition set_phase :: "nat \<Rightarrow> vod_phase \<Rightarrow> ('b, unit) act" where
  "set_phase job p = modify (\<lambda>w. w\<lparr>vods := setPhase job p (vods w)\<rparr>)"

definition finish_job :: "nat \<Rightarrow> string option \<Rightarrow> ('b, unit) act" where
  "finish_job job err = do {
     now \<leftarrow> unix_Now;
     modify (\<lambda>w. w\<lparr>vods := job_finish job err now (vods w)\<rparr>) }"

definition build_failed :: "'b app \<Rightarrow> vod_task \<Rightarrow> string \<Rightarrow> ('b, unit) act" where
  "build_failed app k err = do {
     finish_job (task_job k) (Some err);
     alert (\<lambda>now. NotifyAdminAction (Discord app) now (Key (task_channel k)) ''Full VOD build failed''
       [field ''Stream ID'' (StreamID (tgt_stream (task_target k))) True, field ''Error'' err False]) }"

text \<open>\<open>took\<close> is the measured duration of the build.\<close>

definition upload_vod :: "'b app \<Rightarrow> int \<Rightarrow> vod_task \<Rightarrow> string \<Rightarrow> ('b, unit) act" where
  "upload_vod app took k tempOut = do {
     let t = task_target k;
     let sid = StreamID (tgt_stream t);
     let ext = tgt_ext t;
     set_phase (task_job k) Uploading;
     fileID \<leftarrow> new_uuid app;
     u \<leftarrow> uploadFile app (VodKey (Key (task_channel k)) sid fileID ext) tempOut;
     (case u of
        Inl e \<Rightarrow> build_failed app k (''upload vod: '' @ err_text e)
      | Inr _ \<Rightarrow> do {
          finish_job (task_job k) None;
          alert (\<lambda>now. NotifyAdminAction (Discord app) now (Key (task_channel k)) ''Full VOD build finished''
            [field ''Stream ID'' sid True, field ''Format'' (tl ext) True,
             field ''Took'' (format_duration (round_seconds took)) True,
             field ''Stream Title'' (StreamTitle (tgt_stream t)) False]) }) }"

definition buildVod :: "'b app \<Rightarrow> int \<Rightarrow> vod_task \<Rightarrow> ('b, unit) act" where
  "buildVod app took k = do {
     let t = task_target k;
     let sid = StreamID (tgt_stream t);
     let ext = tgt_ext t;
     u \<leftarrow> new_uuid app;
     let tempName = ''vod_'' @ sid @ ''_'' @ u;
     set_phase (task_job k) Merging;
     m \<leftarrow> MergeRawAudio (Storage app) (TempDir app) (Key (task_channel k)) sid (task_files k) tempName;
     (case m of
        Inl e \<Rightarrow> build_failed app k (''merge raw audio: '' @ err_text e)
      | Inr merged \<Rightarrow> defer_Remove merged (do {
          set_phase (task_job k) Encoding;
          let tempOut = path_join [TempDir app, tempName @ ext];
          c \<leftarrow> os ((if ext = ''.mp4'' then p_Remux (Media app) else p_Convert (Media app)) merged tempOut);
          (case c of
             Inl e \<Rightarrow> do {
               _ \<leftarrow> os (os_Remove tempOut);
               build_failed app k (''convert merged audio to '' @ ext @ '': '' @ err_text e) }
           | Inr _ \<Rightarrow> defer_Remove tempOut (upload_vod app took k tempOut)) })) }"

text \<open>A build goroutine that was started runs to its end.\<close>

definition run_build :: "'b app \<Rightarrow> int \<Rightarrow> vod_task \<Rightarrow> ('b, unit) act" where
  "run_build app took k = do {
     modify (\<lambda>w. w\<lparr>pending_builds := remove1 k (pending_builds w)\<rparr>);
     buildVod app took k }"

end
