(* ===== verification/Bot.thy ===== *)
theory Bot
  imports World
begin

text \<open>
  \<^verbatim>\<open>internal/discord/bot.go\<close>: the listener that queues announced stream URLs, its health trail and
  the watchdog's debounced alerts. The gateway session is \<^verbatim>\<open>discordgo\<close>: its last heartbeat
  acknowledgement and the results of \<^verbatim>\<open>Close\<close> and \<^verbatim>\<open>Open\<close> are arguments. Instants are microseconds,
  \<^const>\<open>None\<close> is the zero time.
\<close>

section \<open>State\<close>

record bot =
  bot_channelIDs :: "string list"
  bot_channelMap :: "(string \<times> string) list"

record bot_state =
  connected :: bool
  alerted :: bool
  lastConnect :: "int option"
  lastDisconnect :: "int option"
  lastErr :: string
  lastErrAt :: "int option"

definition new_bot_state :: bot_state where
  "new_bot_state = \<lparr>connected = False, alerted = False, lastConnect = None, lastDisconnect = None,
     lastErr = [], lastErrAt = None\<rparr>"

definition heartbeatStaleThreshold :: int where "heartbeatStaleThreshold = 300 * 1000000"

text \<open>\<open>session\<close> is what \<^verbatim>\<open>discordgo.New\<close> returns.\<close>

definition NewBot :: "bot_config \<Rightarrow> unit res \<Rightarrow> bot option res" where
  "NewBot cfg session =
     (if bot_Token cfg = [] then Inr None
      else if bot_ChannelMap cfg = []
      then Inl (ErrOther ''discord.bot.channelMap is empty; bot would never match a message'')
      else (case session of
          Inl e \<Rightarrow> Inl (ErrOther (''create discord session: '' @ err_text e))
        | Inr _ \<Rightarrow> Inr (Some \<lparr>bot_channelIDs = remdups (filter (\<lambda>i. i \<noteq> []) (bot_ChannelIDs cfg)),
                            bot_channelMap = bot_ChannelMap cfg\<rparr>)))"

section \<open>Status\<close>

definition unixOrZero :: "int option \<Rightarrow> int" where
  "unixOrZero t = (case t of None \<Rightarrow> 0 | Some us \<Rightarrow> us div 1000000)"

definition time_Before :: "int option \<Rightarrow> int option \<Rightarrow> bool" where
  "time_Before a b = (case b of None \<Rightarrow> False | Some y \<Rightarrow> (case a of None \<Rightarrow> True | Some x \<Rightarrow> x < y))"

text \<open>\<^verbatim>\<open>time.Since\<close>, saturating for the zero time.\<close>

definition since :: "int \<Rightarrow> int option \<Rightarrow> int" where
  "since now t = (case t of None \<Rightarrow> 9223372036854776 | Some us \<Rightarrow> min (now - us) 9223372036854776)"

definition stale_text :: "int \<Rightarrow> string" where
  "stale_text us = (if 9223372036854775 < us then ''2562047h47m16.854775807s'' else format_duration (round_seconds us))"

definition Status :: "bot option \<Rightarrow> bot_state \<Rightarrow> int option \<Rightarrow> int \<Rightarrow> string \<Rightarrow> bot_status" where
  "Status bo s lastAck now channelKey =
     (case bo of
        None \<Rightarrow> \<lparr>bs_State = ''off'', bs_Detail = ''no Discord bot token configured'', bs_LastHeartbeatAck = 0,
          bs_LastConnect = 0, bs_LastDisconnect = 0, bs_LastError = [], bs_LastErrorAt = 0,
          bs_ListeningChannels = 0, bs_ChannelMapped = False\<rparr>
      | Some b \<Rightarrow>
         (let stale = since now lastAck;
              detail = (if \<not> connected s \<and> lastErr s \<noteq> [] \<and> \<not> time_Before (lastErrAt s) (lastConnect s)
                        then (''down'', ''gateway connection failed: '' @ lastErr s)
                        else if \<not> connected s then (''down'', ''gateway disconnected; reconnect in progress'')
                        else if heartbeatStaleThreshold < stale
                        then (''stale'', ''no gateway heartbeat for '' @ stale_text stale
                                @ ''; watchdog is forcing reconnects'')
                        else (''ok'', []))
          in \<lparr>bs_State = fst detail, bs_Detail = snd detail, bs_LastHeartbeatAck = unixOrZero lastAck,
              bs_LastConnect = unixOrZero (lastConnect s), bs_LastDisconnect = unixOrZero (lastDisconnect s),
              bs_LastError = lastErr s, bs_LastErrorAt = unixOrZero (lastErrAt s),
              bs_ListeningChannels = int (length (bot_channelIDs b)),
              bs_ChannelMapped = list_ex (\<lambda>nk. snd nk = channelKey) (bot_channelMap b)\<rparr>))"

section \<open>The gateway's callbacks\<close>

definition onConnect :: "int \<Rightarrow> bot_state \<Rightarrow> bot_state" where
  "onConnect now s = s\<lparr>connected := True, lastConnect := Some now\<rparr>"

definition onDisconnect :: "int \<Rightarrow> bot_state \<Rightarrow> bot_state" where
  "onDisconnect now s = s\<lparr>connected := False, lastDisconnect := Some now\<rparr>"

definition recordGatewayError :: "int \<Rightarrow> gerr \<Rightarrow> bot_state \<Rightarrow> bot_state" where
  "recordGatewayError now e s = s\<lparr>lastErr := err_text e, lastErrAt := Some now\<rparr>"

text \<open>\<open>opened\<close> is the result of the session's \<^verbatim>\<open>Open\<close>.\<close>

definition Start :: "discord_client \<Rightarrow> int \<Rightarrow> unit res \<Rightarrow> bot_state \<times> discord_state
    \<Rightarrow> unit res \<times> bot_state \<times> discord_state" where
  "Start d now opened sd =
     (case opened of
        Inl e \<Rightarrow> (Inl (ErrOther (''open discord session: '' @ err_text e)),
                 recordGatewayError now e (fst sd), NotifyDiscordBotStartupError d now (err_text e) (snd sd))
      | Inr _ \<Rightarrow> (Inr (), sd))"

definition forceReconnect :: "int \<Rightarrow> unit res \<Rightarrow> bot_state \<Rightarrow> bot_state" where
  "forceReconnect now opened s = (case opened of Inl e \<Rightarrow> recordGatewayError now e s | Inr _ \<Rightarrow> s)"

text \<open>The Unix time of the zero time.\<close>

definition zero_unix :: int where "zero_unix = - 62135596800"

definition checkHealth ::
  "discord_client \<Rightarrow> int \<Rightarrow> int option \<Rightarrow> unit res \<Rightarrow> bot_state \<times> discord_state \<Rightarrow> bot_state \<times> discord_state" where
  "checkHealth d now lastAck opened sd =
     (case sd of (s, o_d) \<Rightarrow>
       (if since now lastAck \<le> heartbeatStaleThreshold
        then (s\<lparr>alerted := False\<rparr>, if alerted s then NotifyDiscordBotRecovered d now o_d else o_d)
        else (forceReconnect now opened (s\<lparr>alerted := True\<rparr>),
              if alerted s then o_d
              else NotifyDiscordBotOffline d now (case lastAck of None \<Rightarrow> zero_unix | Some us \<Rightarrow> us div 1000000) o_d)))"

section \<open>Announcements\<close>

text \<open>The class \<^verbatim>\<open>[^\s<>"']\<close> of the URL pattern.\<close>

definition url_char :: "char \<Rightarrow> bool" where
  "url_char c \<longleftrightarrow> c \<notin> set [CHR 0x20, CHR 0x09, CHR 0x0A, CHR 0x0C, CHR 0x0D, CHR 0x3C, CHR 0x3E, CHR 0x22, CHR 0x27]"

definition url_at :: "string \<Rightarrow> string option" where
  "url_at s =
     (let scheme = (if has_prefix s ''https://'' then ''https://'' else ''http://'');
          rest = takeWhile url_char (drop (length scheme) s)
      in if has_prefix s scheme \<and> rest \<noteq> [] then Some (scheme @ rest) else None)"

fun find_url :: "string \<Rightarrow> string" where
  "find_url [] = []"
| "find_url (c # cs) = (case url_at (c # cs) of Some u \<Rightarrow> u | None \<Rightarrow> find_url cs)"

definition trim_url :: "string \<Rightarrow> string" where
  "trim_url u = rev (dropWhile (\<lambda>c. c \<in> set ''.,);]>'') (rev u))"

text \<open>
  \<open>names\<close> is the order in which the unstable sort leaves the map's names: any permutation of them
  by decreasing length.
\<close>

definition name_order :: "(string \<times> string) list \<Rightarrow> string list \<Rightarrow> bool" where
  "name_order m names \<longleftrightarrow> distinct names \<and> set names = fst ` set m \<and>
     sorted_wrt (\<lambda>a b. length b \<le> length a) names"

definition parsePingcordMessage ::
  "(string \<Rightarrow> string) \<Rightarrow> string \<Rightarrow> (string \<times> string) list \<Rightarrow> string list \<Rightarrow> (string \<times> string) option" where
  "parsePingcordMessage low text m names =
     (let u = find_url text in
      if u = [] then None
      else (case filter (\<lambda>n. n \<noteq> [] \<and> str_contains (low text) (low n)) names of
          [] \<Rightarrow> None
        | n # _ \<Rightarrow> map_option (\<lambda>k. (k, trim_url u)) (map_of m n)))"

definition onMessage :: "'b app \<Rightarrow> bot \<Rightarrow> string list \<Rightarrow> string \<Rightarrow> string \<Rightarrow> ('b, unit) act" where
  "onMessage app b names channelID content =
     (if channelID \<notin> set (bot_channelIDs b) then ret ()
      else (case parsePingcordMessage (lower app) content (bot_channelMap b) names of
          None \<Rightarrow> ret ()
        | Some (key, url) \<Rightarrow> do { _ \<leftarrow> QueueIncomingStream app key url; ret () }))"

end
