(* ===== verification/Admin_Handlers.thy ===== *)
theory Admin_Handlers
  imports Maintenance Vod_Build Bot
begin

text \<open>
  \<^verbatim>\<open>internal/server/handlers_admin.go\<close>: the operations of the admin page. Every completed change is
  announced to the page's long poll and audited on Discord.
\<close>

section \<open>The page and its state\<close>

definition adminUIHandler :: "('b, response) act" where
  "adminUIHandler = ret \<lparr>code = 200, headers = [(''Content-Type'', ''text/html; charset=utf-8''),
     (''Cache-Control'', ''no-store'')], body = Html\<rparr>"

text \<open>\<open>bot\<close> is the bot's status as seen from the channel.\<close>

definition getAdminInfoHandler :: "'b app \<Rightarrow> bot_status \<Rightarrow> channel \<Rightarrow> ('b, response) act" where
  "getAdminInfoHandler app bot_st cs = do {
     x \<leftarrow> sql (GetWorkerStatusByKey (Key cs));
     (case x of
        Inl e \<Rightarrow> server_error ''Database error''
      | Inr worker \<Rightarrow> do {
          now \<leftarrow> unix_Now;
          s \<leftarrow> sql (GetAllStreams (Key cs));
          (case s of
             Inl e \<Rightarrow> server_error ''Database error''
           | Inr ss \<Rightarrow> do {
               i \<leftarrow> sql (GetIncomingStreams (Key cs));
               (case i of
                  Inl e \<Rightarrow> server_error ''Database error''
                | Inr urls \<Rightarrow> do {
                    t \<leftarrow> sql (GetRestartRequest (Key cs));
                    (case t of
                       Inl e \<Rightarrow> server_error ''Database error''
                     | Inr restartAt \<Rightarrow> do {
                         n \<leftarrow> gets (\<lambda>w. Connections (hubs w (Key cs)));
                         ret (writeJSON (JAdminInfo
                           \<lparr>ai_Channel = Key cs, ai_Worker = map_option (with_activity now) worker,
                            ai_Streams = ss, ai_IncomingURLs = urls, ai_RestartPending = 0 < restartAt,
                            ai_RestartAt = restartAt, ai_Version = AppVersion app, ai_BuildTime = AppBuildTime app,
                            ai_ConnectedClients = n, ai_MembershipEnabled = membershipEnabled app cs,
                            ai_DiscordBot = bot_st\<rparr>)) }) }) }) }) }"

section \<open>Queue and restart\<close>

definition audited :: "'b app \<Rightarrow> request \<Rightarrow> channel \<Rightarrow> string \<Rightarrow> admin_field list \<Rightarrow> ('b, response) act" where
  "audited app r cs action details = do {
     notifyAdminAction app r cs action details;
     ret (reply 204 NoBody) }"

definition postAdminIncomingHandler :: "'b app \<Rightarrow> request \<Rightarrow> channel \<Rightarrow> ('b, response) act" where
  "postAdminIncomingHandler app r cs =
     (case r_Body r of
        UrlPayload raw \<Rightarrow>
          (let url = trim_space raw in
           if url = [] then bad_request ''url is required''
           else if \<not> has_prefix url ''http://'' \<and> \<not> has_prefix url ''https://''
           then bad_request ''url must start with http:// or https://''
           else do {
             now \<leftarrow> unix_Now;
             x \<leftarrow> sql (UpsertIncomingStream (Key cs) url now);
             (case x of
                Inl e \<Rightarrow> server_error ''Database error''
              | Inr _ \<Rightarrow> do {
                  bumpAdminChange app (Key cs);
                  audited app r cs ''Queued incoming stream'' [field ''URL'' url False] }) })
      | _ \<Rightarrow> bad_request ''Invalid JSON body'')"

definition deleteAdminIncomingHandler :: "'b app \<Rightarrow> request \<Rightarrow> channel \<Rightarrow> ('b, response) act" where
  "deleteAdminIncomingHandler app r cs =
     (let url = r_Query r ''url'' in
      if url = [] then bad_request ''Missing required parameter: url''
      else do {
        x \<leftarrow> sql (DeleteIncomingStream (Key cs) url);
        (case x of
           Inl e \<Rightarrow> server_error ''Database error''
         | Inr n \<Rightarrow>
            (if n = 0 then ret (http_Error ''URL not queued'' 404)
             else do {
               bumpAdminChange app (Key cs);
               audited app r cs ''Removed queued stream'' [field ''URL'' url False] })) })"

definition postAdminRestartHandler :: "'b app \<Rightarrow> request \<Rightarrow> channel \<Rightarrow> ('b, response) act" where
  "postAdminRestartHandler app r cs = do {
     now \<leftarrow> unix_Now;
     x \<leftarrow> sql (UpsertRestartRequest (Key cs) now);
     (case x of
        Inl e \<Rightarrow> server_error ''Database error''
      | Inr _ \<Rightarrow> do {
          bumpAdminChange app (Key cs);
          audited app r cs ''Requested worker restart'' [field ''Requested At'' (RFC1123 app now) True] }) }"

definition deleteAdminRestartHandler :: "'b app \<Rightarrow> request \<Rightarrow> channel \<Rightarrow> ('b, response) act" where
  "deleteAdminRestartHandler app r cs = do {
     x \<leftarrow> sql (DeleteRestartRequest (Key cs));
     (case x of
        Inl e \<Rightarrow> server_error ''Database error''
      | Inr n \<Rightarrow> do {
          (if 0 < n then bumpAdminChange app (Key cs) else ret ());
          audited app r cs ''Cleared restart request'' [field ''Was Pending'' (yesNo (0 < n)) True] }) }"

definition postAdminStopHandler :: "'b app \<Rightarrow> request \<Rightarrow> channel \<Rightarrow> ('b, response) act" where
  "postAdminStopHandler app r cs = do {
     x \<leftarrow> sql (ClearIncomingStreams (Key cs));
     (case x of
        Inl e \<Rightarrow> server_error ''Database error''
      | Inr cleared \<Rightarrow> do {
          now \<leftarrow> unix_Now;
          y \<leftarrow> sql (UpsertRestartRequest (Key cs) now);
          (case y of
             Inl e \<Rightarrow> server_error ''Database error''
           | Inr _ \<Rightarrow> do {
               bumpAdminChange app (Key cs);
               audited app r cs ''Stopped current stream''
                 [field ''Queued URLs Cleared'' (format_int cleared) True,
                  field ''Restart Requested'' ''yes'' True] }) }) }"

section \<open>Streams\<close>

definition deleteAdminStreamHandler :: "'b app \<Rightarrow> request \<Rightarrow> channel \<Rightarrow> ('b, response) act" where
  "deleteAdminStreamHandler app r cs =
     (let sid = r_PathValue r ''streamID''; deleteMedia = (r_Query r ''media'' = ''true'') in
      if \<not> isValidID sid then bad_request ''invalid stream id''
      else do {
        x \<leftarrow> sql (GetStreamByID (Key cs) sid);
        (case x of
           Inl e \<Rightarrow> server_error ''Database error''
         | Inr None \<Rightarrow> ret (http_Error ''stream not found'' 404)
         | Inr (Some s) \<Rightarrow>
            (if IsLive s then ret (http_Error (''Cannot delete a live stream. Use '' @ [CHR 0x22] @ ''Stop current stream''
                 @ [CHR 0x22] @ '' first, then delete it once the worker has deactivated it.'') 409)
             else do {
               d \<leftarrow> removeStream app cs s deleteMedia;
               (case d of
                  Inl e \<Rightarrow> server_error ''Database error''
                | Inr _ \<Rightarrow> do {
                    bumpAdminChange app (Key cs);
                    audited app r cs ''Deleted stream''
                      [field ''Stream ID'' sid True, field ''Media Deleted'' (yesNo deleteMedia) True,
                       field ''Stream Title'' (StreamTitle s) False] }) })) })"

definition startTimeFloor :: int where "startTimeFloor = 946684800"

definition startTimeFutureGrace :: int where "startTimeFutureGrace = 24 * hour"

definition maxStreamTitleLength :: nat where "maxStreamTitleLength = 300"

definition editableMediaTypes :: "string list" where "editableMediaTypes = [''audio'', ''video'', ''none'']"

text \<open>The validation of an edit: the first complaint, or the update to apply.\<close>

definition edit_update :: "int \<Rightarrow> edit_request \<Rightarrow> string + stream_update" where
  "edit_update now q =
     (let title = map_option trim_space (ed_StreamTitle q);
          latest = (now + startTimeFutureGrace) div 1000000;
          u = \<lparr>upd_StreamTitle = title, upd_StartTime = map_option format_int (ed_StartTime q),
               upd_MediaType = ed_MediaType q\<rparr>
      in if (case title of None \<Rightarrow> False | Some t \<Rightarrow> maxStreamTitleLength < length t)
         then Inl ''streamTitle must be at most 300 characters.''
         else if (case ed_StartTime q of None \<Rightarrow> False | Some t \<Rightarrow> t < startTimeFloor \<or> latest < t)
         then Inl ''startTime must be a unix timestamp in seconds, no earlier than 2000-01-01 and no more than a day in the future.''
         else if (case ed_MediaType q of None \<Rightarrow> False | Some m \<Rightarrow> m \<notin> set editableMediaTypes)
         then Inl ''mediaType must be one of: audio, video, none.''
         else if update_IsEmpty u
         then Inl ''No fields to update. Send at least one of streamTitle, startTime, mediaType.''
         else Inr u)"

definition syncActivationMetric :: "string \<Rightarrow> stream \<Rightarrow> stream \<Rightarrow> ('b, unit) act" where
  "syncActivationMetric ch before after =
     (if \<not> IsLive after then ret ()
      else do {
        (if StreamTitle before \<noteq> StreamTitle after
         then gauge_Delete ch (StreamID before) (StreamTitle before) else ret ());
        (case parse_int (StartTime after) of
           None \<Rightarrow> ret ()
         | Some t \<Rightarrow> gauge_Set ch (StreamID after) (StreamTitle after) t) })"

definition announceStreamEdit :: "channel \<Rightarrow> stream \<Rightarrow> stream \<Rightarrow> ('b, unit) act" where
  "announceStreamEdit cs before after = do {
     broadcast (Key cs) (EventUpdatedStream \<lparr>us_StreamID = StreamID after, us_StreamTitle = StreamTitle after,
       us_StartTime = StartTime after, us_MediaType = MediaType after, us_IsLive = IsLive after\<rparr>);
     syncActivationMetric (Key cs) before after;
     broadcastPastStreams cs }"

record stream_change =
  ch_Field :: string
  ch_From :: string
  ch_To :: string

definition quoteOrEmpty :: "string \<Rightarrow> string" where
  "quoteOrEmpty s = (if s = [] then ''(empty)'' else [CHR 0x22] @ s @ [CHR 0x22])"

definition formatStartTime :: "'b app \<Rightarrow> string \<Rightarrow> string" where
  "formatStartTime app s =
     (case parse_int s of None \<Rightarrow> (if s = [] then ''(unset)'' else s) | Some t \<Rightarrow> RFC1123 app t)"

definition describeStreamChanges :: "'b app \<Rightarrow> stream \<Rightarrow> stream \<Rightarrow> stream_change list" where
  "describeStreamChanges app before after =
     (if StreamTitle before \<noteq> StreamTitle after
      then [\<lparr>ch_Field = ''Title'', ch_From = quoteOrEmpty (StreamTitle before), ch_To = quoteOrEmpty (StreamTitle after)\<rparr>]
      else []) @
     (if StartTime before \<noteq> StartTime after
      then [\<lparr>ch_Field = ''Start Time'', ch_From = formatStartTime app (StartTime before),
             ch_To = formatStartTime app (StartTime after)\<rparr>]
      else []) @
     (if MediaType before \<noteq> MediaType after
      then [\<lparr>ch_Field = ''Media Type'', ch_From = MediaType before, ch_To = MediaType after\<rparr>]
      else [])"

definition arrow :: string where "arrow = '' '' @ [CHR 0xE2, CHR 0x86, CHR 0x92] @ '' ''"

definition change_field :: "stream_change \<Rightarrow> admin_field" where
  "change_field c = field (ch_Field c) (ch_From c @ arrow @ ch_To c) False"

definition postAdminStreamHandler :: "'b app \<Rightarrow> request \<Rightarrow> channel \<Rightarrow> ('b, response) act" where
  "postAdminStreamHandler app r cs =
     (let sid = r_PathValue r ''streamID'' in
      if \<not> isValidID sid then bad_request ''invalid stream id''
      else (case r_Body r of
        EditPayload q \<Rightarrow> do {
          now \<leftarrow> time_Now;
          (case edit_update now q of
             Inl complaint \<Rightarrow> bad_request complaint
           | Inr u \<Rightarrow> do {
               x \<leftarrow> sql (GetStreamByID (Key cs) sid);
               (case x of
                  Inl e \<Rightarrow> server_error ''Database error''
                | Inr None \<Rightarrow> ret (http_Error ''stream not found'' 404)
                | Inr (Some before) \<Rightarrow> do {
                    y \<leftarrow> sql (UpdateStream (Key cs) sid u);
                    (case y of
                       Inl e \<Rightarrow> (if e = ErrNotFound then ret (http_Error ''stream not found'' 404)
                                else server_error ''Database error'')
                     | Inr _ \<Rightarrow> do {
                         z \<leftarrow> sql (GetStreamByID (Key cs) sid);
                         let after = (case z of Inr (Some s) \<Rightarrow> s | _ \<Rightarrow> before);
                         announceStreamEdit cs before after;
                         bumpAdminChange app (Key cs);
                         audited app r cs ''Edited stream details''
                           ([field ''Stream ID'' sid True, field ''Stream Title'' (StreamTitle after) True]
                            @ map change_field (describeStreamChanges app before after)) }) }) }) }
      | _ \<Rightarrow> bad_request ''Invalid JSON body''))"

section \<open>Membership keys\<close>

definition archive_error :: "('b, response) act" where
  "archive_error = ret (http_Error ''Archive server error'' 502)"

definition with_membership :: "'b app \<Rightarrow> channel \<Rightarrow> ('b, response) act \<Rightarrow> ('b, response) act" where
  "with_membership app cs act =
     (if membershipEnabled app cs then act
      else ret (http_Error ''Membership management is disabled for this channel'' 404))"

definition getAdminMembershipHandler :: "'b app \<Rightarrow> channel \<Rightarrow> ('b, response) act" where
  "getAdminMembershipHandler app cs = with_membership app cs
     (case ListKeys (Transport app) (Archive app) (MembersName cs) of
        Inl e \<Rightarrow> archive_error
      | Inr ks \<Rightarrow> ret (writeJSON (JKeys ks)))"

definition postAdminMembershipHandler :: "'b app \<Rightarrow> request \<Rightarrow> channel \<Rightarrow> ('b, response) act" where
  "postAdminMembershipHandler app r cs = with_membership app cs
     (case CreateKey (Transport app) (Archive app) (MembersName cs) of
        Inl e \<Rightarrow> archive_error
      | Inr k \<Rightarrow> do {
          notifyAdminAction app r cs ''Created membership key''
            [field ''Archive Channel'' (MembersName cs) True, field ''Expires At'' (kr_ExpiresAt k) True];
          ret (writeJSON (JKey k)) })"

definition deleteAdminMembershipHandler :: "'b app \<Rightarrow> request \<Rightarrow> channel \<Rightarrow> ('b, response) act" where
  "deleteAdminMembershipHandler app r cs = with_membership app cs
     (case DeleteKeys (Transport app) (Archive app) (MembersName cs) of
        Inl e \<Rightarrow> archive_error
      | Inr _ \<Rightarrow> audited app r cs ''Deleted all membership keys'' [field ''Archive Channel'' (MembersName cs) True])"

end
