(* ===== verification/Events.thy ===== *)
theory Events
  imports Worker_Handlers
begin

text \<open>
  \<^verbatim>\<open>internal/server/handlers_events.go\<close>: the two long polls. A parked poll is given the rounds its
  \<^verbatim>\<open>Wait\<close> goes through, each with the world its check sees. A poll answers, is still parked, or
  finds its client gone and writes nothing.
\<close>

definition defaultEventsWaitSeconds :: int where "defaultEventsWaitSeconds = 25"

definition maxEventsWaitSeconds :: int where "maxEventsWaitSeconds = 60"

text \<open>In microseconds.\<close>

definition parseWaitSeconds :: "request \<Rightarrow> int" where
  "parseWaitSeconds r =
     (let v = r_Query r ''wait'';
          s = (if v = [] then defaultEventsWaitSeconds
               else (case parse_int v of
                   None \<Rightarrow> defaultEventsWaitSeconds
                 | Some p \<Rightarrow> (if 0 \<le> p then min p maxEventsWaitSeconds else defaultEventsWaitSeconds)))
      in s * 1000000)"

datatype poll_answer = Parked | ClientGone | Answer response

definition poll_result :: "(outcome \<times> 's) option \<Rightarrow> ('s \<Rightarrow> response) \<Rightarrow> poll_answer" where
  "poll_result o_s ready =
     (case o_s of
        None \<Rightarrow> Parked
      | Some (Ready, s) \<Rightarrow> Answer (ready s)
      | Some (Timeout, s) \<Rightarrow> Answer (reply 204 NoBody)
      | Some (Released, s) \<Rightarrow> Answer (reply 204 NoBody)
      | Some (Canceled, s) \<Rightarrow> ClientGone)"

section \<open>\<^verbatim>\<open>GET /{channel}/admin/poll\<close>\<close>

definition adminPollHandler :: "request \<Rightarrow> channel \<Rightarrow> int \<Rightarrow> 'b world wait_round list \<Rightarrow> poll_answer" where
  "adminPollHandler r cs now rounds =
     (let since = (case parse_int (r_Query r ''since'') of Some n \<Rightarrow> n | None \<Rightarrow> -1);
          deadline = now + parseWaitSeconds r
      in poll_result (Wait deadline (\<lambda>w. counters w (Key cs) \<noteq> since) rounds)
           (\<lambda>w. writeJSON (JPoll (counters w (Key cs)))))"

section \<open>\<^verbatim>\<open>GET /events\<close>\<close>

fun collect_events ::
  "string list \<Rightarrow> int \<Rightarrow> int \<Rightarrow> (string \<times> string list) list \<Rightarrow> ('b, (int \<times> (string \<times> string list) list) res) act" where
  "collect_events [] since cursor events = ret (Inr (cursor, events))"
| "collect_events (k # ks) since cursor events = do {
     l \<leftarrow> sql (GetLatestIncomingTime k);
     (case l of
        Inl e \<Rightarrow> ret (Inl e)
      | Inr latest \<Rightarrow> do {
          r \<leftarrow> sql (GetRestartRequest k);
          (case r of
             Inl e \<Rightarrow> ret (Inl e)
           | Inr requestedAt \<Rightarrow>
               (let flags = (if since < latest then [''incoming''] else []) @
                            (if 0 < requestedAt then [''restart''] else [])
                in collect_events ks since (max cursor latest)
                     (if flags = [] then events else AList.update k flags events))) }) }"

definition collectWorkerEvents ::
  "string list \<Rightarrow> int \<Rightarrow> ('b, (int \<times> (string \<times> string list) list) res) act" where
  "collectWorkerEvents keys since = collect_events keys since since []"

definition getEventsHandler ::
  "'b app \<Rightarrow> request \<Rightarrow> int \<Rightarrow> 'b world wait_round list \<Rightarrow> ('b, poll_answer) act" where
  "getEventsHandler app r now rounds =
     (let channelsParam = r_Query r ''channels'' in
      if channelsParam = [] then ret (Answer (http_Error ''Missing required parameter: channels'' 400))
      else (let keys = map trim_space (split_on CHR '','' channelsParam) in
        (case filter (\<lambda>k. find_channel app k = None) keys of
           k # _ \<Rightarrow> ret (Answer (http_Error (''Channel not found: '' @ k) 404))
         | [] \<Rightarrow>
           (let since = (case parse_int (r_Query r ''since'') of Some n \<Rightarrow> max n 0 | None \<Rightarrow> 0);
                deadline = now + parseWaitSeconds r;
                collect = (\<lambda>w. fst (run (collectWorkerEvents keys since) w));
                check = (\<lambda>w. case collect w of Inl e \<Rightarrow> True | Inr (cursor, events) \<Rightarrow> events \<noteq> []);
                result = Wait deadline check rounds
            in (case map_option (\<lambda>(out, w). collect w) result of
                  Some (Inl e) \<Rightarrow> map_state Answer (fail500 app r ''Database error'' e ''failed to collect worker events'')
                | _ \<Rightarrow> ret (poll_result result
                    (\<lambda>w. case collect w of
                       Inl e \<Rightarrow> reply 500 NoBody \<comment> \<open>not reached\<close>
                     | Inr (cursor, events) \<Rightarrow> writeJSON (JEvents cursor events))))))))"

end
