(* ===== verification/Web_Socket.thy ===== *)
theory Web_Socket
  imports Lifecycle
begin

text \<open>
  \<^verbatim>\<open>internal/server/websocket.go\<close>: a viewer's connection, in the steps between which other requests
  run: reserving a slot, the end of the handshake, the initial sync, and the read loop with the
  deferred removal.
\<close>

definition hub_op :: "channel \<Rightarrow> (hub \<Rightarrow> 'a \<times> hub) \<Rightarrow> ('b, 'a) act" where
  "hub_op cs f = State (\<lambda>w. case f (hubs w (Key cs)) of (x, h) \<Rightarrow> (x, w\<lparr>hubs := (hubs w)(Key cs := h)\<rparr>))"

lemma run_hub_op:
  "run (hub_op cs f) w = (case f (hubs w (Key cs)) of (x, h) \<Rightarrow> (x, w\<lparr>hubs := (hubs w)(Key cs := h)\<rparr>))"
  by (simp add: hub_op_def)

definition no_stream :: stream where
  "no_stream = \<lparr>ChannelID = [], StreamID = [], StreamTitle = [], StartTime = ''0'', IsLive = False,
     MediaType = ''none'', ActivatedTime = 0\<rparr>"

definition sync_payload :: "'b app \<Rightarrow> stream \<Rightarrow> line list \<Rightarrow> sync_data" where
  "sync_payload app s ls =
     \<lparr>sync_StreamID = StreamID s, sync_StreamTitle = StreamTitle s, sync_StartTime = StartTime s,
      sync_IsLive = IsLive s, sync_MediaType = MediaType s, sync_MediaBaseURL = st_GetURL (Storage app) [],
      sync_Transcript = ls\<rparr>"

text \<open>Send a message or, when the client cannot take it, remove it and stop.\<close>

definition send_or_remove :: "channel \<Rightarrow> nat \<Rightarrow> message \<Rightarrow> ('b, unit) act \<Rightarrow> ('b, unit) act" where
  "send_or_remove cs c msg rest = do {
     ok \<leftarrow> hub_op cs (TrySend c msg);
     (if ok then rest else do { _ \<leftarrow> hub_op cs (Remove c); ret () }) }"

definition syncClient :: "'b app \<Rightarrow> channel \<Rightarrow> nat \<Rightarrow> ('b, unit) act" where
  "syncClient app cs c = do {
     r \<leftarrow> sql (GetRecentStream (Key cs));
     (case r of
        Inl e \<Rightarrow> ret ()
      | Inr so \<Rightarrow> do {
          let s = (case so of Some x \<Rightarrow> x | None \<Rightarrow> no_stream);
          t \<leftarrow> sql (GetTranscript (Key cs) (StreamID s));
          (case t of
             Inl e \<Rightarrow> ret ()
           | Inr lns \<Rightarrow> do {
               let full = send_or_remove cs c (EventSync (sync_payload app s lns)) (do {
                 p \<leftarrow> sql (GetPastStreams (Key cs) (StreamID s));
                 (case p of
                    Inl e \<Rightarrow> ret ()
                  | Inr ps \<Rightarrow> (if ps = [] then ret () else send_or_remove cs c (EventPastStreams ps) (ret ()))) });
               (if 100 < length lns
                then send_or_remove cs c
                       (EventPartialSync (sync_payload app s (drop (length lns - 100) lns))) full
                else full) }) }) }"

text \<open>
  Opening a connection: the slot is reserved, then the handshake runs, then the slot is given back or
  filled with the new client. \<open>upgrading\<close> counts the handlers in their handshake.
\<close>

definition ws_reserve :: "channel \<Rightarrow> ('b, bool) act" where
  "ws_reserve cs = do {
     ok \<leftarrow> hub_op cs Reserve;
     (if ok then do { modify (\<lambda>w. w\<lparr>upgrading := (upgrading w)(Key cs := Suc (upgrading w (Key cs)))\<rparr>); ret True }
      else ret False) }"

definition ws_upgraded :: "channel \<Rightarrow> bool \<Rightarrow> ('b, nat option) act" where
  "ws_upgraded cs upgrade = do {
     oc \<leftarrow> (if upgrade then hub_op cs (\<lambda>h. case Add h of (c, h1) \<Rightarrow> (Some c, h1))
           else hub_op cs (\<lambda>h. (None, Unreserve h)));
     modify (\<lambda>w. w\<lparr>upgrading := (upgrading w)(Key cs := upgrading w (Key cs) - 1)\<rparr>);
     ret oc }"

definition ws_leave :: "channel \<Rightarrow> nat \<Rightarrow> ('b, bool) act" where
  "ws_leave cs c = hub_op cs (Remove c)"

definition ws_serve :: "channel \<Rightarrow> nat \<Rightarrow> client_read list \<Rightarrow> ('b, ws_err option option) act" where
  "ws_serve cs c reads = do {
     e \<leftarrow> hub_op cs (ReadLoop c reads);
     _ \<leftarrow> (if e = None then ret False else ws_leave cs c);
     ret e }"

text \<open>
  \<open>upgrade\<close> says whether the handshake succeeds, \<open>others\<close> what other requests do during the handshake,
  before the initial sync and before the reads.
\<close>

definition wsHandler ::
  "'b app \<Rightarrow> bool \<Rightarrow> ('b world \<Rightarrow> 'b world) \<Rightarrow> client_read list \<Rightarrow> channel \<Rightarrow> ('b, response option) act" where
  "wsHandler app upgrade others reads cs = do {
     ok \<leftarrow> ws_reserve cs;
     (if \<not> ok then ret (Some (http_Error ''Max number of connection already reached'' 400))
      else do {
        modify others;
        opened \<leftarrow> ws_upgraded cs upgrade;
        (case opened of
           None \<Rightarrow> ret None
         | Some c \<Rightarrow> do {
             modify others;
             syncClient app cs c;
             modify others;
             _ \<leftarrow> ws_serve cs c reads;
             ret None }) }) }"

end
