(* ===== verification/Routes.thy ===== *)
theory Routes
  imports Admin_Handlers Events Web_Socket
begin

text \<open>
  \<^verbatim>\<open>internal/server/routes.go\<close>: the route table, the middlewares and the dispatch of a request to its
  handler. A request that parks or upgrades sees rounds of \<^verbatim>\<open>Wait\<close> or reads; these, what runs during
  a handler's sleep, and the bot's status come with the request as its \<open>surroundings\<close>.
\<close>

section \<open>The table\<close>

text \<open>A path pattern: literal segments and wildcards.\<close>

datatype segment = Lit string | Wild string

datatype endpoint_name =
    Activate | Deactivate | Sync | Line | MediaUpload | Statuscheck | Heartbeat | WorkerEvents
  | GetIncoming | DeleteIncoming | PostRestart | GetRestart | DeleteRestart
  | AdminUI | AdminInfo | AdminPoll | AdminPostIncoming | AdminDeleteIncoming | AdminPostRestart
  | AdminDeleteRestart | AdminDeleteStream | AdminEditStream | AdminStop | AdminGetVod | AdminPostVod
  | AdminGetMembership | AdminPostMembership | AdminDeleteMembership
  | PublicStatus | Websocket | StreamFile | DownloadFile | FrameFile | TranscriptOf | PostClip | PostTrim

abbreviation channel_path :: "segment list \<Rightarrow> segment list" where
  "channel_path p \<equiv> Wild ''channel'' # p"

definition routes :: "(string \<times> segment list \<times> endpoint_name) list" where
  "routes =
     [(''POST'', channel_path [Lit ''activate''], Activate),
      (''POST'', channel_path [Lit ''deactivate''], Deactivate),
      (''POST'', channel_path [Lit ''sync''], Sync),
      (''POST'', channel_path [Lit ''line'', Wild ''streamID''], Line),
      (''POST'', channel_path [Lit ''media'', Wild ''streamID'', Wild ''id''], MediaUpload),
      (''GET'', channel_path [Lit ''statuscheck''], Statuscheck),
      (''POST'', [Lit ''status''], Heartbeat),
      (''GET'', [Lit ''events''], WorkerEvents),
      (''GET'', channel_path [Lit ''incoming''], GetIncoming),
      (''DELETE'', channel_path [Lit ''incoming''], DeleteIncoming),
      (''POST'', channel_path [Lit ''restart''], PostRestart),
      (''GET'', channel_path [Lit ''restart''], GetRestart),
      (''DELETE'', channel_path [Lit ''restart''], DeleteRestart),
      (''GET'', channel_path [Lit ''ui''], AdminUI),
      (''GET'', channel_path [Lit ''admin'', Lit ''info''], AdminInfo),
      (''GET'', channel_path [Lit ''admin'', Lit ''poll''], AdminPoll),
      (''POST'', channel_path [Lit ''admin'', Lit ''incoming''], AdminPostIncoming),
      (''DELETE'', channel_path [Lit ''admin'', Lit ''incoming''], AdminDeleteIncoming),
      (''POST'', channel_path [Lit ''admin'', Lit ''restart''], AdminPostRestart),
      (''DELETE'', channel_path [Lit ''admin'', Lit ''restart''], AdminDeleteRestart),
      (''DELETE'', channel_path [Lit ''admin'', Lit ''stream'', Wild ''streamID''], AdminDeleteStream),
      (''POST'', channel_path [Lit ''admin'', Lit ''stream'', Wild ''streamID''], AdminEditStream),
      (''POST'', channel_path [Lit ''admin'', Lit ''stop''], AdminStop),
      (''GET'', channel_path [Lit ''admin'', Lit ''vod'', Wild ''streamID''], AdminGetVod),
      (''POST'', channel_path [Lit ''admin'', Lit ''vod'', Wild ''streamID''], AdminPostVod),
      (''GET'', channel_path [Lit ''admin'', Lit ''membership''], AdminGetMembership),
      (''POST'', channel_path [Lit ''admin'', Lit ''membership''], AdminPostMembership),
      (''DELETE'', channel_path [Lit ''admin'', Lit ''membership''], AdminDeleteMembership),
      (''GET'', [Lit ''status''], PublicStatus),
      (''GET'', channel_path [Lit ''websocket''], Websocket),
      (''GET'', channel_path [Lit ''stream'', Wild ''streamID'', Wild ''type'', Wild ''filename''], StreamFile),
      (''GET'', channel_path [Lit ''download'', Wild ''streamID'', Wild ''type'', Wild ''filename''], DownloadFile),
      (''GET'', channel_path [Lit ''frame'', Wild ''streamID'', Wild ''filename''], FrameFile),
      (''GET'', channel_path [Lit ''transcript'', Wild ''streamID''], TranscriptOf),
      (''POST'', channel_path [Lit ''clip''], PostClip),
      (''POST'', channel_path [Lit ''trim''], PostTrim)]"

text \<open>Matching a path, split at its slashes; a wildcard takes one non-empty segment.\<close>

fun match_segments :: "segment list \<Rightarrow> string list \<Rightarrow> (string \<times> string) list option" where
  "match_segments [] [] = Some []"
| "match_segments (Lit l # ps) (x # xs) = (if x = l then match_segments ps xs else None)"
| "match_segments (Wild v # ps) (x # xs) =
     (if x = [] then None else map_option (Cons (v, x)) (match_segments ps xs))"
| "match_segments _ _ = None"

definition path_segments :: "string \<Rightarrow> string list" where
  "path_segments p = split_on CHR ''/'' (tl p)"

text \<open>\<^verbatim>\<open>http.ServeMux\<close>: GET patterns also serve HEAD.\<close>

definition method_matches :: "string \<Rightarrow> string \<Rightarrow> bool" where
  "method_matches pattern_method m \<longleftrightarrow> m = pattern_method \<or> (pattern_method = ''GET'' \<and> m = ''HEAD'')"

definition find_route :: "request \<Rightarrow> (endpoint_name \<times> (string \<times> string) list) option" where
  "find_route r =
     (case filter (\<lambda>(m, p, e). method_matches m (r_Method r) \<and> match_segments p (path_segments (r_Path r)) \<noteq> None) routes of
        [] \<Rightarrow> None
      | (m, p, e) # _ \<Rightarrow> map_option (\<lambda>vs. (e, vs)) (match_segments p (path_segments (r_Path r))))"

section \<open>Middlewares\<close>

definition withChannel :: "'b app \<Rightarrow> request \<Rightarrow> (channel \<Rightarrow> ('b, poll_answer) act) \<Rightarrow> ('b, poll_answer) act" where
  "withChannel app r h =
     (case find_channel app (r_PathValue r ''channel'') of
        None \<Rightarrow> ret (Answer (http_Error ''Channel not found'' 404))
      | Some cs \<Rightarrow> h cs)"

definition apiKeyMiddleware :: "'b app \<Rightarrow> request \<Rightarrow> ('b, poll_answer) act \<Rightarrow> ('b, poll_answer) act" where
  "apiKeyMiddleware app r next =
     (if ApiKey app = [] then ret (Answer (http_Error ''Service Unavailable'' 503))
      else if r_Header r ''X-API-Key'' \<noteq> ApiKey app then ret (Answer (http_Error ''Forbidden'' 403))
      else next)"

definition withAdminChannel :: "'b app \<Rightarrow> request \<Rightarrow> (channel \<Rightarrow> ('b, poll_answer) act) \<Rightarrow> ('b, poll_answer) act" where
  "withAdminChannel app r h = withChannel app r (\<lambda>cs.
     (if AdminKey cs = [] then ret (Answer (http_Error ''Admin operations are disabled for this channel'' 403))
      else if r_Header r ''X-Admin-Key'' = [] \<or> r_Header r ''X-Admin-Key'' \<noteq> AdminKey cs
      then ret (Answer (http_Error ''Forbidden'' 403))
      else h cs))"

section \<open>Dispatch\<close>

record 'b surroundings =
  sr_rounds :: "'b world wait_round list" \<comment> \<open>of a long poll\<close>
  sr_others :: "'b world \<Rightarrow> 'b world" \<comment> \<open>what other requests do while the handler sleeps or reads\<close>
  sr_upgrade :: bool
  sr_reads :: "client_read list"
  sr_bot :: "string \<Rightarrow> bot_status"

definition answer :: "('b, response) act \<Rightarrow> ('b, poll_answer) act" where
  "answer a = map_state Answer a"

definition upgraded :: "('b, response option) act \<Rightarrow> ('b, poll_answer) act" where
  "upgraded a = map_state (\<lambda>x. case x of None \<Rightarrow> ClientGone | Some resp \<Rightarrow> Answer resp) a"

definition worker_endpoint ::
  "'b app \<Rightarrow> 'b surroundings \<Rightarrow> request \<Rightarrow> endpoint_name \<Rightarrow> (channel \<Rightarrow> ('b, response) act) option" where
  "worker_endpoint app sr r e =
     (case e of
        Activate \<Rightarrow> Some (activateHandler app r)
      | Deactivate \<Rightarrow> Some (deactivateHandler app r)
      | Sync \<Rightarrow> Some (syncHandler app r)
      | Line \<Rightarrow> Some (lineHandler app r)
      | MediaUpload \<Rightarrow> Some (mediaHandler app (sr_others sr) r)
      | Statuscheck \<Rightarrow> Some statuscheckHandler
      | GetIncoming \<Rightarrow> Some (getIncomingHandler app r)
      | DeleteIncoming \<Rightarrow> Some (deleteIncomingHandler app r)
      | PostRestart \<Rightarrow> Some (postRestartHandler app r)
      | GetRestart \<Rightarrow> Some (getRestartHandler app r)
      | DeleteRestart \<Rightarrow> Some (deleteRestartHandler app r)
      | _ \<Rightarrow> None)"

definition admin_endpoint ::
  "'b app \<Rightarrow> 'b surroundings \<Rightarrow> request \<Rightarrow> endpoint_name \<Rightarrow> (channel \<Rightarrow> ('b, poll_answer) act) option" where
  "admin_endpoint app sr r e =
     (case e of
        AdminInfo \<Rightarrow> Some (\<lambda>cs. answer (getAdminInfoHandler app (sr_bot sr (Key cs)) cs))
      | AdminPoll \<Rightarrow> Some (\<lambda>cs. do { now \<leftarrow> time_Now; ret (adminPollHandler r cs now (sr_rounds sr)) })
      | AdminPostIncoming \<Rightarrow> Some (\<lambda>cs. answer (postAdminIncomingHandler app r cs))
      | AdminDeleteIncoming \<Rightarrow> Some (\<lambda>cs. answer (deleteAdminIncomingHandler app r cs))
      | AdminPostRestart \<Rightarrow> Some (\<lambda>cs. answer (postAdminRestartHandler app r cs))
      | AdminDeleteRestart \<Rightarrow> Some (\<lambda>cs. answer (deleteAdminRestartHandler app r cs))
      | AdminDeleteStream \<Rightarrow> Some (\<lambda>cs. answer (deleteAdminStreamHandler app r cs))
      | AdminEditStream \<Rightarrow> Some (\<lambda>cs. answer (postAdminStreamHandler app r cs))
      | AdminStop \<Rightarrow> Some (\<lambda>cs. answer (postAdminStopHandler app r cs))
      | AdminGetVod \<Rightarrow> Some (\<lambda>cs. answer (getAdminVodHandler app r cs))
      | AdminPostVod \<Rightarrow> Some (\<lambda>cs. answer (postAdminVodHandler app r cs))
      | AdminGetMembership \<Rightarrow> Some (\<lambda>cs. answer (getAdminMembershipHandler app cs))
      | AdminPostMembership \<Rightarrow> Some (\<lambda>cs. answer (postAdminMembershipHandler app r cs))
      | AdminDeleteMembership \<Rightarrow> Some (\<lambda>cs. answer (deleteAdminMembershipHandler app r cs))
      | _ \<Rightarrow> None)"

definition public_endpoint ::
  "'b app \<Rightarrow> 'b surroundings \<Rightarrow> request \<Rightarrow> endpoint_name \<Rightarrow> (channel \<Rightarrow> ('b, poll_answer) act) option" where
  "public_endpoint app sr r e =
     (case e of
        AdminUI \<Rightarrow> Some (\<lambda>cs. answer adminUIHandler)
      | Websocket \<Rightarrow> Some (\<lambda>cs. upgraded (wsHandler app (sr_upgrade sr) (sr_others sr) (sr_reads sr) cs))
      | StreamFile \<Rightarrow> Some (\<lambda>cs. answer (streamHandler app r cs))
      | DownloadFile \<Rightarrow> Some (\<lambda>cs. answer (downloadHandler app r cs))
      | FrameFile \<Rightarrow> Some (\<lambda>cs. answer (getFrameHandler app r cs))
      | TranscriptOf \<Rightarrow> Some (\<lambda>cs. answer (getTranscriptHandler app r cs))
      | PostClip \<Rightarrow> Some (\<lambda>cs. answer (postClipHandler app r cs))
      | PostTrim \<Rightarrow> Some (\<lambda>cs. answer (postTrimHandler app r cs))
      | _ \<Rightarrow> None)"

text \<open>Routing to the handler with its middleware, once the route is found.\<close>

definition serve_route :: "'b app \<Rightarrow> 'b surroundings \<Rightarrow> request \<Rightarrow> endpoint_name \<Rightarrow> ('b, poll_answer) act" where
  "serve_route app sr r e =
     (if e = PublicStatus then answer (getStatusHandler app)
      else if e = Heartbeat then apiKeyMiddleware app r (answer (workerStatusHandler r))
      else if e = WorkerEvents then apiKeyMiddleware app r (do { now \<leftarrow> time_Now; getEventsHandler app r now (sr_rounds sr) })
      else (case worker_endpoint app sr r e of
          Some h \<Rightarrow> apiKeyMiddleware app r (withChannel app r (\<lambda>cs. answer (h cs)))
        | None \<Rightarrow> (case admin_endpoint app sr r e of
            Some h \<Rightarrow> withAdminChannel app r h
          | None \<Rightarrow> (case public_endpoint app sr r e of
              Some h \<Rightarrow> withChannel app r h
            | None \<Rightarrow> ret (Answer (http_Error ''404 page not found'' 404))))))"

definition cors_headers :: "(string \<times> string) list" where
  "cors_headers =
     [(''Access-Control-Allow-Origin'', ''*''),
      (''Access-Control-Allow-Methods'', ''GET, POST, OPTIONS, PUT, DELETE''),
      (''Access-Control-Allow-Headers'', ''Content-Type, X-API-Key, X-Admin-Key, Authorization''),
      (''Access-Control-Expose-Headers'', ''Content-Disposition''),
      (''Access-Control-Max-Age'', ''86400'')]"

definition with_cors :: "poll_answer \<Rightarrow> poll_answer" where
  "with_cors a = (case a of Answer resp \<Rightarrow> Answer (resp\<lparr>headers := cors_headers @ headers resp\<rparr>) | _ \<Rightarrow> a)"

text \<open>\<open>ServeHTTP\<close> is \<^verbatim>\<open>CorsMiddleware\<close> around the mux.\<close>

definition ServeHTTP :: "'b app \<Rightarrow> 'b surroundings \<Rightarrow> request \<Rightarrow> ('b, poll_answer) act" where
  "ServeHTTP app sr r = map_state with_cors
     (if r_Method r = ''OPTIONS'' then ret (Answer (reply 200 NoBody))
      else (case find_route r of
          Some (e, vs) \<Rightarrow>
            serve_route app sr (r\<lparr>r_PathValue := (\<lambda>v. case map_of vs v of None \<Rightarrow> [] | Some x \<Rightarrow> x)\<rparr>) e
        | None \<Rightarrow> ret (Answer
            (if list_ex (\<lambda>(m, p, e). match_segments p (path_segments (r_Path r)) \<noteq> None) routes
             then http_Error ''Method Not Allowed'' 405 else http_Error ''404 page not found'' 404))))"

end
