(* ===== verification/Samples.thy ===== *)
theory Samples
  imports World
begin

text \<open>
  A concrete application on local storage with one channel, for evaluating the model. The processor
  copies its input, the identifier supply counts, the other packages' functions are the identity.
\<close>

definition copy_file :: "string \<Rightarrow> string \<Rightarrow> disk \<Rightarrow> unit res \<times> disk" where
  "copy_file inp out d =
     (case look d inp of
        None \<Rightarrow> (Inl ErrNotExist, d)
      | Some x \<Rightarrow>
          (if out \<in> set (dirs d) \<or> \<not> set (ancestors out) \<subseteq> set (dirs d) then (Inl ErrNotExist, d)
           else (Inr (), put_file out x d)))"

definition sample_processor :: processor where
  "sample_processor = \<lparr>p_Convert = copy_file, p_Remux = copy_file,
     p_Trim = (\<lambda>inp out _ _. copy_file inp out), p_ExtractFrame = (\<lambda>inp out _. copy_file inp out)\<rparr>"

definition sample_channel :: channel where
  "sample_channel = \<lparr>Key = ''ch'', AdminKey = ''adm'', MembersName = ''m'', BaseMediaFolder = ''tmp/ch'',
     NumPastStreams = 1\<rparr>"

definition sample_app :: "unit app" where
  "sample_app = \<lparr>ApiKey = ''key'', Storage = LocalStorage ''tmp'' [], Media = sample_processor,
     Discord = sample_client, Archive = archive_NewClient ''http://a'' ''k'',
     Transport = sample_transport [], Channels = [sample_channel], MaxConn = 10000, MaxClipSize = 40,
     TempDir = ''tmp'', IncomingStreamTTL = 86400000000, AppVersion = ''dev'', AppBuildTime = [],
     lower = map ascii_lower, shortuuid = (\<lambda>n. ''id'' @ nat_digits n), sanitize = (\<lambda>s. s),
     QueryEscape = (\<lambda>s. s), RFC1123 = format_int\<rparr>"

definition sample_stream :: "string \<Rightarrow> bool \<Rightarrow> int \<Rightarrow> stream" where
  "sample_stream sid live t = \<lparr>ChannelID = ''ch'', StreamID = sid, StreamTitle = ''t'', StartTime = ''0'',
     IsLive = live, MediaType = ''audio'', ActivatedTime = t\<rparr>"

definition sample_world :: "stream list \<Rightarrow> unit world" where
  "sample_world ss = new_world sample_app
     \<lparr>conn_db = createSchema\<lparr>streams := ss\<rparr>, faults = []\<rparr> empty_store 100000000"

lemma sample_channel_sel [simp]:
  "Key sample_channel = ''ch''" "NumPastStreams sample_channel = 1" "AdminKey sample_channel = ''adm''"
  "MembersName sample_channel = ''m''" "BaseMediaFolder sample_channel = ''tmp/ch''"
  by (simp_all add: sample_channel_def)

lemma sample_app_sel [simp]:
  "Storage sample_app = LocalStorage ''tmp'' []" "Channels sample_app = [sample_channel]"
  "ApiKey sample_app = ''key''" "TempDir sample_app = ''tmp''" "Discord sample_app = sample_client"
  "Media sample_app = sample_processor" "MaxClipSize sample_app = 40"
  by (simp_all add: sample_app_def)

lemma sample_find_channel [simp]: "find_channel sample_app ''ch'' = Some sample_channel"
  by (simp add: find_channel_def)

lemma sample_world_sel [simp]:
  "conn (sample_world ss) = \<lparr>conn_db = createSchema\<lparr>streams := ss\<rparr>, faults = []\<rparr>"
  "clock (sample_world ss) = 100000000" "async_deletes (sample_world ss) = []"
  "stores (sample_world ss) = empty_store" "counters (sample_world ss) = (\<lambda>_. 100000)"
  by (simp_all add: sample_world_def new_world_def)

lemma sample_stream_sel [simp]:
  "ChannelID (sample_stream sid live t) = ''ch''" "StreamID (sample_stream sid live t) = sid"
  "IsLive (sample_stream sid live t) = live" "ActivatedTime (sample_stream sid live t) = t"
  "MediaType (sample_stream sid live t) = ''audio''"
  by (simp_all add: sample_stream_def)

end
