(* ===== verification/Lifecycle_Props.thy ===== *)
theory Lifecycle_Props
  imports Lifecycle Samples
begin

text \<open>
  What activation, retention, deactivation and removal do to the database and the rest of the
  world. Unless a lemma says otherwise the database reports no fault; the faulty cases are in the
  lemmas about the single operations.
\<close>

section \<open>Running actions on a healthy database\<close>

definition healthy :: "'b world \<Rightarrow> bool" where
  "healthy w \<longleftrightarrow> faults (conn w) = []"

definition world_db :: "'b world \<Rightarrow> db" where
  "world_db w = conn_db (conn w)"

definition set_db :: "db \<Rightarrow> 'b world \<Rightarrow> 'b world" where
  "set_db d w = w\<lparr>conn := (conn w)\<lparr>conn_db := d\<rparr>\<rparr>"

definition cascade :: "string \<Rightarrow> string \<Rightarrow> db \<Rightarrow> db" where
  "cascade ch sid d = del_lines ch sid (del_stream ch sid d)"

lemma set_db_same [simp]: "set_db (world_db w) w = w"
  by (simp add: set_db_def world_db_def)

lemma set_db_twice [simp]: "set_db d (set_db d' w) = set_db d w"
  by (simp add: set_db_def)

lemma world_db_set [simp]: "world_db (set_db d w) = d"
  by (simp add: set_db_def world_db_def)

lemma healthy_set [simp]: "healthy (set_db d w) = healthy w"
  by (simp add: set_db_def healthy_def)

lemma set_db_frame [simp]:
  "stores (set_db d w) = stores w" "clock (set_db d w) = clock w" "hubs (set_db d w) = hubs w"
  "counters (set_db d w) = counters w" "notifier (set_db d w) = notifier w"
  "gauge (set_db d w) = gauge w" "vods (set_db d w) = vods w"
  "async_deletes (set_db d w) = async_deletes w" "discord (set_db d w) = discord w"
  "next_uuid (set_db d w) = next_uuid w"
  by (simp_all add: set_db_def)

lemma set_db_commute [simp]:
  "set_db d (w\<lparr>stores := s\<rparr>) = (set_db d w)\<lparr>stores := s\<rparr>" "set_db d (w\<lparr>hubs := h\<rparr>) = (set_db d w)\<lparr>hubs := h\<rparr>"
  "set_db d (w\<lparr>counters := c\<rparr>) = (set_db d w)\<lparr>counters := c\<rparr>"
  "set_db d (w\<lparr>notifier := n\<rparr>) = (set_db d w)\<lparr>notifier := n\<rparr>"
  "set_db d (w\<lparr>gauge := g\<rparr>) = (set_db d w)\<lparr>gauge := g\<rparr>" "set_db d (w\<lparr>vods := v\<rparr>) = (set_db d w)\<lparr>vods := v\<rparr>"
  "set_db d (w\<lparr>async_deletes := a\<rparr>) = (set_db d w)\<lparr>async_deletes := a\<rparr>"
  "set_db d (w\<lparr>discord := dd\<rparr>) = (set_db d w)\<lparr>discord := dd\<rparr>"
  by (simp_all add: set_db_def)

lemma world_db_frame [simp]:
  "world_db (w\<lparr>stores := s\<rparr>) = world_db w" "world_db (w\<lparr>hubs := h\<rparr>) = world_db w"
  "world_db (w\<lparr>counters := c\<rparr>) = world_db w" "world_db (w\<lparr>notifier := n\<rparr>) = world_db w"
  "world_db (w\<lparr>gauge := g\<rparr>) = world_db w" "world_db (w\<lparr>vods := v\<rparr>) = world_db w"
  "world_db (w\<lparr>async_deletes := a\<rparr>) = world_db w" "world_db (w\<lparr>discord := dd\<rparr>) = world_db w"
  "world_db (w\<lparr>next_uuid := u\<rparr>) = world_db w"
  by (simp_all add: world_db_def)

lemma healthy_frame [simp]:
  "healthy (w\<lparr>stores := s\<rparr>) = healthy w" "healthy (w\<lparr>hubs := h\<rparr>) = healthy w"
  "healthy (w\<lparr>counters := c\<rparr>) = healthy w" "healthy (w\<lparr>notifier := n\<rparr>) = healthy w"
  "healthy (w\<lparr>gauge := g\<rparr>) = healthy w" "healthy (w\<lparr>vods := v\<rparr>) = healthy w"
  "healthy (w\<lparr>async_deletes := a\<rparr>) = healthy w" "healthy (w\<lparr>discord := dd\<rparr>) = healthy w"
  "healthy (w\<lparr>next_uuid := u\<rparr>) = healthy w"
  by (simp_all add: healthy_def)

lemma sql_query_ok: "healthy w \<Longrightarrow> run (sql (db_query f)) w = (Inr (f (world_db w)), w)"
  by (simp add: run_sql healthy_def world_db_def)

lemma sql_exec_ok:
  "healthy w \<Longrightarrow> run (sql (db_exec (\<lambda>d. Inr (f d, ())))) w = (Inr (), set_db (f (world_db w)) w)"
  by (simp add: run_sql healthy_def world_db_def set_db_def)

lemma cascade_ok:
  "healthy w \<Longrightarrow> run (sql (DeleteStreamCascade ch sid)) w = (Inr (), set_db (cascade ch sid (world_db w)) w)"
  by (simp add: run_sql healthy_def world_db_def set_db_def cascade_def DeleteStreamCascade_def
      begin_tx_def tx_exec_def tx_commit_def)

lemmas query_ok = sql_query_ok [of _ "\<lambda>d. first_row (sel_streams ch d)" for ch, folded GetRecentStream_def]
  sql_query_ok [of _ "sel_streams ch" for ch, folded GetAllStreams_def]

lemma past_ok: "healthy w \<Longrightarrow> \<exists>ps. run (sql (GetPastStreams ch sid)) w = (Inr ps, w)"
  by (simp add: GetPastStreams_def sql_query_ok)

lemma upsert_ok: "healthy w \<Longrightarrow> run (sql (UpsertStream st)) w = (Inr (), set_db (upsert_stream st (world_db w)) w)"
  by (simp add: UpsertStream_def sql_exec_ok)

lemma set_live_ok:
  "healthy w \<Longrightarrow> run (sql (SetStreamLive ch sid b)) w = (Inr (), set_db (set_live ch sid b (world_db w)) w)"
  by (simp add: SetStreamLive_def sql_exec_ok)

section \<open>Deleting several streams\<close>

lemma cascade_streams: "streams (cascade ch sid d) = filter (\<lambda>s. \<not> of_stream ch sid s) (streams d)"
  by (simp add: cascade_def del_lines_def del_stream_def delete_where_def)

lemma cascade_lines: "transcripts (cascade ch sid d) = filter (\<lambda>r. \<not> in_stream ch sid r) (transcripts d)"
  by (simp add: cascade_def del_lines_def del_stream_def delete_where_def)

lemma fold_cascade:
  "streams (fold (cascade ch) ids d) = filter (\<lambda>s. \<not> (ChannelID s = ch \<and> StreamID s \<in> set ids)) (streams d)"
  "transcripts (fold (cascade ch) ids d) =
     filter (\<lambda>r. \<not> (row_channel r = ch \<and> row_stream r \<in> set ids)) (transcripts d)"
  by (induction ids arbitrary: d)
    (auto simp: cascade_streams cascade_lines of_stream_def in_stream_def intro!: filter_cong)

lemma sel_streams_fold_cascade:
  "sel_streams ch (fold (cascade ch) ids d) = filter (\<lambda>s. StreamID s \<notin> set ids) (sel_streams ch d)"
proof -
  have "sel_streams ch (fold (cascade ch) ids d) =
      order_desc ActivatedTime (filter (\<lambda>s. StreamID s \<notin> set ids) (filter (\<lambda>s. ChannelID s = ch) (streams d)))"
    unfolding sel_streams_def fold_cascade by (simp add: conj_ac) (metis (mono_tags, lifting))
  then show ?thesis by (simp add: sel_streams_def filter_order_desc)
qed

lemma sel_streams_other_channel:
  "ch' \<noteq> ch \<Longrightarrow> sel_streams ch' (fold (cascade ch) ids d) = sel_streams ch' d"
  unfolding sel_streams_def fold_cascade by (rule arg_cong [of _ _ "order_desc ActivatedTime"]) (auto intro: filter_cong)

lemma filter_drop_ids:
  "distinct (map f xs) \<Longrightarrow> filter (\<lambda>x. f x \<notin> f ` set (drop k xs)) xs = take k xs"
proof (induction xs arbitrary: k)
  case (Cons x xs)
  show ?case
  proof (cases k)
    case 0
    then show ?thesis by (simp add: filter_empty_conv)
  next
    case (Suc n)
    have "f x \<notin> f ` set (drop n xs)" using Cons.prems set_drop_subset [of n xs] by auto
    with Cons Suc show ?thesis by simp
  qed
qed simp

section \<open>Retention\<close>

lemma retain_local_ok:
  "healthy w \<Longrightarrow> 0 \<le> kept \<Longrightarrow>
   run (retain_local cs a kept ss) w =
     (let dropped = drop (nat (NumPastStreams cs - kept)) (filter (\<lambda>s. StreamID s \<noteq> a) ss)
      in ((), (set_db (fold (cascade (Key cs)) (map StreamID dropped) (world_db w)) w)
            \<lparr>async_deletes := async_deletes w @ map (\<lambda>s. StreamPrefix (Key cs) (StreamID s)) dropped\<rparr>))"
proof (induction ss arbitrary: w kept)
  case Nil
  then show ?case by simp
next
  case (Cons s ss)
  consider "StreamID s = a" | "StreamID s \<noteq> a" "kept < NumPastStreams cs"
    | "StreamID s \<noteq> a" "\<not> kept < NumPastStreams cs" by blast
  then show ?case
  proof cases
    case 1
    with Cons show ?thesis by simp
  next
    case 2
    then have "nat (NumPastStreams cs - kept) = Suc (nat (NumPastStreams cs - (kept + 1)))" using Cons.prems by simp
    with 2 Cons show ?thesis by simp
  next
    case 3
    let ?w = "(set_db (cascade (Key cs) (StreamID s) (world_db w)) w)
      \<lparr>async_deletes := async_deletes w @ [StreamPrefix (Key cs) (StreamID s)]\<rparr>"
    have n: "nat (NumPastStreams cs - kept) = 0" using 3 by simp
    have step: "run (retain_local cs a kept (s # ss)) w = run (retain_local cs a kept ss) ?w"
      using 3 Cons.prems by (simp add: cascade_ok deleteStreamStorageAsync_def)
    have "healthy ?w" using Cons.prems by simp
    from Cons.IH [OF this Cons.prems(2)] show ?thesis
      unfolding step using 3 by (simp add: Let_def n)
  qed
qed

lemma sel_streams_mem: "s \<in> set (sel_streams ch d) \<longleftrightarrow> s \<in> set (streams d) \<and> ChannelID s = ch"
  by (auto simp: sel_streams_def)

lemma distinct_sel_ids: "schema_ok d \<Longrightarrow> distinct (map StreamID (sel_streams ch d))"
proof -
  assume "schema_ok d"
  then have "distinct (map stream_key (streams d))" by (simp add: schema_ok_def)
  then have d: "distinct (streams d)" "inj_on stream_key (set (streams d))"
    by (simp_all add: distinct_map)
  have "inj_on StreamID (set (sel_streams ch d))"
    using d(2) by (auto simp: inj_on_def sel_streams_mem stream_key_def)
  moreover have "distinct (sel_streams ch d)" using d(1) by (simp add: sel_streams_def)
  ultimately show ?thesis by (simp add: distinct_map)
qed

lemma filter_other_ids:
  "distinct (map f xs) \<Longrightarrow> distinct (map f (filter P xs))"
  by (rule distinct_map_filter)

text \<open>
  C9. Retention on local storage keeps the active stream and exactly the configured number of other
  streams, the most recently activated ones; the rest lose their row and their transcript and have
  the deletion of exactly their folder queued. Other channels are untouched.
\<close>

theorem retention_keeps_most_recent:
  fixes w :: "'b world" and cs :: channel and a :: string
  assumes "healthy w" "schema_ok (world_db w)" "st_IsLocal (Storage app)"
  defines "others \<equiv> filter (\<lambda>s. StreamID s \<noteq> a) (sel_streams (Key cs) (world_db w))"
  defines "n \<equiv> nat (NumPastStreams cs)"
  defines "w' \<equiv> snd (run (applyRetention app cs a) w)"
  shows "filter (\<lambda>s. StreamID s \<noteq> a) (sel_streams (Key cs) (world_db w')) = take n others \<and>
    filter (\<lambda>s. StreamID s = a) (sel_streams (Key cs) (world_db w')) =
      filter (\<lambda>s. StreamID s = a) (sel_streams (Key cs) (world_db w)) \<and>
    async_deletes w' = async_deletes w @ map (\<lambda>s. StreamPrefix (Key cs) (StreamID s)) (drop n others) \<and>
    (\<forall>s. s \<in> set (drop n others) \<longrightarrow> sel_rows (Key cs) (StreamID s) (world_db w') = []) \<and>
    (\<forall>ch. ch \<noteq> Key cs \<longrightarrow> sel_streams ch (world_db w') = sel_streams ch (world_db w) \<and>
       (\<forall>sid. sel_rows ch sid (world_db w') = sel_rows ch sid (world_db w)))"
proof -
  let ?ch = "Key cs" and ?d = "world_db w" and ?drop = "drop n others"
  let ?ids = "map StreamID ?drop"
  let ?d' = "fold (cascade ?ch) ?ids ?d"
  have w': "w' = (set_db ?d' w)\<lparr>async_deletes := async_deletes w @ map (\<lambda>s. StreamPrefix ?ch (StreamID s)) ?drop\<rparr>"
    using assms(1,3) by (simp add: w'_def applyRetention_def query_ok retain_local_ok n_def others_def Let_def)
  then have db: "world_db w' = ?d'" by simp
  have dist: "distinct (map StreamID others)"
    using distinct_sel_ids [OF assms(2)] by (simp add: others_def distinct_map_filter)
  have sel: "sel_streams ?ch ?d' = filter (\<lambda>s. StreamID s \<notin> StreamID ` set ?drop) (sel_streams ?ch ?d)"
    by (simp add: sel_streams_fold_cascade)
  have "filter (\<lambda>s. StreamID s \<noteq> a) (sel_streams ?ch ?d') = filter (\<lambda>s. StreamID s \<notin> StreamID ` set ?drop) others"
    unfolding sel by (simp add: others_def conj_commute)
  also have "\<dots> = take n others" by (rule filter_drop_ids [OF dist])
  finally have 1: "filter (\<lambda>s. StreamID s \<noteq> a) (sel_streams ?ch ?d') = take n others" .
  have "a \<notin> StreamID ` set ?drop"
    using set_drop_subset [of n others] by (auto simp: others_def)
  then have 2: "filter (\<lambda>s. StreamID s = a) (sel_streams ?ch ?d') = filter (\<lambda>s. StreamID s = a) (sel_streams ?ch ?d)"
    unfolding sel by (auto intro!: filter_cong)
  have 3: "sel_rows ?ch (StreamID s) ?d' = []" if "s \<in> set ?drop" for s
    using that by (auto simp: sel_rows_def fold_cascade in_stream_def filter_empty_conv)
  have 4: "sel_rows ch sid ?d' = sel_rows ch sid ?d" if "ch \<noteq> ?ch" for ch sid
    using that by (auto simp: sel_rows_def fold_cascade in_stream_def intro!: filter_cong)
  show ?thesis
    using 1 2 3 4 sel_streams_other_channel [of _ ?ch ?ids ?d] by (simp add: db) (simp add: w')
qed

definition three_streams :: "unit world" where
  "three_streams = sample_world [sample_stream ''a'' True 3, sample_stream ''b'' False 1, sample_stream ''c'' False 2]"

lemma three_streams_facts: "healthy three_streams" "schema_ok (world_db three_streams)"
  by (simp_all add: three_streams_def healthy_def world_db_def schema_ok_def createSchema_def stream_key_def)

theorem retention_keeps_most_recent_witness:
  "map StreamID (filter (\<lambda>s. StreamID s \<noteq> ''a'')
     (sel_streams ''ch'' (world_db (snd (run (applyRetention sample_app sample_channel ''a'') three_streams))))) = [''c''] \<and>
   async_deletes (snd (run (applyRetention sample_app sample_channel ''a'') three_streams)) = [''ch/b/'']"
proof -
  have l: "st_IsLocal (Storage sample_app)" by (simp add: LocalStorage_def)
  have sel: "sel_streams ''ch'' (world_db three_streams) =
      [sample_stream ''a'' True 3, sample_stream ''c'' False 2, sample_stream ''b'' False 1]"
    by (simp add: three_streams_def world_db_def sel_streams_def order_desc_def createSchema_def)
  show ?thesis
    using retention_keeps_most_recent [OF three_streams_facts l, where a = "''a''" and cs = sample_channel]
    by (simp add: sel StreamPrefix_def) (simp add: three_streams_def)
qed

section \<open>Activation\<close>

text \<open>The part of the world retention can change, on either kind of storage.\<close>

lemma reconcile_remote_effect:
  "healthy w \<Longrightarrow> \<exists>ids s'. a \<notin> set ids \<and>
     run (reconcile_remote app cs a ss) w = ((), (set_db (fold (cascade (Key cs)) ids (world_db w)) w)\<lparr>stores := s'\<rparr>)"
proof (induction ss arbitrary: w)
  case Nil
  show ?case by (rule exI [of _ "[]"], rule exI [of _ "stores w"]) simp
next
  case (Cons s ss)
  show ?case
  proof (cases "StreamID s = a")
    case True
    with Cons show ?thesis by simp
  next
    case False
    obtain r st where q: "st_StreamExists (Storage app) (StreamPrefix (Key cs) (StreamID s)) (stores w) = (r, st)"
      by fastforce
    let ?w1 = "w\<lparr>stores := st\<rparr>"
    let ?del = "if r = Inr False then [StreamID s] else []"
    have "run (reconcile_remote app cs a (s # ss)) w =
        run (reconcile_remote app cs a ss) (set_db (fold (cascade (Key cs)) ?del (world_db w)) ?w1)"
      using False Cons.prems q
      by (cases r) (auto simp: run_store cascade_ok split: bool.splits)
    moreover have "healthy (set_db (fold (cascade (Key cs)) ?del (world_db w)) ?w1)" using Cons.prems by simp
    ultimately obtain ids s' where "a \<notin> set ids"
      "run (reconcile_remote app cs a (s # ss)) w =
       ((), (set_db (fold (cascade (Key cs)) ids (fold (cascade (Key cs)) ?del (world_db w))) w)\<lparr>stores := s'\<rparr>)"
      using Cons.IH by fastforce
    then show ?thesis
      using False by (intro exI [of _ "?del @ ids"] exI [of _ s']) simp
  qed
qed

lemma applyRetention_effect:
  assumes "healthy w"
  shows "\<exists>ids s' q. a \<notin> set ids \<and> run (applyRetention app cs a) w =
     ((), (set_db (fold (cascade (Key cs)) ids (world_db w)) w)\<lparr>stores := s', async_deletes := q\<rparr>)"
proof -
  let ?all = "sel_streams (Key cs) (world_db w)"
  consider "st_IsLocal (Storage app)" | "\<not> st_IsLocal (Storage app)" "length ?all \<le> 1"
    | "\<not> st_IsLocal (Storage app)" "\<not> length ?all \<le> 1" by blast
  then show ?thesis
  proof cases
    case 1
    let ?drop = "drop (nat (NumPastStreams cs)) (filter (\<lambda>s. StreamID s \<noteq> a) ?all)"
    have "a \<notin> set (map StreamID ?drop)"
      using set_drop_subset [of "nat (NumPastStreams cs)" "filter (\<lambda>s. StreamID s \<noteq> a) ?all"] by auto
    with 1 assms show ?thesis
      by (intro exI [of _ "map StreamID ?drop"] exI [of _ "stores w"]
          exI [of _ "async_deletes w @ map (\<lambda>s. StreamPrefix (Key cs) (StreamID s)) ?drop"])
        (simp add: applyRetention_def query_ok retain_local_ok Let_def)
  next
    case 2
    with assms show ?thesis
      by (intro exI [of _ "[]"] exI [of _ "stores w"] exI [of _ "async_deletes w"])
        (simp add: applyRetention_def query_ok)
  next
    case 3
    obtain ids s' where "a \<notin> set ids" "run (reconcile_remote app cs a ?all) w =
        ((), (set_db (fold (cascade (Key cs)) ids (world_db w)) w)\<lparr>stores := s'\<rparr>)"
      using reconcile_remote_effect [OF assms] by metis
    with 3 assms show ?thesis
      by (intro exI [of _ ids] exI [of _ s'] exI [of _ "async_deletes w"])
        (simp add: applyRetention_def query_ok)
  qed
qed

definition live_streams :: "string \<Rightarrow> db \<Rightarrow> stream list" where
  "live_streams ch d = filter (\<lambda>s. ChannelID s = ch \<and> IsLive s) (streams d)"

definition recent :: "string \<Rightarrow> db \<Rightarrow> stream option" where
  "recent ch d = first_row (sel_streams ch d)"

text \<open>A channel is tidy when no stream but its most recent one is live.\<close>

definition tidy :: "string \<Rightarrow> db \<Rightarrow> bool" where
  "tidy ch d \<longleftrightarrow> (\<forall>s \<in> set (live_streams ch d). recent ch d = Some s)"

lemma live_streams_mem: "s \<in> set (live_streams ch d) \<longleftrightarrow> s \<in> set (streams d) \<and> ChannelID s = ch \<and> IsLive s"
  by (auto simp: live_streams_def)

lemma recent_mem: "recent ch d = Some s \<Longrightarrow> s \<in> set (streams d) \<and> ChannelID s = ch"
  using first_row_set [of "sel_streams ch d" s] by (simp add: recent_def sel_streams_mem)

lemma recent_ok: "healthy w \<Longrightarrow> run (sql (GetRecentStream ch)) w = (Inr (recent ch (world_db w)), w)"
  by (simp add: query_ok recent_def)

lemma filter_update_live:
  "filter (\<lambda>s. ChannelID s = ch \<and> IsLive s) (update_where (of_stream ch sid) (\<lambda>s. s\<lparr>IsLive := False\<rparr>) xs)
   = filter (\<lambda>s. StreamID s \<noteq> sid) (filter (\<lambda>s. ChannelID s = ch \<and> IsLive s) xs)"
  by (induction xs) (auto simp: update_where_def of_stream_def)

lemma live_streams_set_live:
  "live_streams ch (set_live ch sid False d) = filter (\<lambda>s. StreamID s \<noteq> sid) (live_streams ch d)"
  by (simp add: live_streams_def set_live_def filter_update_live)

lemma live_streams_fold_cascade:
  "live_streams ch (fold (cascade ch) ids d) = filter (\<lambda>s. StreamID s \<notin> set ids) (live_streams ch d)"
  by (auto simp: live_streams_def fold_cascade intro!: filter_cong)

lemma bump_ok:
  "find_channel app ch = Some cs \<Longrightarrow> run (bumpAdminChange app ch) w =
     ((), w\<lparr>counters := (counters w)(ch := wrap64 (counters w ch + 1)), notifier := Notify (notifier w)\<rparr>)"
  by (simp add: bumpAdminChange_def)

text \<open>What the database is after a new stream has been inserted.\<close>

definition stop_recent :: "string \<Rightarrow> db \<Rightarrow> db" where
  "stop_recent ch d =
     (case recent ch d of None \<Rightarrow> d
      | Some c \<Rightarrow> if IsLive c then set_live ch (StreamID c) False d else d)"

lemma stop_recent_live: "tidy ch d \<Longrightarrow> live_streams ch (stop_recent ch d) = []"
proof (cases "recent ch d")
  case None
  assume "tidy ch d"
  with None have "set (live_streams ch d) = {}" by (auto simp: tidy_def)
  with None show ?thesis by (simp add: stop_recent_def)
next
  case (Some c)
  assume t: "tidy ch d"
  show ?thesis
  proof (cases "IsLive c")
    case True
    have "filter (\<lambda>s. StreamID s \<noteq> StreamID c) (live_streams ch d) = []"
      using t Some by (auto simp: tidy_def filter_empty_conv)
    with Some True show ?thesis by (simp add: stop_recent_def live_streams_set_live)
  next
    case False
    have "s = c" if "s \<in> set (live_streams ch d)" for s using t Some that by (auto simp: tidy_def)
    then have "s \<notin> set (live_streams ch d)" for s using False live_streams_mem [of s ch d] by auto
    then have "live_streams ch d = []" by (cases "live_streams ch d") auto
    with Some False show ?thesis by (simp add: stop_recent_def)
  qed
qed

lemma stop_recent_keys: "map stream_key (streams (stop_recent ch d)) = map stream_key (streams d)"
  by (auto simp: stop_recent_def set_live_def map_key_update_where stream_key_def split: option.splits)

lemma stop_recent_times:
  "s \<in> set (streams (stop_recent ch d)) \<Longrightarrow>
   \<exists>s0 \<in> set (streams d). ChannelID s0 = ChannelID s \<and> ActivatedTime s0 = ActivatedTime s"
  by (auto simp: stop_recent_def set_live_def update_where_def split: option.splits if_splits)

lemma start_stream_effect:
  assumes "healthy w" "find_channel app (Key cs) = Some cs"
    and new: "(Key cs, sid) \<notin> set (map stream_key (streams (world_db w)))"
    and st: "st = live_stream cs sid title startTime mediaType (clock w)"
  shows "\<exists>ids w'. run (start_stream app cs (recent (Key cs) (world_db w)) sid title startTime mediaType) w = (True, w') \<and>
    healthy w' \<and> sid \<notin> set ids \<and>
    world_db w' = fold (cascade (Key cs)) ids
      ((stop_recent (Key cs) (world_db w))\<lparr>streams := streams (stop_recent (Key cs) (world_db w)) @ [st]\<rparr>) \<and>
    counters w' (Key cs) = wrap64 (counters w (Key cs) + 1)"
proof -
  let ?ch = "Key cs" and ?d = "world_db w"
  let ?w1 = "set_db (stop_recent ?ch ?d) w"
  let ?d2 = "upsert_stream st (stop_recent ?ch ?d)"
  have "stream_key st \<notin> set (map stream_key (streams (stop_recent ?ch ?d)))"
    unfolding stop_recent_keys using new by (simp add: stream_key_def st live_stream_def)
  then have d2: "?d2 = (stop_recent ?ch ?d)\<lparr>streams := streams (stop_recent ?ch ?d) @ [st]\<rparr>"
    by (simp add: upsert_stream_def stream_table.upsert_new)
  define g where "g = gauge (snd (run (case recent ?ch ?d of
        Some c \<Rightarrow> if StreamID c \<noteq> [] then gauge_Delete ?ch (StreamID c) (StreamTitle c) else ret () | None \<Rightarrow> ret ()) w))"
  have gd: "run (case recent ?ch ?d of
        Some c \<Rightarrow> if StreamID c \<noteq> [] then gauge_Delete ?ch (StreamID c) (StreamTitle c) else ret () | None \<Rightarrow> ret ()) w
      = ((), w\<lparr>gauge := g\<rparr>)"
    by (auto simp: g_def gauge_Delete_def split: option.splits)
  have live: "run (case recent ?ch ?d of
        Some c \<Rightarrow> if IsLive c then do { _ \<leftarrow> sql (SetStreamLive ?ch (StreamID c) False); ret () } else ret ()
      | None \<Rightarrow> ret ()) (w\<lparr>gauge := g\<rparr>) = ((), ?w1\<lparr>gauge := g\<rparr>)"
    using assms(1) by (auto simp: stop_recent_def set_live_ok split: option.splits)
  let ?w3 = "(set_db ?d2 w)\<lparr>gauge := g, discord := NotifyStreamStart (lower app) (Discord app) (clock w) ?ch sid title startTime (discord w)\<rparr>"
  have h3: "healthy ?w3" using assms(1) by simp
  obtain ids s' q where ret: "sid \<notin> set ids" "run (applyRetention app cs sid) ?w3 =
      ((), (set_db (fold (cascade ?ch) ids ?d2) ?w3)\<lparr>stores := s', async_deletes := q\<rparr>)"
    using applyRetention_effect [OF h3, of sid app cs] by auto
  let ?w4 = "(set_db (fold (cascade ?ch) ids ?d2) ?w3)\<lparr>stores := s', async_deletes := q\<rparr>"
  have h4: "healthy ?w4" using assms(1) by simp
  obtain ps where ps: "run (sql (GetPastStreams ?ch sid)) ?w4 = (Inr ps, ?w4)" using past_ok [OF h4] by blast
  have "run (start_stream app cs (recent ?ch ?d) sid title startTime mediaType) w =
      run (announce app cs (new_stream_event app st)) (snd (run (broadcast ?ch (EventPastStreams ps)) ?w4))"
    using assms(1) ret(2) ps
    by (simp add: start_stream_def Let_def gd live time_Now_def st [symmetric] upsert_ok alert_def broadcast_def
        split: prod.splits)
  then show ?thesis
    using ret(1) h4 by (intro exI [of _ ids]) (simp add: announce_def broadcast_def bump_ok [OF assms(2)] d2)
qed

text \<open>
  C8. Activating a stream the channel has not seen, on a tidy channel and with a clock ahead of every
  earlier activation, succeeds and makes it the channel's most recent stream and its only live one;
  a stream that was live before is ended, and the change counter moves. This holds on both kinds of
  storage and whatever retention removes.
\<close>

theorem activation_makes_only_live_stream:
  assumes "healthy w" "find_channel app (Key cs) = Some cs" "tidy (Key cs) (world_db w)"
    and "(Key cs, sid) \<notin> set (map stream_key (streams (world_db w)))"
    and "\<forall>s \<in> set (streams (world_db w)). ChannelID s = Key cs \<longrightarrow> ActivatedTime s < clock w"
    and res: "run (activateStream app cs sid title startTime mediaType) w = (ok, w1)"
  defines "d' \<equiv> world_db w1"
  shows "ok \<and> live_streams (Key cs) d' = [live_stream cs sid title startTime mediaType (clock w)] \<and>
    recent (Key cs) d' = Some (live_stream cs sid title startTime mediaType (clock w)) \<and>
    tidy (Key cs) d' \<and> counters w1 (Key cs) = wrap64 (counters w (Key cs) + 1)"
proof -
  let ?ch = "Key cs" and ?d = "world_db w"
  let ?st = "live_stream cs sid title startTime mediaType (clock w)"
  have st: "ChannelID ?st = ?ch" "StreamID ?st = sid" "IsLive ?st" "ActivatedTime ?st = clock w"
    by (simp_all add: live_stream_def)
  have "\<forall>c. recent ?ch ?d = Some c \<longrightarrow> StreamID c \<noteq> sid"
    using assms(4) recent_mem [of ?ch ?d] by (force simp: stream_key_def)
  then have "run (start_stream app cs (recent ?ch ?d) sid title startTime mediaType) w = (ok, w1)"
    using assms(1) res by (auto simp: activateStream_def recent_ok split: option.splits)
  then obtain ids w' where r: "ok" "w1 = w'" "sid \<notin> set ids"
    and db: "world_db w' = fold (cascade ?ch) ids ((stop_recent ?ch ?d)\<lparr>streams := streams (stop_recent ?ch ?d) @ [?st]\<rparr>)"
    and cn: "counters w' ?ch = wrap64 (counters w ?ch + 1)"
    using start_stream_effect [OF assms(1,2,4) refl, of title startTime mediaType] by force
  let ?d2 = "(stop_recent ?ch ?d)\<lparr>streams := streams (stop_recent ?ch ?d) @ [?st]\<rparr>"
  have "live_streams ?ch ?d2 = live_streams ?ch (stop_recent ?ch ?d) @ [?st]"
    using st by (simp add: live_streams_def)
  then have live: "live_streams ?ch d' = [?st]"
    using r(2,3) st(2) by (simp add: d'_def db live_streams_fold_cascade stop_recent_live [OF assms(3)])
  have "first_row (sel_streams ?ch d') = Some ?st"
  proof -
    have mem: "s \<in> set (streams (stop_recent ?ch ?d)) \<or> s = ?st" if "s \<in> set (streams d')" for s
      using that r by (auto simp: d'_def db fold_cascade split: if_splits)
    have "first_row (order_desc ActivatedTime (filter (\<lambda>s. ChannelID s = ?ch) (streams d'))) = Some ?st"
    proof (rule first_row_order_desc_max)
      show "?st \<in> set (filter (\<lambda>s. ChannelID s = ?ch) (streams d'))"
        using r st by (simp add: d'_def db fold_cascade)
      fix s assume s: "s \<in> set (filter (\<lambda>s. ChannelID s = ?ch) (streams d'))" "s \<noteq> ?st"
      then have "s \<in> set (streams (stop_recent ?ch ?d))" "ChannelID s = ?ch" using mem by auto
      with stop_recent_times [of s ?ch ?d] assms(5) show "ActivatedTime s < ActivatedTime ?st"
        unfolding st(4) by fastforce
    qed
    then show ?thesis by (simp add: sel_streams_def)
  qed
  then have "recent ?ch d' = Some ?st" by (simp add: recent_def)
  with live r cn show ?thesis by (simp add: d'_def tidy_def)
qed

theorem activation_makes_only_live_stream_witness:
  "map StreamID (live_streams ''ch'' (world_db (snd (run
     (activateStream sample_app sample_channel ''new'' ''t'' ''7'' ''audio'') three_streams)))) = [''new'']"
proof -
  have fc: "find_channel sample_app (Key sample_channel) = Some sample_channel" by simp
  have t: "tidy (Key sample_channel) (world_db three_streams)"
    by (simp add: tidy_def live_streams_def recent_def sel_streams_def order_desc_def first_row_def
        three_streams_def world_db_def createSchema_def)
  have k: "(Key sample_channel, ''new'') \<notin> set (map stream_key (streams (world_db three_streams)))"
    "\<forall>s \<in> set (streams (world_db three_streams)). ChannelID s = Key sample_channel \<longrightarrow> ActivatedTime s < clock three_streams"
    by (simp_all add: three_streams_def world_db_def createSchema_def stream_key_def)
  from activation_makes_only_live_stream [OF three_streams_facts(1) fc t k prod.collapse [symmetric], of "''t''" "''7''" "''audio''"]
  show ?thesis by (simp add: live_stream_def)
qed

section \<open>Deactivation and removal, faults included\<close>

lemma sql_query_cases:
  assumes "run (sql (db_query f)) w = (r, w1)"
  shows "world_db w1 = world_db w" "r = Inr x \<Longrightarrow> x = f (world_db w)" "\<exists>c. w1 = w\<lparr>conn := c\<rparr>"
  using assms by (auto simp: run_sql world_db_def dest: db_query_db db_query_Inr split: prod.splits)

lemma sql_exec_cases:
  assumes "run (sql (db_exec (\<lambda>d. Inr (f d, ())))) w = (r, w1)"
  shows "world_db w1 = (if r = Inr () then f (world_db w) else world_db w)" "\<exists>c. w1 = w\<lparr>conn := c\<rparr>"
  using assms by (auto simp: run_sql world_db_def dest: db_exec_Inl db_exec_Inr split: prod.splits sum.splits)
    (metis db_exec_Inl old.sum.exhaust old.unit.exhaust)

lemma cascade_cases:
  assumes "run (sql (DeleteStreamCascade ch sid)) w = (r, w1)"
  shows "world_db w1 = (if r = Inr () then cascade ch sid (world_db w) else world_db w)" "\<exists>c. w1 = w\<lparr>conn := c\<rparr>"
proof -
  obtain r' c where d: "DeleteStreamCascade ch sid (conn w) = (r', c)" by fastforce
  with assms have w: "r' = r" "w1 = w\<lparr>conn := c\<rparr>" by (simp_all add: run_sql)
  show "\<exists>c. w1 = w\<lparr>conn := c\<rparr>" using w by blast
  show "world_db w1 = (if r = Inr () then cascade ch sid (world_db w) else world_db w)"
    using DeleteStreamCascade_Inr [of ch sid "conn w" "()" c] DeleteStreamCascade_Inl [of ch sid "conn w" _ c] d w
    by (cases r) (auto simp: world_db_def cascade_def)
qed

lemma removeStream_effect:
  assumes "run (removeStream app cs s deleteMedia) w = (r, w1)" "ChannelID s = Key cs"
  shows "(r = Inr () \<longrightarrow>
      world_db w1 = cascade (Key cs) (StreamID s) (world_db w) \<and>
      sel_rows (Key cs) (StreamID s) (world_db w1) = [] \<and>
      (\<forall>ch sid. (ch, sid) \<noteq> stream_key s \<longrightarrow> sel_rows ch sid (world_db w1) = sel_rows ch sid (world_db w)) \<and>
      streams (world_db w1) = filter (\<lambda>x. stream_key x \<noteq> stream_key s) (streams (world_db w)) \<and>
      vod_get (Key cs) (StreamID s) (vods w1) = None \<and>
      hubs w1 (Key cs) = Broadcast (EventDeletedStream \<lparr>ds_StreamID = StreamID s, ds_StreamTitle = StreamTitle s,
         ds_WasLive = IsLive s\<rparr>) (hubs w (Key cs)) \<and>
      async_deletes w1 = async_deletes w @ (if deleteMedia then [StreamPrefix (Key cs) (StreamID s)] else [])) \<and>
    (r \<noteq> Inr () \<longrightarrow> (\<exists>c. w1 = w\<lparr>conn := c\<rparr>) \<and> world_db w1 = world_db w)"
proof -
  obtain r0 w0 where d: "run (sql (DeleteStreamCascade (Key cs) (StreamID s))) w = (r0, w0)" by fastforce
  note c = cascade_cases [OF d]
  obtain cn where w0: "w0 = w\<lparr>conn := cn\<rparr>" using c(2) by blast
  show ?thesis
  proof (cases r0)
    case (Inl e)
    then have "w1 = w0" "r \<noteq> Inr ()" using assms(1) d by (auto simp: removeStream_def)
    with c Inl show ?thesis by auto
  next
    case (Inr u)
    have r: "r = Inr ()" and db: "world_db w1 = world_db w0"
      and rest: "vod_get (Key cs) (StreamID s) (vods w1) = None"
        "hubs w1 (Key cs) = Broadcast (EventDeletedStream \<lparr>ds_StreamID = StreamID s, ds_StreamTitle = StreamTitle s,
           ds_WasLive = IsLive s\<rparr>) (hubs w (Key cs))"
        "async_deletes w1 = async_deletes w @ (if deleteMedia then [StreamPrefix (Key cs) (StreamID s)] else [])"
      using assms(1) d Inr by (auto simp: removeStream_def gauge_Delete_def broadcast_def deleteStreamStorageAsync_def
          vod_forget_def vod_get_def w0 split: if_splits)
    have "of_stream (Key cs) (StreamID s) x \<longleftrightarrow> stream_key x = stream_key s" for x
      using assms(2) by (auto simp: of_stream_def stream_key_def)
    with r db rest c(1) Inr assms(2) show ?thesis
      by (auto simp: cascade_streams cascade_lines sel_rows_def in_stream_def stream_key_def filter_empty_conv
          intro!: filter_cong)
  qed
qed

text \<open>
  A deletion is announced exactly when it happened: on success the stream's row and transcript
  are gone, nothing of any other stream changed, every viewer is told, the build record is dropped
  and the media folder is queued for deletion if and only if that was asked for; on a database
  error nothing is deleted, announced, dropped or queued.
\<close>

theorem removeStream_all_or_nothing:
  assumes "run (removeStream app cs s deleteMedia) w = (r, w1)" "ChannelID s = Key cs"
  shows "(r = Inr () \<longrightarrow>
      world_db w1 = cascade (Key cs) (StreamID s) (world_db w) \<and>
      sel_rows (Key cs) (StreamID s) (world_db w1) = [] \<and>
      (\<forall>ch sid. (ch, sid) \<noteq> stream_key s \<longrightarrow> sel_rows ch sid (world_db w1) = sel_rows ch sid (world_db w)) \<and>
      streams (world_db w1) = filter (\<lambda>x. stream_key x \<noteq> stream_key s) (streams (world_db w)) \<and>
      vod_get (Key cs) (StreamID s) (vods w1) = None \<and>
      hubs w1 (Key cs) = Broadcast (EventDeletedStream \<lparr>ds_StreamID = StreamID s, ds_StreamTitle = StreamTitle s,
         ds_WasLive = IsLive s\<rparr>) (hubs w (Key cs)) \<and>
      async_deletes w1 = async_deletes w @ (if deleteMedia then [StreamPrefix (Key cs) (StreamID s)] else [])) \<and>
    (r \<noteq> Inr () \<longrightarrow> (\<exists>c. w1 = w\<lparr>conn := c\<rparr>) \<and> world_db w1 = world_db w)"
  using assms by (rule removeStream_effect)

theorem removeStream_all_or_nothing_witness:
  "map StreamID (streams (world_db (snd (run (removeStream sample_app sample_channel
       (sample_stream ''b'' False 1) True) three_streams)))) = [''a'', ''c''] \<and>
   async_deletes (snd (run (removeStream sample_app sample_channel (sample_stream ''b'' False 1) True) three_streams))
     = [''ch/b/'']"
proof -
  let ?s = "sample_stream ''b'' False 1"
  let ?run = "run (removeStream sample_app sample_channel ?s True) three_streams"
  have ok: "fst ?run = Inr ()"
    by (simp add: removeStream_def cascade_ok three_streams_facts split: prod.splits)
  have ss: "streams (world_db three_streams) =
      [sample_stream ''a'' True 3, sample_stream ''b'' False 1, sample_stream ''c'' False 2]"
    "async_deletes three_streams = []"
    by (simp_all add: three_streams_def world_db_def createSchema_def)
  note rm = removeStream_all_or_nothing [where app = sample_app and cs = sample_channel and s = ?s
      and deleteMedia = True and w = three_streams, OF prod.collapse [symmetric]]
  show ?thesis using rm ok by (simp add: ss stream_key_def StreamPrefix_def cascade_streams of_stream_def)
qed

text \<open>
  C34. Deactivation acts on the channel's most recent stream only: it reports success only for the
  live most recent stream, which is then not live and has no activation series any more, while every
  other stream keeps its state; in every other case the stream table is left as it was.
\<close>

theorem deactivation_ends_recent:
  assumes "run (deactivateStream app cs sid) w = (ok, w1)"
  shows "(ok \<longrightarrow> (\<exists>c. recent (Key cs) (world_db w) = Some c \<and> StreamID c = sid \<and> IsLive c \<and>
        gauge w1 (Key cs, sid, StreamTitle c) = None) \<and>
      world_db w1 = set_live (Key cs) sid False (world_db w) \<and>
      (\<forall>x \<in> set (live_streams (Key cs) (world_db w1)). StreamID x \<noteq> sid)) \<and>
    (\<not> ok \<longrightarrow> world_db w1 = world_db w)"
proof -
  obtain r0 w0 where g: "run (sql (GetRecentStream (Key cs))) w = (r0, w0)" by fastforce
  note q = sql_query_cases [OF g [unfolded GetRecentStream_def]]
  show ?thesis
  proof (cases "\<exists>c. r0 = Inr (Some c) \<and> StreamID c = sid \<and> IsLive c")
    case False
    then have "\<not> ok \<and> w1 = w0"
      using assms g by (auto simp: deactivateStream_def split: sum.splits option.splits if_splits)
    with q(1) show ?thesis by simp
  next
    case True
    then obtain c where c: "r0 = Inr (Some c)" "StreamID c = sid" "IsLive c" by blast
    then have rc: "recent (Key cs) (world_db w) = Some c" using q(2) by (simp add: recent_def)
    let ?w2 = "w0\<lparr>gauge := (gauge w0)((Key cs, sid, StreamTitle c) := None)\<rparr>"
    obtain r2 w2 where s: "run (sql (SetStreamLive (Key cs) sid False)) ?w2 = (r2, w2)" by fastforce
    note e = sql_exec_cases [OF s [unfolded SetStreamLive_def]]
    obtain cn where cn: "w2 = ?w2\<lparr>conn := cn\<rparr>" using e(2) by blast
    show ?thesis
    proof (cases r2)
      case (Inl err)
      then have "\<not> ok \<and> w1 = w2" using assms g c s by (auto simp: deactivateStream_def gauge_Delete_def)
      with e(1) Inl q(1) show ?thesis by simp
    next
      case (Inr u)
      then have w1: "ok" "world_db w1 = world_db w2" "gauge w1 = gauge w2"
        using assms g c s by (auto simp: deactivateStream_def gauge_Delete_def announce_def broadcast_def
            bumpAdminChange_def split: option.splits)
      have db: "world_db w1 = set_live (Key cs) sid False (world_db w)"
        using w1(2) e(1) Inr q(1) by simp
      have "gauge w1 (Key cs, sid, StreamTitle c) = None" by (simp add: w1(3) cn)
      with w1(1) db rc c show ?thesis by (simp add: live_streams_set_live)
    qed
  qed
qed

theorem deactivation_ends_recent_witness:
  "live_streams ''ch'' (world_db (snd (run (deactivateStream sample_app sample_channel ''a'') three_streams))) = [] \<and>
   world_db (snd (run (deactivateStream sample_app sample_channel ''b'') three_streams)) = world_db three_streams"
proof -
  have rc: "recent ''ch'' (world_db three_streams) = Some (sample_stream ''a'' True 3)"
    by (simp add: three_streams_def recent_def world_db_def sel_streams_def order_desc_def createSchema_def first_row_def)
  have a: "fst (run (deactivateStream sample_app sample_channel ''a'') three_streams)"
    by (simp add: deactivateStream_def recent_ok three_streams_facts rc gauge_Delete_def set_live_ok announce_def
        split: prod.splits)
  have b: "\<not> fst (run (deactivateStream sample_app sample_channel ''b'') three_streams)"
    by (simp add: deactivateStream_def recent_ok three_streams_facts rc)
  have "live_streams ''ch'' (world_db three_streams) = [sample_stream ''a'' True 3]"
    by (simp add: three_streams_def live_streams_def world_db_def createSchema_def)
  moreover note da = deactivation_ends_recent [where app = sample_app and cs = sample_channel
      and sid = "''a''" and w = three_streams, OF prod.collapse [symmetric]]
  moreover note db = deactivation_ends_recent [where app = sample_app and cs = sample_channel
      and sid = "''b''" and w = three_streams, OF prod.collapse [symmetric]]
  moreover have "world_db (snd (run (deactivateStream sample_app sample_channel ''a'') three_streams)) =
      set_live ''ch'' ''a'' False (world_db three_streams)"
    using da a by simp
  moreover have "world_db (snd (run (deactivateStream sample_app sample_channel ''b'') three_streams)) =
      world_db three_streams"
    using db b by simp
  ultimately show ?thesis by (simp add: live_streams_set_live)
qed

text \<open>
  What the tidiness hypothesis excludes: a worker that activates a stream which is stored but no
  longer the most recent one gets success and the stream becomes live, but the conflict clause keeps
  its old activation time, so the channel is no longer tidy: the stream cannot be deactivated again,
  and activating a third stream leaves it live beside the new one.
\<close>

definition keep_five :: channel where
  "keep_five = sample_channel\<lparr>NumPastStreams := 5\<rparr>"

definition reactivated :: "unit world" where
  "reactivated = snd (run (activateStream sample_app keep_five ''c'' ''t'' ''7'' ''audio'') three_streams)"

theorem reactivated_old_stream_stays_live:
  "fst (run (activateStream sample_app keep_five ''c'' ''t'' ''7'' ''audio'') three_streams) \<and>
   map StreamID (live_streams ''ch'' (world_db reactivated)) = [''c''] \<and>
   map_option StreamID (recent ''ch'' (world_db reactivated)) = Some ''a'' \<and>
   \<not> fst (run (deactivateStream sample_app keep_five ''c'') reactivated) \<and>
   map StreamID (live_streams ''ch'' (world_db (snd (run (deactivateStream sample_app keep_five ''c'') reactivated)))) = [''c''] \<and>
   map StreamID (live_streams ''ch'' (world_db (snd (run
     (activateStream sample_app keep_five ''d'' ''t'' ''8'' ''audio'') (reactivated\<lparr>clock := 200000000\<rparr>))))) = [''c'', ''d'']"
  by code_simp

end
