(* ===== verification/Frames.thy ===== *)
theory Frames
  imports Routes Lifecycle_Props
begin

text \<open>
  Frame reasoning for actions: \<open>keeps f m\<close> says that the action \<open>m\<close> never changes the part \<open>f\<close> of
  the world. The rules follow the structure of the handlers, so that a frame property of a handler
  is one application of them.
\<close>

definition keeps :: "('s \<Rightarrow> 'c) \<Rightarrow> ('s, 'a) state \<Rightarrow> bool" where
  "keeps f m \<longleftrightarrow> (\<forall>w. f (snd (run m w)) = f w)"

lemma keepsD: "keeps f m \<Longrightarrow> f (snd (run m w)) = f w"
  by (simp add: keeps_def)

lemma keeps_run: "keeps f m \<Longrightarrow> run m w = (x, w1) \<Longrightarrow> f w1 = f w"
  by (metis keepsD snd_conv)

named_theorems keeps_intro

lemma keeps_ret [keeps_intro]: "keeps f (ret x)"
  by (simp add: keeps_def)

lemma run_bind: "run (m \<bind> k) w = (case run m w of (x, w1) \<Rightarrow> run (k x) w1)"
  by (simp add: State_Monad.bind_def split: prod.splits)

lemma keeps_bind [keeps_intro]: "keeps f m \<Longrightarrow> (\<And>x. keeps f (k x)) \<Longrightarrow> keeps f (m \<bind> k)"
  by (auto simp: keeps_def run_bind split: prod.splits) (metis snd_conv)

lemma run_map: "run (map_state g m) w = (case run m w of (x, w1) \<Rightarrow> (g x, w1))"
  by (cases m) (simp split: prod.splits)

lemma keeps_map [keeps_intro]: "keeps f m \<Longrightarrow> keeps f (map_state g m)"
  by (auto simp: keeps_def run_map split: prod.splits) (metis snd_conv)

lemma keeps_if [keeps_intro]: "(b \<Longrightarrow> keeps f m) \<Longrightarrow> (\<not> b \<Longrightarrow> keeps f n) \<Longrightarrow> keeps f (if b then m else n)"
  by simp

lemma keeps_let [keeps_intro]: "(\<And>x. keeps f (g x)) \<Longrightarrow> keeps f (let x = a in g x)"
  by simp

lemma keeps_sum [keeps_intro]:
  "(\<And>a. keeps f (g a)) \<Longrightarrow> (\<And>b. keeps f (h b)) \<Longrightarrow> keeps f (case x of Inl a \<Rightarrow> g a | Inr b \<Rightarrow> h b)"
  by (cases x) simp_all

lemma keeps_option [keeps_intro]:
  "keeps f g \<Longrightarrow> (\<And>b. keeps f (h b)) \<Longrightarrow> keeps f (case x of None \<Rightarrow> g | Some b \<Rightarrow> h b)"
  by (cases x) simp_all

lemma keeps_prod [keeps_intro]: "(\<And>a b. keeps f (g a b)) \<Longrightarrow> keeps f (case x of (a, b) \<Rightarrow> g a b)"
  by (cases x) simp_all

lemma keeps_list [keeps_intro]:
  "keeps f g \<Longrightarrow> (\<And>b bs. keeps f (h b bs)) \<Longrightarrow> keeps f (case x of [] \<Rightarrow> g | b # bs \<Rightarrow> h b bs)"
  by (cases x) simp_all

lemma keeps_bool [keeps_intro]:
  "keeps f g \<Longrightarrow> keeps f h \<Longrightarrow> keeps f (case x of True \<Rightarrow> g | False \<Rightarrow> h)"
  by (cases x) simp_all

lemma keeps_payload [keeps_intro]:
  "keeps f a \<Longrightarrow> (\<And>x. keeps f (b x)) \<Longrightarrow> (\<And>x. keeps f (c x)) \<Longrightarrow> (\<And>x. keeps f (d x)) \<Longrightarrow> (\<And>x. keeps f (e x)) \<Longrightarrow>
   keeps f g \<Longrightarrow> (\<And>x. keeps f (h x)) \<Longrightarrow> (\<And>x. keeps f (i x)) \<Longrightarrow> (\<And>x. keeps f (j x)) \<Longrightarrow> (\<And>x. keeps f (k x)) \<Longrightarrow>
   keeps f (case_payload a b c d e g h i j k y)"
  by (cases y) simp_all

lemma keeps_gerr [keeps_intro]:
  "keeps f a \<Longrightarrow> (\<And>x y. keeps f (b x y)) \<Longrightarrow> keeps f c \<Longrightarrow> keeps f d \<Longrightarrow> keeps f e \<Longrightarrow> keeps f g \<Longrightarrow>
   keeps f h \<Longrightarrow> keeps f j \<Longrightarrow> (\<And>x. keeps f (i x)) \<Longrightarrow> keeps f (case_gerr a b c d e g h j i z)"
  by (cases z) simp_all

text \<open>The primitives keep what does not depend on the component they write.\<close>

lemma keeps_modify [keeps_intro]: "(\<And>w. f (g w) = f w) \<Longrightarrow> keeps f (modify g)"
  by (simp add: keeps_def)

lemma keeps_gets [keeps_intro]: "keeps f (gets g)"
  by (simp add: keeps_def)

lemma keeps_store [keeps_intro]: "(\<And>w s. f (w\<lparr>stores := s\<rparr>) = f w) \<Longrightarrow> keeps f (store g)"
  by (simp add: keeps_def run_store split: prod.splits)

lemma keeps_os [keeps_intro]: "(\<And>w s. f (w\<lparr>stores := s\<rparr>) = f w) \<Longrightarrow> keeps f (os g)"
  unfolding os_def by (rule keeps_store)

lemma keeps_sql: "(\<And>w c. f (w\<lparr>conn := c\<rparr>) = f w) \<Longrightarrow> keeps f (sql g)"
  by (simp add: keeps_def run_sql split: prod.splits)

lemma keeps_hub_op [keeps_intro]: "(\<And>w h. f (w\<lparr>hubs := h\<rparr>) = f w) \<Longrightarrow> keeps f (hub_op cs g)"
  by (simp add: keeps_def run_hub_op split: prod.splits)

lemma keeps_new_uuid [keeps_intro]: "(\<And>w n. f (w\<lparr>next_uuid := n\<rparr>) = f w) \<Longrightarrow> keeps f (new_uuid app)"
  by (simp add: keeps_def new_uuid_def)

lemma keeps_time [keeps_intro]: "keeps f time_Now" "keeps f unix_Now"
  by (simp_all add: keeps_def time_Now_def unix_Now_def)

lemma keeps_world_sql: "(\<And>c. conn_db (snd (g c)) = conn_db c) \<Longrightarrow> keeps world_db (sql g)"
  by (simp add: keeps_def run_sql world_db_def split: prod.splits) (metis snd_conv)

lemma keeps_query [keeps_intro]: "keeps world_db (sql (db_query q))"
  by (rule keeps_world_sql) (metis db_query_db prod.collapse)

text \<open>The reads of the store.\<close>

lemmas query_defs = GetRecentStream_def GetStreamByID_def GetAllStreams_def GetPastStreams_def
  StreamExists_def GetTranscript_def GetLastLineID_def GetLastLine_def GetLastAvailableMediaFiles_def
  GetFileIDsInRange_def GetAllMediaFileIDs_def CountTranscriptMedia_def GetIncomingStreams_def
  GetLatestIncomingTime_def GetWorkerStatusByKey_def GetAllWorkerStatus_def GetRestartRequest_def

lemma keeps_queries [keeps_intro]:
  "keeps world_db (sql (GetRecentStream ch))" "keeps world_db (sql (GetStreamByID ch sid))"
  "keeps world_db (sql (GetAllStreams ch))" "keeps world_db (sql (GetPastStreams ch sid))"
  "keeps world_db (sql (StreamExists ch sid))" "keeps world_db (sql (GetTranscript ch sid))"
  "keeps world_db (sql (GetLastLine ch sid))" "keeps world_db (sql (GetLastAvailableMediaFiles ch sid n))"
  "keeps world_db (sql (GetFileIDsInRange ch sid a b))" "keeps world_db (sql (GetAllMediaFileIDs ch sid))"
  "keeps world_db (sql (CountTranscriptMedia ch sid))" "keeps world_db (sql (GetIncomingStreams ch))"
  "keeps world_db (sql (GetLatestIncomingTime ch))" "keeps world_db (sql (GetWorkerStatusByKey ch))"
  "keeps world_db (sql GetAllWorkerStatus)" "keeps world_db (sql (GetRestartRequest ch))"
  by (simp_all add: query_defs keeps_query)

lemma world_db_upd [simp]:
  "world_db (w\<lparr>clock := c\<rparr>) = world_db w" "world_db (w\<lparr>pending_builds := p\<rparr>) = world_db w"
  "world_db (w\<lparr>upgrading := x\<rparr>) = world_db w"
  by (simp_all add: world_db_def)

lemma keeps_alert [keeps_intro]: "(\<And>w d. f (w\<lparr>discord := d\<rparr>) = f w) \<Longrightarrow> keeps f (alert g)"
  by (simp add: alert_def keeps_def)

lemma keeps_report [keeps_intro]:
  "(\<And>w d. f (w\<lparr>discord := d\<rparr>) = f w) \<Longrightarrow> keeps f (report500 app r e msg)"
  "(\<And>w d. f (w\<lparr>discord := d\<rparr>) = f w) \<Longrightarrow> keeps f (fail500 app r shown e msg)"
  "(\<And>w d. f (w\<lparr>discord := d\<rparr>) = f w) \<Longrightarrow> keeps f (notifyAdminAction app r cs a fs)"
  unfolding report500_def fail500_def notifyAdminAction_def by (intro keeps_intro; simp)+

lemma keeps_errors [keeps_intro]: "keeps f (bad_request m)" "keeps f (server_error m)" "keeps f archive_error"
  by (simp_all add: bad_request_def server_error_def archive_error_def keeps_ret)

end
