(* ===== verification/Routes_Props.thy ===== *)
theory Routes_Props
  imports Frames
begin

text \<open>
  Access control over the whole route table: what a request without the right key can and cannot do.
\<close>

section \<open>Refusals\<close>

definition keyless :: "'b app \<Rightarrow> request \<Rightarrow> bool" where
  "keyless app r \<longleftrightarrow>
     (ApiKey app = [] \<or> r_Header r ''X-API-Key'' \<noteq> ApiKey app) \<and>
     list_all (\<lambda>cs. AdminKey cs = [] \<or> r_Header r ''X-Admin-Key'' \<noteq> AdminKey cs) (Channels app)"

definition public_endpoints :: "endpoint_name list" where
  "public_endpoints = [AdminUI, PublicStatus, Websocket, StreamFile, DownloadFile, FrameFile, TranscriptOf,
     PostClip, PostTrim]"

definition refusal :: "poll_answer \<Rightarrow> bool" where
  "refusal a \<longleftrightarrow> (\<exists>resp. a = Answer resp \<and> code resp \<in> {403, 404, 503})"

lemma find_channel_mem: "find_channel app k = Some cs \<Longrightarrow> cs \<in> set (Channels app)"
  by (auto simp: find_channel_def find_Some_iff)

lemma api_key_refuses:
  "keyless app r \<Longrightarrow> \<exists>a. run (apiKeyMiddleware app r m) w = (a, w) \<and> refusal a"
  by (auto simp: apiKeyMiddleware_def keyless_def refusal_def)

lemma admin_key_refuses:
  assumes "keyless app r"
  shows "\<exists>a. run (withAdminChannel app r h) w = (a, w) \<and> refusal a"
proof (cases "find_channel app (r_PathValue r ''channel'')")
  case (Some cs)
  with assms find_channel_mem [OF Some] show ?thesis
    by (auto simp: withAdminChannel_def withChannel_def keyless_def list_all_iff refusal_def)
qed (simp add: withAdminChannel_def withChannel_def refusal_def)

lemma keyless_path [simp]: "keyless app (r\<lparr>r_PathValue := p\<rparr>) = keyless app r"
  by (simp add: keyless_def)

lemma serve_route_refuses:
  assumes "keyless app r" "e \<notin> set public_endpoints"
  shows "\<exists>a. run (serve_route app sr r e) w = (a, w) \<and> refusal a"
  using assms api_key_refuses [OF assms(1)] admin_key_refuses [OF assms(1)]
  by (cases e) (simp_all add: serve_route_def worker_endpoint_def admin_endpoint_def public_endpoints_def)

lemma route_methods: "(m, p, e) \<in> set routes \<Longrightarrow> m \<in> {''GET'', ''POST'', ''DELETE''}"
  by (auto simp: routes_def)

lemma find_route_method: "find_route r = Some (e, vs) \<Longrightarrow> r_Method r \<noteq> ''OPTIONS''"
proof
  assume r: "find_route r = Some (e, vs)" and m: "r_Method r = ''OPTIONS''"
  have "\<not> method_matches m (r_Method r)" if "(m, p, e) \<in> set routes" for m p e
    using route_methods [OF that] m by (auto simp: method_matches_def)
  then have "filter (\<lambda>(m, p, e). method_matches m (r_Method r) \<and> match_segments p (path_segments (r_Path r)) \<noteq> None) routes = []"
    by (auto simp: filter_empty_conv)
  with r show False by (simp add: find_route_def)
qed

lemma refusal_cors: "refusal a \<Longrightarrow> refusal (with_cors a)"
  by (auto simp: refusal_def with_cors_def)

lemma protected_refuses:
  assumes "keyless app r" "find_route r = Some (e, vs)" "e \<notin> set public_endpoints"
  shows "\<exists>a. run (ServeHTTP app sr r) w = (a, w) \<and> refusal a"
proof -
  let ?r = "r\<lparr>r_PathValue := (\<lambda>v. case map_of vs v of None \<Rightarrow> [] | Some x \<Rightarrow> x)\<rparr>"
  obtain a where "run (serve_route app sr ?r e) w = (a, w)" "refusal a"
    using serve_route_refuses [of app ?r e sr w] assms(1,3) by auto
  then have "run (ServeHTTP app sr r) w = (with_cors a, w)" "refusal (with_cors a)"
    using assms(2) find_route_method [OF assms(2)] refusal_cors [of a] by (simp_all add: ServeHTTP_def run_map)
  then show ?thesis by blast
qed

text \<open>
  C1. Without the worker key and without the admin key of any channel, every worker and admin route
  answers 403, 404 or 503 and leaves the whole application state as it was; this includes servers and
  channels whose key is not configured, whatever the request sends.
\<close>

theorem protected_routes_refuse:
  assumes "keyless app r" "find_route r = Some (e, vs)" "e \<notin> set public_endpoints"
  shows "\<exists>resp. run (ServeHTTP app sr r) w = (Answer resp, w) \<and> code resp \<in> {403, 404, 503}"
  using protected_refuses [OF assms, of sr w] by (auto simp: refusal_def)

definition plain_request :: "string \<Rightarrow> string \<Rightarrow> request" where
  "plain_request meth path = \<lparr>r_Method = meth, r_Path = path, r_PathValue = (\<lambda>_. []), r_Query = (\<lambda>_. []),
     r_Header = (\<lambda>_. []), r_Body = NoPayload, r_UploadMs = 0\<rparr>"

definition quiet :: "'b surroundings" where
  "quiet = \<lparr>sr_rounds = [], sr_others = (\<lambda>w. w), sr_upgrade = True, sr_reads = [],
     sr_bot = (\<lambda>ch. Status None new_bot_state None 0 ch)\<rparr>"

theorem protected_routes_refuse_witness:
  "\<exists>resp. run (ServeHTTP sample_app quiet (plain_request ''DELETE'' ''/ch/admin/stream/a'')) three_streams
     = (Answer resp, three_streams) \<and> code resp \<in> {403, 404, 503}"
proof (rule protected_routes_refuse)
  show "keyless sample_app (plain_request ''DELETE'' ''/ch/admin/stream/a'')"
    by (simp add: keyless_def plain_request_def)
  show "find_route (plain_request ''DELETE'' ''/ch/admin/stream/a'')
      = Some (AdminDeleteStream, [(''channel'', ''ch''), (''streamID'', ''a'')])"
    by code_simp
  show "AdminDeleteStream \<notin> set public_endpoints" by (simp add: public_endpoints_def)
qed

section \<open>Public requests only read the database\<close>

lemma keeps_defer [keeps_intro]:
  "(\<And>w s. f (w\<lparr>stores := s\<rparr>) = f w) \<Longrightarrow> keeps f m \<Longrightarrow> keeps f (defer_Remove p m)"
  unfolding defer_Remove_def by (intro keeps_intro)

lemma keeps_uploadFile [keeps_intro]: "(\<And>w s. f (w\<lparr>stores := s\<rparr>) = f w) \<Longrightarrow> keeps f (uploadFile app k p)"
  unfolding uploadFile_def by (intro keeps_intro)

lemma keeps_write_chunks: "(\<And>w s. f (w\<lparr>stores := s\<rparr>) = f w) \<Longrightarrow> keeps f (write_chunks st dd ch sid m i fs)"
  by (induction fs arbitrary: i) (auto simp: downloadChunk_def append_chunk_def intro!: keeps_intro)

lemma keeps_MergeRawAudio [keeps_intro]:
  "(\<And>w s. f (w\<lparr>stores := s\<rparr>) = f w) \<Longrightarrow> keeps f (MergeRawAudio st t ch sid fs n)"
  unfolding MergeRawAudio_def by (intro keeps_intro keeps_write_chunks)

lemma public_frames:
  "keeps world_db (getStatusHandler app)" "keeps world_db (streamHandler app r cs)"
  "keeps world_db (getFrameHandler app r cs)" "keeps world_db (downloadHandler app r cs)"
  "keeps world_db (getTranscriptHandler app r cs)"
  unfolding getStatusHandler_def streamHandler_def getFrameHandler_def downloadHandler_def
    getTranscriptHandler_def stat_and_serve_def observePastStreamAge_def
  by (intro keeps_intro; simp)+

lemma clip_frame: "keeps world_db (postClipHandler app r cs)"
  unfolding postClipHandler_def make_clip_def render_clip_def convert_failed_def upload_clip_def
  by (intro keeps_intro; simp)+

lemma trim_frame: "keeps world_db (postTrimHandler app r cs)"
  unfolding postTrimHandler_def trim_source_def by (intro keeps_intro; simp)+

lemma keeps_send_or_remove [keeps_intro]:
  "keeps world_db rest \<Longrightarrow> keeps world_db (send_or_remove cs c msg rest)"
  unfolding send_or_remove_def by (intro keeps_intro; simp)+

lemma ws_frame:
  assumes "\<And>w. world_db (others w) = world_db w"
  shows "keeps world_db (wsHandler app up others reads cs)"
  unfolding wsHandler_def ws_reserve_def ws_upgraded_def ws_serve_def ws_leave_def syncClient_def Let_def
  by (intro keeps_intro; simp add: assms)+

lemma serve_public_frame:
  assumes "\<And>w. world_db (sr_others sr w) = world_db w" "e \<in> set public_endpoints"
  shows "keeps world_db (serve_route app sr r e)"
proof -
  have "keeps world_db (withChannel app r h)" if "\<And>cs. keeps world_db (h cs)" for h
    unfolding withChannel_def by (intro keeps_intro that)
  note w = this public_frames clip_frame trim_frame ws_frame [OF assms(1)]
  have ui: "keeps world_db adminUIHandler" by (simp add: adminUIHandler_def keeps_ret)
  show ?thesis using assms(2)
    by (auto simp: public_endpoints_def serve_route_def worker_endpoint_def admin_endpoint_def public_endpoint_def
        answer_def upgraded_def intro!: w ui keeps_map)
qed

text \<open>
  C2. A request that carries neither the worker key nor a channel's admin key never changes the
  database, whatever its method, path and body: streams, transcripts, the queue, the worker rows
  and the restart flags stay as they are. (\<open>sr_others\<close> is what concurrent requests do meanwhile.)
\<close>

theorem keyless_requests_keep_database:
  assumes "keyless app r" "\<forall>w. world_db (sr_others sr w) = world_db w"
  shows "world_db (snd (run (ServeHTTP app sr r) w)) = world_db w"
proof (cases "find_route r")
  case None
  then show ?thesis by (simp add: ServeHTTP_def run_map)
next
  case (Some ev)
  obtain e vs where ev: "ev = (e, vs)" by fastforce
  show ?thesis
  proof (cases "e \<in> set public_endpoints")
    case True
    with assms(2) serve_public_frame [of sr e] have "keeps world_db (ServeHTTP app sr r)"
      unfolding ServeHTTP_def by (simp add: Some ev keeps_map keeps_ret)
    then show ?thesis by (rule keepsD)
  next
    case False
    from protected_refuses [OF assms(1) Some [unfolded ev] False, of sr w] show ?thesis by auto
  qed
qed

theorem keyless_requests_keep_database_witness:
  "world_db (snd (run (ServeHTTP sample_app quiet ((plain_request ''POST'' ''/ch/clip'')
     \<lparr>r_Body := ClipPayload \<lparr>clip_StreamID = ''a'', clip_Start = 0, clip_End = 3, clip_Type = ''mp3''\<rparr>\<rparr>)) three_streams))
   = world_db three_streams"
  by (rule keyless_requests_keep_database) (simp_all add: keyless_def plain_request_def quiet_def)

end
