(* ===== verification/Worker_Props.thy ===== *)
theory Worker_Props
  imports Routes_Props
begin

text \<open>
  What the worker's requests do to transcripts and media: the outcome of \<^verbatim>\<open>/line\<close>, and the media a
  resync keeps or, after a failed read, loses.
\<close>

section \<open>\<^verbatim>\<open>/line\<close>\<close>

definition unmarked :: "line \<Rightarrow> line" where
  "unmarked l = l\<lparr>MediaAvailable := False\<rparr>"

definition next_line_id :: "string \<Rightarrow> string \<Rightarrow> db \<Rightarrow> int" where
  "next_line_id ch sid d = wrap64 ((case last_row ch sid d of None \<Rightarrow> -1 | Some x \<Rightarrow> row_id x) + 1)"

lemma fail500_code: "run (fail500 app r shown e msg) w = (resp, w1) \<Longrightarrow> code resp = 500"
  by (auto simp: fail500_def run_bind split: prod.splits)

lemma fail500_frame: "run (fail500 app r shown e msg) w = (resp, w1) \<Longrightarrow> \<exists>d. w1 = w\<lparr>discord := d\<rparr>"
  by (cases "isClientGone e") (auto simp: fail500_def report500_def alert_def run_bind intro: exI [of _ "discord w"])

lemma insert_outcome:
  assumes "run (sql (InsertNextLine ch sid l)) w = (i, w0)"
  shows "hubs w0 = hubs w" "clock w0 = clock w"
    and "i = Inr u \<Longrightarrow> ins_line ch sid l (world_db w) = Inr (world_db w0) \<and> LineID l = next_line_id ch sid (world_db w)"
    and "i = Inl e \<Longrightarrow> world_db w0 = world_db w"
    and "i = Inl (ErrOutOfSync a b) \<Longrightarrow> healthy w \<Longrightarrow> LineID l \<noteq> next_line_id ch sid (world_db w)"
    and "healthy w \<Longrightarrow> LineID l \<noteq> next_line_id ch sid (world_db w) \<Longrightarrow> \<exists>a b. i = Inl (ErrOutOfSync a b)"
proof -
  obtain i' c where ins: "InsertNextLine ch sid l (conn w) = (i', c)" by fastforce
  with assms have w0: "i' = i" "w0 = w\<lparr>conn := c\<rparr>" by (simp_all add: run_sql)
  show "hubs w0 = hubs w" "clock w0 = clock w" by (simp_all add: w0)
  show "ins_line ch sid l (world_db w) = Inr (world_db w0) \<and> LineID l = next_line_id ch sid (world_db w)" if "i = Inr u"
    using InsertNextLine_Inr [OF ins [unfolded w0(1) that]] by (simp add: world_db_def w0 next_line_id_def)
  show "world_db w0 = world_db w" if "i = Inl e"
    using InsertNextLine_Inl [OF ins [unfolded w0(1) that]] by (simp add: world_db_def w0)
  show "LineID l \<noteq> next_line_id ch sid (world_db w)" if "i = Inl (ErrOutOfSync a b)" "healthy w"
    using ins that w0 by (auto simp: InsertNextLine_def sql_defs healthy_def Let_def next_line_id_def world_db_def
        ins_line_def insert_row_def split: if_splits sum.splits)
  show "\<exists>a b. i = Inl (ErrOutOfSync a b)" if "healthy w" "LineID l \<noteq> next_line_id ch sid (world_db w)"
    using ins that w0 by (auto simp: InsertNextLine_def sql_defs healthy_def Let_def next_line_id_def world_db_def)
qed

lemma lineHandler_run:
  assumes "r_Body r = LinePayload l0" "isValidID sid" "sid = r_PathValue r ''streamID''" "l = unmarked l0"
    and "run (sql (InsertNextLine (Key cs) sid l)) w = (i, w0)"
    and "run (lineHandler app r cs) w = (resp, w1)"
  shows "i = Inr () \<Longrightarrow> code resp = 200 \<and> w1 = w0\<lparr>hubs := (hubs w0)(Key cs :=
           Broadcast (new_line_event (r_UploadMs r) l) (hubs w0 (Key cs)))\<rparr>"
    and "i = Inl (ErrOutOfSync a b) \<Longrightarrow> code resp = 409 \<and> w1 = w0"
    and "i = Inl e \<Longrightarrow> code resp \<noteq> 200 \<and> (\<exists>d. w1 = w0\<lparr>discord := d\<rparr>) \<and> (code resp = 409 \<longrightarrow> (\<exists>a b. e = ErrOutOfSync a b))"
  using assms
  by (auto simp: lineHandler_def Let_def run_bind unmarked_def broadcastNewLine_def broadcast_def
      dest: fail500_code fail500_frame split: gerr.splits prod.splits intro: exI [of _ "discord w0"])

text \<open>
  C23. The worker can trust the status code of a posted line. 200: the line, with its media flag
  cleared, is the only change to the database, it was the next line of the stream, and it was
  broadcast to the channel. Any other code: nothing was stored and nothing broadcast. Without driver
  faults the answer is 409 exactly when the line is not the next one.
\<close>

theorem line_status_is_outcome:
  assumes "run (lineHandler app r cs) w = (resp, w1)" "r_Body r = LinePayload l"
    and "isValidID (r_PathValue r ''streamID'')"
  shows "(code resp = 200 \<longrightarrow>
      ins_line (Key cs) (r_PathValue r ''streamID'') (unmarked l) (world_db w) = Inr (world_db w1) \<and>
      LineID l = next_line_id (Key cs) (r_PathValue r ''streamID'') (world_db w) \<and>
      hubs w1 = (hubs w)(Key cs := Broadcast (new_line_event (r_UploadMs r) (unmarked l)) (hubs w (Key cs)))) \<and>
    (code resp \<noteq> 200 \<longrightarrow> world_db w1 = world_db w \<and> hubs w1 = hubs w) \<and>
    (healthy w \<longrightarrow> (code resp = 409) = (LineID l \<noteq> next_line_id (Key cs) (r_PathValue r ''streamID'') (world_db w)))"
proof -
  let ?sid = "r_PathValue r ''streamID''"
  obtain i w0 where i: "run (sql (InsertNextLine (Key cs) ?sid (unmarked l))) w = (i, w0)" by fastforce
  note o_ins = insert_outcome [OF i]
  note o_run = lineHandler_run [OF assms(2,3) refl refl i assms(1)]
  have id: "LineID (unmarked l) = LineID l" by (simp add: unmarked_def)
  show ?thesis
  proof (cases i)
    case (Inr u)
    with o_run(1) o_ins(1,3,6) id show ?thesis by (auto simp: world_db_def)
  next
    case (Inl e)
    from o_run(3) [OF Inl] obtain d where d: "code resp \<noteq> 200" "w1 = w0\<lparr>discord := d\<rparr>"
      "code resp = 409 \<Longrightarrow> \<exists>a b. e = ErrOutOfSync a b" by blast
    have "world_db w1 = world_db w" "hubs w1 = hubs w" using d(2) o_ins(1) o_ins(4) [OF Inl] by simp_all
    moreover have "(code resp = 409) = (LineID l \<noteq> next_line_id (Key cs) ?sid (world_db w))" if "healthy w"
      using d(3) o_run(2) o_ins(5) [OF _ that] o_ins(6) [OF that] Inl id by auto
    ultimately show ?thesis using d(1) by simp
  qed
qed

definition line_request :: "line \<Rightarrow> request" where
  "line_request l = \<lparr>r_Method = ''POST'', r_Path = ''/ch/line/a'', r_PathValue = (\<lambda>v. if v = ''streamID'' then ''a'' else []),
     r_Query = (\<lambda>_. []), r_Header = (\<lambda>_. []), r_Body = LinePayload l, r_UploadMs = 7\<rparr>"

theorem line_status_is_outcome_witness:
  "code (fst (run (lineHandler sample_app (line_request (line_at 0)) sample_channel) three_streams)) \<noteq> 409 \<and>
   code (fst (run (lineHandler sample_app (line_request (line_at 5)) sample_channel) three_streams)) = 409"
proof -
  have "healthy three_streams" by (rule three_streams_facts)
  moreover have "next_line_id ''ch'' ''a'' (world_db three_streams) = 0"
    by (simp add: next_line_id_def last_row_def sel_rows_def three_streams_def world_db_def createSchema_def
        order_desc_def first_row_def)
  moreover have "isValidID ''a''" by (simp add: isValidID_def id_char_def)
  ultimately show ?thesis
    using line_status_is_outcome [where app = sample_app and cs = sample_channel and r = "line_request (line_at 0)"
        and w = three_streams and l = "line_at 0", OF prod.collapse [symmetric]]
      line_status_is_outcome [where app = sample_app and cs = sample_channel and r = "line_request (line_at 5)"
        and w = three_streams and l = "line_at 5", OF prod.collapse [symmetric]]
    by (simp add: line_request_def line_at_def)
qed

section \<open>\<^verbatim>\<open>/sync\<close>\<close>

definition replaced :: "string \<Rightarrow> string \<Rightarrow> line list \<Rightarrow> db \<Rightarrow> db" where
  "replaced ch sid ls d = (del_lines ch sid d)\<lparr>transcripts :=
     transcripts (del_lines ch sid d) @ map (row_of_line ch sid) ls\<rparr>"

lemma keeps_broadcastNewLine [keeps_intro]: "keeps world_db (broadcastNewLine cs sid ms l)"
  unfolding broadcastNewLine_def broadcast_def by (intro keeps_intro; simp)+

lemma keeps_bump [keeps_intro]: "keeps world_db (bumpAdminChange app ch)"
  unfolding bumpAdminChange_def by (intro keeps_intro) simp

lemma sql_media_files:
  "run (sql (GetLastAvailableMediaFiles ch sid n)) w = (a, w1) \<Longrightarrow> healthy w \<Longrightarrow> w1 = w \<and> (\<exists>fs. a = Inr fs)"
  by (auto simp: run_sql GetLastAvailableMediaFiles_def healthy_def)

lemma sync_run:
  assumes "healthy w" "r_Body r = SyncPayload data" "isValidID (wd_StreamID data)"
    and "distinct (map LineID (wd_Transcript data))"
    and "run (syncHandler app r cs) w = (resp, w1)"
  obtains fs where "code resp = 200"
    "set fs = avail_rows (Key cs) (wd_StreamID data) (world_db w)"
    "world_db w1 = replaced (Key cs) (wd_StreamID data) (map (carry_media fs) (wd_Transcript data))
       (upsert_stream (synced_stream cs data) (world_db w))"
proof -
  let ?d1 = "upsert_stream (synced_stream cs data) (world_db w)"
  let ?w1 = "set_db ?d1 w"
  have h1: "healthy ?w1" using assms(1) by simp
  have c1: "conn_db (conn ?w1) = ?d1" by (simp add: set_db_def)
  obtain fs where fs: "GetLastAvailableMediaFiles (Key cs) (wd_StreamID data) (-1) (conn ?w1) = (Inr fs, conn ?w1)"
    using h1 by (simp add: GetLastAvailableMediaFiles_def healthy_def)
  have av: "set fs = avail_rows (Key cs) (wd_StreamID data) (world_db w)"
    using GetLastAvailableMediaFiles_all(1) [OF fs] unfolding c1
    by (simp add: avail_rows_def sel_rows_def upsert_stream_def)
  let ?ls = "map (carry_media fs) (wd_Transcript data)"
  have "map LineID ?ls = map LineID (wd_Transcript data)"
    by (auto simp: carry_media_def split: option.splits)
  then have "distinct (map LineID ?ls)" using assms(4) by (simp only:)
  then have rt: "ReplaceTranscript (Key cs) (wd_StreamID data) ?ls (conn ?w1)
      = (Inr (), (conn ?w1)\<lparr>conn_db := replaced (Key cs) (wd_StreamID data) ?ls ?d1\<rparr>)"
    using h1 ReplaceTranscript_ok [of "conn ?w1"] by (simp add: healthy_def replaced_def c1)
  let ?w2 = "?w1\<lparr>conn := (conn ?w1)\<lparr>conn_db := replaced (Key cs) (wd_StreamID data) ?ls ?d1\<rparr>\<rparr>"
  let ?rest = "do { bumpAdminChange app (Key cs); broadcastNewLine cs (wd_StreamID data) (r_UploadMs r) None;
      ret (reply 200 (Text ''JSON Sync data received and processed successfully'')) }"
  have "run (sql (GetLastAvailableMediaFiles (Key cs) (wd_StreamID data) (-1))) ?w1 = (Inr fs, ?w1)"
    "run (sql (ReplaceTranscript (Key cs) (wd_StreamID data) ?ls)) ?w1 = (Inr (), ?w2)"
    using fs rt by (simp_all add: run_sql)
  then have run_rest: "run (syncHandler app r cs) w = run ?rest ?w2"
    using assms(2,3) by (simp add: syncHandler_def run_bind upsert_ok [OF assms(1)] Let_def)
  have "keeps world_db ?rest" by (intro keeps_intro)
  with run_rest have w1: "world_db w1 = world_db ?w2" using assms(5) keeps_run [of world_db ?rest ?w2 resp w1] by simp
  moreover have "world_db ?w2 = replaced (Key cs) (wd_StreamID data) ?ls ?d1" by (simp add: world_db_def)
  moreover have "code resp = 200"
    using assms(5) run_rest by (auto simp: run_bind split: prod.splits)
  ultimately show ?thesis using that [OF _ av] by simp
qed

text \<open>The row of the synced stream: new, or the old one with the payload's columns.\<close>

lemma lookup_find: "lookup_row key k rows = find (\<lambda>r. key r = k) rows"
  by (induction rows) (auto simp: lookup_row_def first_row_def)

lemma synced_rows:
  assumes "schema_ok d"
  shows "set (streams (upsert_stream (synced_stream cs data) d)) =
    {s \<in> set (streams d). (ChannelID s, StreamID s) \<noteq> (Key cs, wd_StreamID data)} \<union>
    {\<lparr>ChannelID = Key cs, StreamID = wd_StreamID data, StreamTitle = wd_StreamTitle data, StartTime = wd_StartTime data,
      IsLive = wd_IsLive data, MediaType = wd_MediaType data,
      ActivatedTime = (case find (\<lambda>s. (ChannelID s, StreamID s) = (Key cs, wd_StreamID data)) (streams d) of
         None \<Rightarrow> 0 | Some s \<Rightarrow> ActivatedTime s)\<rparr>}"
proof -
  let ?k = "(Key cs, wd_StreamID data)"
  have k: "stream_key = (\<lambda>s. (ChannelID s, StreamID s))" by (simp add: fun_eq_iff stream_key_def)
  have d: "distinct (map stream_key (streams d))" using assms by (simp add: schema_ok_def)
  have row: "(case lookup_row stream_key ?k (streams d) of None \<Rightarrow> synced_stream cs data | Some old \<Rightarrow> merge_stream old (synced_stream cs data))
      = \<lparr>ChannelID = Key cs, StreamID = wd_StreamID data, StreamTitle = wd_StreamTitle data, StartTime = wd_StartTime data,
        IsLive = wd_IsLive data, MediaType = wd_MediaType data,
        ActivatedTime = (case find (\<lambda>s. (ChannelID s, StreamID s) = ?k) (streams d) of None \<Rightarrow> 0 | Some s \<Rightarrow> ActivatedTime s)\<rparr>"
  proof (cases "find (\<lambda>s. (ChannelID s, StreamID s) = ?k) (streams d)")
    case None
    then show ?thesis by (simp only: lookup_find k option.case synced_stream_def)
  next
    case (Some s)
    then have "ChannelID s = Key cs" "StreamID s = wd_StreamID data" by (auto simp: find_Some_iff)
    then have "merge_stream s (synced_stream cs data) = \<lparr>ChannelID = Key cs, StreamID = wd_StreamID data,
        StreamTitle = wd_StreamTitle data, StartTime = wd_StartTime data, IsLive = wd_IsLive data,
        MediaType = wd_MediaType data, ActivatedTime = ActivatedTime s\<rparr>"
      by (simp add: merge_stream_def synced_stream_def)
    then show ?thesis by (simp only: lookup_find k option.case Some)
  qed
  have "stream_key (synced_stream cs data) = ?k" by (simp add: synced_stream_def stream_key_def)
  then show ?thesis
    unfolding upsert_stream_def using stream_table.set_upsert [OF d, of "synced_stream cs data"] row by (simp add: stream_key_def)
qed

lemma avail_replaced:
  "avail_rows ch sid (replaced ch sid ls d) = (\<lambda>l. (LineID l, FileID l)) ` {l \<in> set ls. MediaAvailable l}"
proof -
  have "sel_rows ch sid (replaced ch sid ls d) = map (row_of_line ch sid) ls"
    by (simp add: replaced_def sel_rows_append_lines)
  then show ?thesis by (force simp: avail_rows_def with_media_def row_of_line_def null_string_def image_iff)
qed

lemma avail_rows_filter:
  "avail_rows ch sid d = set (map (\<lambda>r. (row_id r, null_string (row_file r))) (filter with_media (sel_rows ch sid d)))"
  by (auto simp: avail_rows_def)

lemma avail_unique:
  assumes "schema_ok d" "(i, f) \<in> avail_rows ch sid d" "(i, g) \<in> avail_rows ch sid d"
  shows "f = g"
proof -
  from assms(2,3) obtain r q where "r \<in> set (transcripts d)" "q \<in> set (transcripts d)" "row_key r = row_key q"
    "f = null_string (row_file r)" "g = null_string (row_file q)"
    by (auto simp: avail_rows_def sel_rows_def row_key_def in_stream_def)
  moreover have "distinct (map row_key (transcripts d))" using assms(1) by (simp add: schema_ok_def)
  ultimately show ?thesis by (metis eq_key_imp_eq_value distinct_map inj_onD)
qed

text \<open>
  C7. On a database whose driver does not fail, a resync replaces one stream without losing its media: a
  sync with distinct line ids answers 200; the stored transcript has exactly the lines of the payload in
  line order with their text, every one of them that had media before still has the same media file, and
  the others are stored as they were sent; the stream's row carries the title, start time, live flag and
  media type of the payload and keeps its activation time. No row or transcript of another stream
  changes, nor any row of another table. (A fault can cost the media:
  \<open>failed_media_read_erases_media\<close> below.)
\<close>

theorem sync_keeps_media:
  assumes "healthy w" "schema_ok (world_db w)" "r_Body r = SyncPayload data" "isValidID (wd_StreamID data)"
    and "distinct (map LineID (wd_Transcript data))" "run (syncHandler app r cs) w = (resp, w1)"
  shows "code resp = 200 \<and>
    map (\<lambda>l. (LineID l, Timestamp l, Segments l)) (transcript (Key cs) (wd_StreamID data) (world_db w1))
      = map (\<lambda>l. (LineID l, Timestamp l, Segments l)) (order_asc LineID (wd_Transcript data)) \<and>
    (\<forall>(i, f) \<in> avail_rows (Key cs) (wd_StreamID data) (world_db w). i \<in> LineID ` set (wd_Transcript data) \<longrightarrow>
       (i, f) \<in> avail_rows (Key cs) (wd_StreamID data) (world_db w1)) \<and>
    (\<forall>l \<in> set (wd_Transcript data). LineID l \<notin> fst ` avail_rows (Key cs) (wd_StreamID data) (world_db w) \<longrightarrow>
       l \<in> set (transcript (Key cs) (wd_StreamID data) (world_db w1))) \<and>
    (\<forall>ch sid. (ch, sid) \<noteq> (Key cs, wd_StreamID data) \<longrightarrow> transcript ch sid (world_db w1) = transcript ch sid (world_db w)) \<and>
    set (streams (world_db w1)) =
      {s \<in> set (streams (world_db w)). (ChannelID s, StreamID s) \<noteq> (Key cs, wd_StreamID data)} \<union>
      {\<lparr>ChannelID = Key cs, StreamID = wd_StreamID data, StreamTitle = wd_StreamTitle data, StartTime = wd_StartTime data,
        IsLive = wd_IsLive data, MediaType = wd_MediaType data,
        ActivatedTime = (case find (\<lambda>s. (ChannelID s, StreamID s) = (Key cs, wd_StreamID data)) (streams (world_db w)) of
           None \<Rightarrow> 0 | Some s \<Rightarrow> ActivatedTime s)\<rparr>} \<and>
    worker_rows (world_db w1) = worker_rows (world_db w) \<and> incoming (world_db w1) = incoming (world_db w) \<and>
    restarts (world_db w1) = restarts (world_db w)"
proof -
  let ?sid = "wd_StreamID data" and ?d1 = "upsert_stream (synced_stream cs data) (world_db w)"
  obtain fs where code: "code resp = 200" and fs: "set fs = avail_rows (Key cs) ?sid (world_db w)"
    and w1: "world_db w1 = replaced (Key cs) ?sid (map (carry_media fs) (wd_Transcript data)) ?d1"
    by (rule sync_run [OF assms(1,3-6)])
  note T = transcript_replaced [OF w1 [unfolded replaced_def]]
  have cm: "LineID (carry_media fs l) = LineID l \<and> Timestamp (carry_media fs l) = Timestamp l \<and>
      Segments (carry_media fs l) = Segments l" for l by (simp add: carry_media_def split: option.splits)
  have "map (\<lambda>l. (LineID l, Timestamp l, Segments l)) (transcript (Key cs) ?sid (world_db w1))
      = map (\<lambda>l. (LineID l, Timestamp l, Segments l)) (order_asc LineID (wd_Transcript data))"
    unfolding T(1) order_asc_map by (simp add: cm)
  moreover have "(i, f) \<in> avail_rows (Key cs) ?sid (world_db w1)"
    if f: "(i, f) \<in> avail_rows (Key cs) ?sid (world_db w)" and i: "i \<in> LineID ` set (wd_Transcript data)" for i f
  proof -
    obtain l where l: "l \<in> set (wd_Transcript data)" "LineID l = i" using i by auto
    obtain g where "map_of fs i = Some g" using f fs by (metis option.exhaust map_of_eq_None_iff fst_conv imageI)
    moreover from this have "g = f" using map_of_SomeD avail_unique [OF assms(2) _ f] fs by metis
    ultimately have "carry_media fs l = l\<lparr>MediaAvailable := True, FileID := f\<rparr>" using l(2) by (simp add: carry_media_def)
    then show ?thesis
      unfolding w1 avail_replaced using l
      by (intro image_eqI [of _ _ "carry_media fs l"]) (auto intro: rev_image_eqI)
  qed
  moreover have "transcript ch sid (world_db w1) = transcript ch sid (world_db w)"
    if "(ch, sid) \<noteq> (Key cs, ?sid)" for ch sid
    using T(2) [OF that] by (simp add: transcript_def sel_rows_def upsert_stream_def)
  moreover have "l \<in> set (transcript (Key cs) ?sid (world_db w1))"
    if "l \<in> set (wd_Transcript data)" "LineID l \<notin> fst ` avail_rows (Key cs) ?sid (world_db w)" for l
  proof -
    have "map_of fs (LineID l) = None" using that(2) fs by (simp add: map_of_eq_None_iff)
    then have "carry_media fs l = l" by (simp add: carry_media_def)
    then show ?thesis unfolding T(1) using that(1) by force
  qed
  moreover have "set (streams (world_db w1)) = {s \<in> set (streams (world_db w)). (ChannelID s, StreamID s) \<noteq> (Key cs, ?sid)} \<union>
      {\<lparr>ChannelID = Key cs, StreamID = ?sid, StreamTitle = wd_StreamTitle data, StartTime = wd_StartTime data,
        IsLive = wd_IsLive data, MediaType = wd_MediaType data,
        ActivatedTime = (case find (\<lambda>s. (ChannelID s, StreamID s) = (Key cs, ?sid)) (streams (world_db w)) of
           None \<Rightarrow> 0 | Some s \<Rightarrow> ActivatedTime s)\<rparr>}"
    using synced_rows [OF assms(2), of cs data] by (simp add: w1 replaced_def del_lines_def)
  moreover have "worker_rows (world_db w1) = worker_rows (world_db w)" "incoming (world_db w1) = incoming (world_db w)"
    "restarts (world_db w1) = restarts (world_db w)"
    by (simp_all add: w1 replaced_def del_lines_def upsert_stream_def)
  ultimately show ?thesis using code by (intro conjI; (assumption | blast))
qed

text \<open>A stream with media on its first line, and the worker's resync of its two lines.\<close>

definition with_media_world :: "gerr option list \<Rightarrow> unit world" where
  "with_media_world fl = (sample_world [sample_stream ''a'' True 3])\<lparr>conn :=
     \<lparr>conn_db = createSchema\<lparr>streams := [sample_stream ''a'' True 3],
        transcripts := [row_of_line ''ch'' ''a'' ((line_at 0)\<lparr>MediaAvailable := True, FileID := ''f''\<rparr>)]\<rparr>,
      faults = fl\<rparr>\<rparr>"

definition resync_data :: worker_data where
  "resync_data = \<lparr>wd_StreamID = ''a'', wd_StreamTitle = ''t'',
     wd_StartTime = ''0'', wd_IsLive = True, wd_MediaType = ''audio'', wd_Transcript = [line_at 0, line_at 1]\<rparr>"

definition resync :: request where
  "resync = (plain_request ''POST'' ''/ch/sync'')\<lparr>r_Body := SyncPayload resync_data\<rparr>"

theorem sync_keeps_media_witness:
  "\<exists>resp w1. run (syncHandler sample_app resync sample_channel) (with_media_world []) = (resp, w1) \<and> code resp = 200 \<and>
     (0, ''f'') \<in> avail_rows ''ch'' ''a'' (world_db w1) \<and> set (streams (world_db w1)) = {sample_stream ''a'' True 3}"
proof -
  have h: "healthy (with_media_world [])" "schema_ok (world_db (with_media_world []))"
    by (simp_all add: with_media_world_def healthy_def world_db_def schema_ok_def createSchema_def)
  have av: "(0, ''f'') \<in> avail_rows ''ch'' ''a'' (world_db (with_media_world []))"
    by (simp add: with_media_world_def world_db_def avail_rows_filter sel_rows_def with_media_def row_of_line_def
        in_stream_def line_at_def null_string_def)
  have ss: "streams (world_db (with_media_world [])) = [sample_stream ''a'' True 3]"
    by (simp add: with_media_world_def world_db_def)
  have b: "r_Body resync = SyncPayload resync_data" by (simp add: resync_def)
  have sel: "wd_StreamID resync_data = ''a''" "map LineID (wd_Transcript resync_data) = [0, 1]"
    by (simp_all add: resync_data_def line_at_def)
  have d: "distinct (map LineID (wd_Transcript resync_data))" "0 \<in> LineID ` set (wd_Transcript resync_data)"
    by (simp only: sel(2), simp) (simp only: set_map [symmetric] sel(2), simp)
  have id: "isValidID (wd_StreamID resync_data)" by (simp add: sel isValidID_def id_char_def)
  obtain resp w1 where r: "run (syncHandler sample_app resync sample_channel) (with_media_world []) = (resp, w1)"
    by (cases "run (syncHandler sample_app resync sample_channel) (with_media_world [])")
  note S = sync_keeps_media [OF h b id d(1) r, unfolded ss sel(1) sample_channel_sel]
  have "code resp = 200" using S by (elim conjE)
  moreover have "(0, ''f'') \<in> avail_rows ''ch'' ''a'' (world_db w1)"
    using bspec [OF S [THEN conjunct2, THEN conjunct2, THEN conjunct1] av] d(2) by simp
  moreover have "set (streams (world_db w1)) = {sample_stream ''a'' True 3}"
    unfolding S [THEN conjunct2, THEN conjunct2, THEN conjunct2, THEN conjunct2, THEN conjunct2, THEN conjunct1]
    by (auto simp: sample_stream_def resync_data_def)
  ultimately show ?thesis using r by blast
qed

text \<open>
  The exception to that: when only the read of the stored media fails, the sync still answers 200
  and erases the media of every line.
\<close>

theorem failed_media_read_erases_media:
  "let (resp, w1) = run (syncHandler sample_app resync sample_channel) (with_media_world [None, Some ErrDriver]) in
     code resp = 200 \<and>
     avail_rows ''ch'' ''a'' (world_db (with_media_world [None, Some ErrDriver])) = {(0, ''f'')} \<and>
     avail_rows ''ch'' ''a'' (world_db w1) = {}"
proof -
  have "isValidID ''a''" by (simp add: isValidID_def id_char_def)
  then show ?thesis
    by (simp add: Let_def syncHandler_def resync_def resync_data_def plain_request_def run_bind run_sql with_media_world_def
        UpsertStream_def upsert_stream_def synced_stream_def stream_key_def merge_stream_def sql_defs sql_tick_def
        GetLastAvailableMediaFiles_def ReplaceTranscript_def del_lines_def delete_where_def ins_line_def insert_row_def
        row_key_def row_of_line_def in_stream_def line_at_def carry_media_def bumpAdminChange_def broadcastNewLine_def
        broadcast_def GetLastLine_def last_row_def sel_rows_def order_desc_def first_row_def avail_rows_filter
        with_media_def world_db_def createSchema_def null_string_def)
qed

end
