(* ===== verification/Media_Props.thy ===== *)
theory Media_Props
  imports Worker_Props
begin

text \<open>
  The promise of the media upload: a 200 means that the line is marked and that its raw and audio
  objects can be retrieved. The proof is a small Hoare logic over the actions.
\<close>

section \<open>Pre- and postconditions of actions\<close>

definition post :: "('s \<Rightarrow> bool) \<Rightarrow> ('s, 'a) state \<Rightarrow> ('a \<Rightarrow> 's \<Rightarrow> bool) \<Rightarrow> bool" where
  "post P m Q \<longleftrightarrow> (\<forall>w x w1. P w \<longrightarrow> run m w = (x, w1) \<longrightarrow> Q x w1)"

lemma postI: "(\<And>w x w1. P w \<Longrightarrow> run m w = (x, w1) \<Longrightarrow> Q x w1) \<Longrightarrow> post P m Q"
  by (simp add: post_def)

lemma postD: "post P m Q \<Longrightarrow> P w \<Longrightarrow> run m w = (x, w1) \<Longrightarrow> Q x w1"
  by (simp add: post_def)

lemma post_ret: "(\<And>w. P w \<Longrightarrow> Q x w) \<Longrightarrow> post P (ret x) Q"
  by (simp add: post_def)

lemma post_bind: "post P m R \<Longrightarrow> (\<And>x. post (R x) (k x) Q) \<Longrightarrow> post P (m \<bind> k) Q"
  by (fastforce simp: post_def run_bind split: prod.splits)

lemma post_weaken: "post P' m Q' \<Longrightarrow> (\<And>w. P w \<Longrightarrow> P' w) \<Longrightarrow> (\<And>x w. Q' x w \<Longrightarrow> Q x w) \<Longrightarrow> post P m Q"
  unfolding post_def by blast

lemma post_sum:
  "(\<And>e. s = Inl e \<Longrightarrow> post P (f e) Q) \<Longrightarrow> (\<And>x. s = Inr x \<Longrightarrow> post P (g x) Q) \<Longrightarrow>
     post P (case s of Inl e \<Rightarrow> f e | Inr x \<Rightarrow> g x) Q"
  by (cases s) simp_all

lemma post_keeps: "keeps f m \<Longrightarrow> post (\<lambda>w. P (f w)) m (\<lambda>_ w. P (f w))"
  by (auto simp: post_def dest: keeps_run)

section \<open>Temporary files and stored objects\<close>

text \<open>A temporary file lies directly in the base directory, where no object can.\<close>

definition temp_file :: "string \<Rightarrow> string \<Rightarrow> bool" where
  "temp_file base p \<longleftrightarrow> (\<exists>n. p = base @ CHR ''/'' # n \<and> CHR ''/'' \<notin> set n)"

lemma temp_not_object: "temp_file base p \<Longrightarrow> media_key k \<Longrightarrow> base @ CHR ''/'' # k \<noteq> p"
  by (auto simp: temp_file_def elim!: media_keyE)

definition same_objects :: "string \<Rightarrow> 'b stores \<Rightarrow> 'b stores \<Rightarrow> bool" where
  "same_objects base s s1 \<longleftrightarrow> (\<forall>k. media_key k \<longrightarrow> local_obj base s1 k = local_obj base s k)"

lemma same_objects_look:
  "(\<And>q. q \<noteq> p \<Longrightarrow> look (disk s1) q = look (disk s) q) \<Longrightarrow> temp_file base p \<Longrightarrow> same_objects base s s1"
  using temp_not_object by (fastforce simp: same_objects_def local_obj_def)

lemma remove_temp:
  assumes "run (os (os_Remove p)) w = (r, w1)" "local_ok base (stores w)" "temp_file base p"
  shows "local_ok base (stores w1) \<and> same_objects base (stores w) (stores w1) \<and> world_db w1 = world_db w"
proof -
  obtain d where d: "os_Remove p (disk (stores w)) = (r, d)" "w1 = w\<lparr>stores := (stores w)\<lparr>disk := d\<rparr>\<rparr>"
    using assms(1) by (auto simp: run_os split: prod.splits)
  have ok: "disk_ok (disk (stores w))" "base_ok base" using assms(2) by (simp_all add: local_ok_def)
  note R = Remove_effect [OF d(1) ok(1)]
  have "look d q = look (disk (stores w)) q" if "q \<noteq> p" for q using R(1) that by auto
  then have "same_objects base (stores w) (stores w1)"
    using same_objects_look [of p "stores w1" "stores w" base] assms(3) d(2) by simp
  with R(2) ok(2) d(2) show ?thesis by (simp add: local_ok_def)
qed

text \<open>What the processor is trusted with: it writes its output file and keeps the directory tree.\<close>

definition writes_output :: "(disk \<Rightarrow> unit res \<times> disk) \<Rightarrow> string \<Rightarrow> bool" where
  "writes_output f out \<longleftrightarrow> (\<forall>d r d1. disk_ok d \<longrightarrow> f d = (r, d1) \<longrightarrow>
     disk_ok d1 \<and> (\<forall>q. q \<noteq> out \<longrightarrow> look d1 q = look d q))"

definition processor_ok :: "processor \<Rightarrow> bool" where
  "processor_ok m \<longleftrightarrow> (\<forall>inp out h. writes_output (p_Convert m inp out) out \<and> writes_output (p_ExtractFrame m inp out h) out)"

lemma run_processor:
  assumes "run (os f) w = (r, w1)" "local_ok base (stores w)" "temp_file base out" "writes_output f out"
  shows "local_ok base (stores w1) \<and> same_objects base (stores w) (stores w1) \<and> world_db w1 = world_db w \<and>
    next_uuid w1 = next_uuid w \<and> (\<forall>q. q \<noteq> out \<longrightarrow> look (disk (stores w1)) q = look (disk (stores w)) q)"
proof -
  obtain d where d: "f (disk (stores w)) = (r, d)" "w1 = w\<lparr>stores := (stores w)\<lparr>disk := d\<rparr>\<rparr>"
    using assms(1) by (auto simp: run_os split: prod.splits)
  have ok: "disk_ok (disk (stores w))" "base_ok base" using assms(2) by (simp_all add: local_ok_def)
  have "disk_ok d" "\<forall>q. q \<noteq> out \<longrightarrow> look d q = look (disk (stores w)) q"
    using assms(4) d(1) ok(1) unfolding writes_output_def by blast+
  then show ?thesis
    using same_objects_look [of out "stores w1" "stores w" base] assms(3) ok(2) d(2) by (simp add: local_ok_def)
qed

lemma upload_stores:
  assumes "run (uploadFile app k p) w = (r, w1)" "Storage app = LocalStorage base url" "media_key k" "local_ok base (stores w)"
  shows "local_ok base (stores w1) \<and> world_db w1 = world_db w \<and> next_uuid w1 = next_uuid w \<and>
    (\<forall>j. media_key j \<longrightarrow> j \<noteq> k \<longrightarrow> local_obj base (stores w1) j = local_obj base (stores w) j) \<and>
    (r = Inr () \<longrightarrow> local_obj base (stores w1) k = look (disk (stores w)) p \<and> look (disk (stores w)) p \<noteq> None)"
proof -
  obtain o_r w2 where o: "run (os (os_Open p)) w = (o_r, w2)" by fastforce
  then obtain d2 where d2: "os_Open p (disk (stores w)) = (o_r, d2)" "w2 = w\<lparr>stores := (stores w)\<lparr>disk := d2\<rparr>\<rparr>"
    by (auto simp: run_os split: prod.splits)
  have ok: "disk_ok (disk (stores w))" "base_ok base" using assms(4) by (simp_all add: local_ok_def)
  have O: "look d2 = look (disk (stores w))" "disk_ok d2" "\<And>x. o_r = Inr x \<Longrightarrow> look (disk (stores w)) p = Some x"
    using Open_effect [OF d2(1)] ok by auto
  obtain s_r w3 where s: "run (os (os_Stat p)) w2 = (s_r, w3)" by fastforce
  then obtain d3 where d3: "os_Stat p d2 = (s_r, d3)" "w3 = w\<lparr>stores := (stores w)\<lparr>disk := d3\<rparr>\<rparr>"
    using d2(2) by (auto simp: run_os split: prod.splits)
  have S: "look d3 = look (disk (stores w))" "disk_ok d3" using Stat_effect [OF d3(1)] O by auto
  have l2: "local_ok base (stores w2)" "local_ok base (stores w3)" using O S ok d2 d3 by (simp_all add: local_ok_def)
  have o23: "local_obj base (stores w2) = local_obj base (stores w)" "local_obj base (stores w3) = local_obj base (stores w)"
    using O S d2 d3 by (auto simp: local_obj_def fun_eq_iff)
  show ?thesis
  proof (cases o_r)
    case (Inl e)
    with assms(1) o have "r \<noteq> Inr ()" "w1 = w2" by (auto simp: uploadFile_def run_bind)
    with l2 o23 d2 show ?thesis by simp
  next
    case x: (Inr x)
    show ?thesis
    proof (cases s_r)
      case (Inl e)
      with assms(1) o s x have "r \<noteq> Inr ()" "w1 = w3" by (auto simp: uploadFile_def run_bind)
      with l2 o23 d3 show ?thesis by simp
    next
      case (Inr u)
      obtain sv st where sv: "st_Save (LocalStorage base url) k x (stores w3) = (sv, st)" by fastforce
      have r: "r = Inr () \<longleftrightarrow> (\<exists>u. sv = Inr u)" "w1 = w3\<lparr>stores := st\<rparr>"
        using assms(1,2) o s x Inr sv by (auto simp: uploadFile_def run_bind run_store split: sum.splits)
      note E = local_Save_effect [OF l2(2) assms(3) sv]
      have "local_ok base (stores w1)" "world_db w1 = world_db w" "next_uuid w1 = next_uuid w"
        using E(1) r(2) d3(2) by simp_all
      moreover have "local_obj base (stores w1) j = local_obj base (stores w) j" if "media_key j" "j \<noteq> k" for j
        using E(2) [OF that(1)] that(2) r(2) o23(2) by (simp split: sum.splits)
      moreover have "local_obj base (stores w1) k = look (disk (stores w)) p" "look (disk (stores w)) p \<noteq> None" if "r = Inr ()"
        using E(2) [OF assms(3)] that r O(3) [OF x] by (auto split: sum.splits)
      ultimately show ?thesis by blast
    qed
  qed
qed

section \<open>The handler\<close>

definition stored :: "string \<Rightarrow> string \<Rightarrow> string \<Rightarrow> string \<Rightarrow> string \<Rightarrow> 'b stores \<Rightarrow> bool" where
  "stored base ch sid content f s \<longleftrightarrow>
     local_obj base s (RawKey ch sid f) = Some content \<and> local_obj base s (AudioKey ch sid f) \<noteq> None"

definition truthful :: "string \<Rightarrow> string \<Rightarrow> string \<Rightarrow> int \<Rightarrow> string \<Rightarrow> response \<Rightarrow> 'b world \<Rightarrow> bool" where
  "truthful base ch sid lid content resp w \<longleftrightarrow> local_ok base (stores w) \<and>
     (code resp = 200 \<longrightarrow> (\<exists>f. isValidID f \<and> (lid, f) \<in> avail_rows ch sid (world_db w) \<and> stored base ch sid content f (stores w)))"

lemma media_keys:
  assumes "isValidID ch" "isValidID sid" "isValidID f"
  shows "media_key (RawKey ch sid f)" "media_key (AudioKey ch sid f)" "media_key (FrameKey ch sid f)"
proof -
  have v: "isValidID ''raw''" "isValidID ''audio''" "isValidID ''frame''" "isValidID ''m4a''" "isValidID ''jpg''"
    by code_simp+
  have m: "media_key (ch @ CHR ''/'' # sid @ CHR ''/'' # k @ CHR ''/'' # f @ CHR ''.'' # e)" if "isValidID k" "isValidID e" for k e
  proof -
    have "CHR ''.'' \<notin> set f" "CHR ''.'' \<notin> set e" "CHR ''/'' \<notin> set f" "CHR ''/'' \<notin> set e"
      using assms that by (auto dest: valid_id_facts)
    moreover from this have "media_name (f @ CHR ''.'' # e)"
      using assms(3) that by (simp add: media_name_def split_on_append_sep split_on_no_sep)
    ultimately show ?thesis
      using assms(1,2) that isValidID_no_slash by (simp add: media_key_def split_on_append_sep split_on_no_sep)
  qed
  from m [OF v(1,1)] m [OF v(2,4)] m [OF v(3,5)]
  show "media_key (RawKey ch sid f)" "media_key (AudioKey ch sid f)" "media_key (FrameKey ch sid f)"
    by (simp_all add: key_defs)
qed

lemma keys_differ: "RawKey ch sid f \<noteq> AudioKey ch sid f" "RawKey ch sid f \<noteq> FrameKey ch sid f" "AudioKey ch sid f \<noteq> FrameKey ch sid f"
  by (simp_all add: key_defs)

lemma stored_same:
  "same_objects base s s1 \<Longrightarrow> isValidID ch \<Longrightarrow> isValidID sid \<Longrightarrow> isValidID f \<Longrightarrow>
     stored base ch sid content f s1 = stored base ch sid content f s"
  using media_keys by (simp add: stored_def same_objects_def)

lemma truthful_defer:
  assumes "post P m (truthful base ch sid lid content)" "temp_file base p" "isValidID ch" "isValidID sid"
  shows "post P (defer_Remove p m) (truthful base ch sid lid content)"
proof (rule postI)
  fix w resp w1 assume w: "P w" "run (defer_Remove p m) w = (resp, w1)"
  obtain r wa where a: "run m w = (r, wa)" by fastforce
  obtain x wb where b: "run (os (os_Remove p)) wa = (x, wb)" by fastforce
  have e: "resp = r" "w1 = wb" using w(2) a b by (simp_all add: defer_Remove_def run_bind)
  have t: "truthful base ch sid lid content r wa" using postD [OF assms(1) w(1) a] .
  then have R: "local_ok base (stores wb)" "same_objects base (stores wa) (stores wb)" "world_db wb = world_db wa"
    using remove_temp [OF b _ assms(2)] by (simp_all add: truthful_def)
  with t show "truthful base ch sid lid content resp w1"
    unfolding e truthful_def using stored_same [OF R(2) assms(3,4)] by auto
qed

lemma truthful_fail: "post (\<lambda>w. local_ok base (stores w)) (fail500 app r shown e msg) (truthful base ch sid lid content)"
  by (rule postI) (auto simp: truthful_def dest: fail500_code fail500_frame)

lemma truthful_mark:
  assumes "\<And>v. stores (others v) = stores v" "isValidID f"
  shows "post (\<lambda>w. local_ok base (stores w) \<and> stored base (Key cs) sid content f (stores w))
    (mark_available app others r cs sid lid f) (truthful base (Key cs) sid lid content)"
proof (rule postI)
  fix w resp w1
  assume w: "local_ok base (stores w) \<and> stored base (Key cs) sid content f (stores w)"
    "run (mark_available app others r cs sid lid f) w = (resp, w1)"
  have set_avail: "stores vb = stores va \<and> (m = Inr () \<longrightarrow> (lid, f) \<in> avail_rows (Key cs) sid (world_db vb))"
    if sm: "run (sql (SetMediaAvailable (Key cs) sid lid f True)) va = (m, vb)" for va m vb
  proof -
    obtain c where c: "SetMediaAvailable (Key cs) sid lid f True (conn va) = (m, c)" "vb = va\<lparr>conn := c\<rparr>"
      using sm by (auto simp: run_sql split: prod.splits)
    then show ?thesis
      using SetMediaAvailable_Inr [of "Key cs" sid lid f True "conn va" "()" c] mark_media_available
      by (auto simp: world_db_def)
  qed
  obtain m wa where a: "run (sql (SetMediaAvailable (Key cs) sid lid f True)) w = (m, wa)" by fastforce
  obtain m2 wb where b: "run (if m = Inl ErrNotFound then do {
      time_Sleep others 500000; sql (SetMediaAvailable (Key cs) sid lid f True) } else ret m) wa = (m2, wb)" by fastforce
  have mb: "stores wb = stores w \<and> (m2 = Inr () \<longrightarrow> (lid, f) \<in> avail_rows (Key cs) sid (world_db wb))"
    using b set_avail [OF a] set_avail [of "others (wa\<lparr>clock := clock wa + 500000\<rparr>)" m2 wb] assms(1)
    by (auto simp: time_Sleep_def run_bind split: if_splits)
  show "truthful base (Key cs) sid lid content resp w1"
  proof (cases m2)
    case (Inl e)
    then have "run (fail500 app r ''Database error'' e ''failed to set media available'') wb = (resp, w1)"
      using w(2) a b by (simp add: mark_available_def run_bind)
    with w(1) mb show ?thesis using postD [OF truthful_fail, of base wb] by simp
  next
    case (Inr u)
    let ?rest = "do { fs \<leftarrow> sql (GetLastAvailableMediaFiles (Key cs) sid 100);
      broadcastNewMedia cs sid (case fs of Inl e \<Rightarrow> [(lid, f)] | Inr fl \<Rightarrow> fl);
      ret (reply 200 (Text ''Media received and processed successfully'')) }"
    have r: "run ?rest wb = (resp, w1)" using w(2) a b Inr by (simp add: mark_available_def run_bind)
    have "keeps stores ?rest" "keeps world_db ?rest"
      unfolding broadcastNewMedia_def broadcast_def by (intro keeps_intro keeps_sql; simp)+
    from keeps_run [OF this(1) r] keeps_run [OF this(2) r] mb Inr w(1) assms(2)
    show ?thesis by (auto simp: truthful_def)
  qed
qed

lemma truthful_frame:
  assumes app: "Storage app = LocalStorage base url" and m: "processor_ok (Media app)"
    and v: "isValidID (Key cs)" "isValidID sid" "isValidID f" and j: "temp_file base (ChangeExtension raw ''.jpg'')"
    and rest: "post (\<lambda>w. local_ok base (stores w) \<and> stored base (Key cs) sid content f (stores w)) rest
      (truthful base (Key cs) sid lid content)" (is "post ?P rest ?Q")
  shows "post ?P (upload_frame app cs sid f raw rest) ?Q"
proof -
  let ?jpg = "ChangeExtension raw ''.jpg''"
  have q: "post ?P (sql (GetStreamByID (Key cs) sid)) (\<lambda>_. ?P)"
    by (rule post_keeps) (rule keeps_sql, simp)
  have x: "post ?P (os (p_ExtractFrame (Media app) raw ?jpg 480)) (\<lambda>_. ?P)"
  proof (rule postI)
    fix w :: "'a world" and r w1 assume w: "?P w" "run (os (p_ExtractFrame (Media app) raw ?jpg 480)) w = (r, w1)"
    have "writes_output (p_ExtractFrame (Media app) raw ?jpg 480) ?jpg" using m by (simp add: processor_ok_def)
    from run_processor [OF w(2) _ j this] w(1) stored_same [OF _ v]
    show "?P w1" by blast
  qed
  have u: "post ?P (uploadFile app (FrameKey (Key cs) sid f) ?jpg) (\<lambda>_. ?P)"
  proof (rule postI)
    fix w :: "'a world" and r w1 assume w: "?P w" "run (uploadFile app (FrameKey (Key cs) sid f) ?jpg) w = (r, w1)"
    from upload_stores [OF w(2) app media_keys(3) [OF v]] w(1) media_keys(1,2) [OF v] keys_differ(2,3)
    show "?P w1" by (simp add: stored_def)
  qed
  have "post ?P (defer_Remove ?jpg (do { _ \<leftarrow> uploadFile app (FrameKey (Key cs) sid f) ?jpg; rest })) ?Q"
    by (rule truthful_defer [OF _ j v(1,2)]) (rule post_bind [OF u rest])
  then have e: "post ?P (do { x \<leftarrow> os (p_ExtractFrame (Media app) raw ?jpg 480); (case x of Inl e \<Rightarrow> rest | Inr _ \<Rightarrow>
      defer_Remove ?jpg (do { _ \<leftarrow> uploadFile app (FrameKey (Key cs) sid f) ?jpg; rest })) }) ?Q"
    by (intro post_bind [OF x] post_sum rest)
  show ?thesis
    unfolding upload_frame_def Let_def
    by (rule post_bind [OF q]) (auto split: sum.splits option.splits intro: rest e)
qed

lemma truthful_process:
  assumes app: "Storage app = LocalStorage base url" and m: "processor_ok (Media app)"
    and v: "isValidID (Key cs)" "isValidID sid" "isValidID (shortuuid app n)"
    and o: "\<And>v. stores (others v) = stores v"
    and t: "temp_file base (ChangeExtension raw ''.m4a'')" "temp_file base (ChangeExtension raw ''.jpg'')"
    and ne: "raw \<noteq> ChangeExtension raw ''.m4a''"
  shows "post (\<lambda>w. local_ok base (stores w) \<and> look (disk (stores w)) raw = Some content \<and> next_uuid w = n)
    (process_media app others r cs sid lid raw) (truthful base (Key cs) sid lid content)"
    (is "post ?P _ ?Q")
proof -
  let ?m4a = "ChangeExtension raw ''.m4a''" and ?f = "shortuuid app n"
  let ?R = "RawKey (Key cs) sid ?f" and ?A = "AudioKey (Key cs) sid ?f"
  have c: "post ?P (os (p_Convert (Media app) raw ?m4a)) (\<lambda>_. ?P)"
  proof (rule postI)
    fix w :: "'a world" and x w1 assume w: "?P w" "run (os (p_Convert (Media app) raw ?m4a)) w = (x, w1)"
    have "writes_output (p_Convert (Media app) raw ?m4a) ?m4a" using m by (simp add: processor_ok_def)
    from run_processor [OF w(2) _ t(1) this] w(1) ne show "?P w1" by auto
  qed
  have n: "post ?P (new_uuid app) (\<lambda>x w. x = ?f \<and> local_ok base (stores w) \<and> look (disk (stores w)) raw = Some content)"
    by (rule postI) (auto simp: new_uuid_def)
  have u1: "post (\<lambda>w. x = ?f \<and> local_ok base (stores w) \<and> look (disk (stores w)) raw = Some content)
      (uploadFile app (RawKey (Key cs) sid x) raw)
      (\<lambda>r w. x = ?f \<and> local_ok base (stores w) \<and> (r = Inr () \<longrightarrow> local_obj base (stores w) ?R = Some content))" for x
  proof (rule postI)
    fix w :: "'a world" and y w1
    assume w: "x = ?f \<and> local_ok base (stores w) \<and> look (disk (stores w)) raw = Some content"
      "run (uploadFile app (RawKey (Key cs) sid x) raw) w = (y, w1)"
    from w upload_stores [OF w(2) app] media_keys(1) [OF v]
    show "x = ?f \<and> local_ok base (stores w1) \<and> (y = Inr () \<longrightarrow> local_obj base (stores w1) ?R = Some content)" by auto
  qed
  have u2: "post (\<lambda>w. x = ?f \<and> local_ok base (stores w) \<and> local_obj base (stores w) ?R = Some content)
      (uploadFile app (AudioKey (Key cs) sid x) ?m4a)
      (\<lambda>r w. x = ?f \<and> local_ok base (stores w) \<and> (r = Inr () \<longrightarrow> stored base (Key cs) sid content ?f (stores w)))" for x
  proof (rule postI)
    fix w :: "'a world" and y w1
    assume w: "x = ?f \<and> local_ok base (stores w) \<and> local_obj base (stores w) ?R = Some content"
      "run (uploadFile app (AudioKey (Key cs) sid x) ?m4a) w = (y, w1)"
    from w upload_stores [OF w(2) app] media_keys(1,2) [OF v] keys_differ(1)
    show "x = ?f \<and> local_ok base (stores w1) \<and> (y = Inr () \<longrightarrow> stored base (Key cs) sid content ?f (stores w1))"
      by (auto simp: stored_def)
  qed
  have fail: "post (\<lambda>w. local_ok base (stores w)) (fail500 app r shown e msg) ?Q" for shown e msg
    by (rule truthful_fail)
  have rest: "post (\<lambda>w. local_ok base (stores w) \<and> stored base (Key cs) sid content ?f (stores w))
      (upload_frame app cs sid ?f raw (mark_available app others r cs sid lid ?f)) ?Q"
    by (rule truthful_frame [OF app m v t(2)]) (rule truthful_mark [OF o v(3)])
  show ?thesis
    unfolding process_media_def Let_def
    apply (intro post_bind [OF c] post_sum)
     apply (rule post_weaken [OF fail], simp_all)
    apply (rule truthful_defer [OF _ t(1) v(1,2)])
    apply (intro post_bind [OF n] post_bind [OF u1] post_sum)
     apply (rule post_weaken [OF fail], simp_all)
    apply (rule post_bind)
     apply (rule post_weaken [OF u2], simp, assumption)
    apply (intro post_sum)
     apply (rule post_weaken [OF fail], simp_all)
    subgoal for x
      by (cases "x = ?f") (auto simp: post_def intro: postD [OF rest])
    done
qed

lemma format_int_no_slash: "CHR ''/'' \<notin> set (format_int i)"
  using nat_digits_no_slash by (auto simp: format_int_def)

lemma temp_raw:
  fixes lid :: int
  assumes "base_ok base" "isValidID ch" "isValidID sid"
  defines "stem \<equiv> ch @ ''_'' @ sid @ ''_'' @ format_int lid"
  shows "path_join [base, stem @ ''.raw''] = base @ CHR ''/'' # stem @ ''.raw''" "CHR ''/'' \<notin> set stem"
proof -
  obtain r cs where b: "good_comps cs" "base = slash_path r cs" using assms(1) by (rule base_okE)
  show ns: "CHR ''/'' \<notin> set stem"
    using isValidID_no_slash assms(2,3) format_int_no_slash by (simp add: stem_def)
  have "stem @ ''.raw'' \<noteq> ''.''" "stem @ ''.raw'' \<noteq> ''..''"
    using arg_cong [of "stem @ ''.raw''" _ length] by auto
  then have "good_comps [stem @ ''.raw'']" using ns by (simp add: good_comps_def good_comp_def)
  from path_join_good(1) [OF b(1) this, of r] show "path_join [base, stem @ ''.raw''] = base @ CHR ''/'' # stem @ ''.raw''"
    by (simp add: b)
qed

text \<open>
  C4. A 200 for uploaded media means what it says. With local storage rooted in the temporary directory,
  as the server runs it, a processor that only writes its output file, and other requests that meanwhile
  leave the storage alone: if the upload of a line's media answers 200, there is a file id under which
  the line is marked available in the database, the raw object holds exactly the uploaded bytes, and an
  audio object exists; whatever calls of the system or the database fail on the way, the storage stays well
  formed.
\<close>

theorem media_200_is_retrievable:
  assumes "Storage app = LocalStorage (TempDir app) url" "local_ok (TempDir app) (stores w)" "processor_ok (Media app)"
    and "isValidID (Key cs)" "isValidID (shortuuid app (next_uuid w))" "\<And>v. stores (others v) = stores v"
    and "parse_int (r_PathValue r ''id'') = Some lid" "r_Body r = FilePayload content"
    and "run (mediaHandler app others r cs) w = (resp, w1)"
  shows "local_ok (TempDir app) (stores w1) \<and> (code resp = 200 \<longrightarrow>
    (\<exists>f. isValidID f \<and> (lid, f) \<in> avail_rows (Key cs) (r_PathValue r ''streamID'') (world_db w1) \<and>
      local_obj (TempDir app) (stores w1) (RawKey (Key cs) (r_PathValue r ''streamID'') f) = Some content \<and>
      local_obj (TempDir app) (stores w1) (AudioKey (Key cs) (r_PathValue r ''streamID'') f) \<noteq> None))"
proof -
  let ?sid = "r_PathValue r ''streamID''" and ?base = "TempDir app"
  let ?stem = "Key cs @ ''_'' @ ?sid @ ''_'' @ format_int lid"
  let ?raw = "path_join [?base, ?stem @ ''.raw'']"
  let ?Q = "truthful ?base (Key cs) ?sid lid content"
  let ?n = "next_uuid w"
  have fail: "post (\<lambda>w. local_ok ?base (stores w)) (fail500 app r shown e msg) ?Q" for shown e msg
    by (rule truthful_fail)
  have "truthful ?base (Key cs) ?sid lid content resp w1"
  proof (cases "isValidID ?sid")
    case False
    then show ?thesis using assms(2,7,8,9) by (auto simp: mediaHandler_def bad_request_def truthful_def)
  next
    case sid: True
    have b: "base_ok ?base" using assms(2) by (simp add: local_ok_def)
    note T = temp_raw [OF b assms(4) sid, of lid]
    have ext: "ChangeExtension ?raw (CHR ''.'' # e) = ?base @ CHR ''/'' # ?stem @ CHR ''.'' # e" for e
      using ChangeExtension_replaces [of "''raw''" "?base @ CHR ''/'' # ?stem" e] T(1) by simp
    have tf: "temp_file ?base (?base @ CHR ''/'' # ?stem @ CHR ''.'' # e)" if "CHR ''/'' \<notin> set e" for e
      unfolding temp_file_def using T(2) that by (intro exI [of _ "?stem @ CHR ''.'' # e"]) simp
    have t: "temp_file ?base ?raw" "temp_file ?base (ChangeExtension ?raw ''.m4a'')" "temp_file ?base (ChangeExtension ?raw ''.jpg'')"
      unfolding ext using tf [of "''raw''"] tf [of "''m4a''"] tf [of "''jpg''"] T(1) by simp_all
    have ne: "?raw \<noteq> ChangeExtension ?raw ''.m4a''" unfolding ext using T(1) by simp
    note P = truthful_process [OF assms(1,3,4) sid assms(5,6) t(2,3) ne, of content r lid]
    obtain x w2 where x: "run (sql (StreamExists (Key cs) ?sid)) w = (x, w2)" by fastforce
    have w2: "stores w2 = stores w" "next_uuid w2 = ?n" using x by (auto simp: run_sql split: prod.splits)
    show ?thesis
    proof (cases "x = Inr True")
      case False
      then consider e where "x = Inl e" | "x = Inr False" by (cases x) auto
      then show ?thesis
      proof cases
        case 1
        then have "run (fail500 app r ''Database error'' e ''failed to check stream exists'') w2 = (resp, w1)"
          using assms(7,8,9) sid x by (simp add: mediaHandler_def run_bind Let_def)
        with assms(2) w2 show ?thesis by (intro postD [OF fail, of w2]) simp_all
      next
        case 2
        then show ?thesis using assms(2,7,8,9) sid x w2 by (auto simp: mediaHandler_def run_bind Let_def truthful_def)
      qed
    next
      case True
      obtain d w3 where d: "run (os (os_Create ?raw)) w2 = (d, w3)" by fastforce
      then obtain d3 where d3: "os_Create ?raw (disk (stores w)) = (d, d3)" "w3 = w2\<lparr>stores := (stores w2)\<lparr>disk := d3\<rparr>\<rparr>"
        using w2 by (auto simp: run_os split: prod.splits)
      have ok: "disk_ok (disk (stores w))" using assms(2) by (simp add: local_ok_def)
      note C = Create_effect [OF d3(1) ok]
      have l3: "local_ok ?base (stores w3)" "next_uuid w3 = ?n" using C(2) b d3(2) w2 by (simp_all add: local_ok_def)
      show ?thesis
      proof (cases d)
        case (Inl e)
        then have "run (fail500 app r ''Unable to create temp file'' e ''unable to create temp raw file'') w3 = (resp, w1)"
          using assms(7,8,9) sid x True d by (simp add: mediaHandler_def run_bind Let_def)
        with l3 show ?thesis by (intro postD [OF fail, of w3])
      next
        case (Inr u)
        then have lk: "look d3 ?raw = Some []" using C(1) by simp
        obtain c w4 where c: "run (os (io_Copy ?raw content)) w3 = (c, w4)" by fastforce
        then obtain d4 where d4: "io_Copy ?raw content d3 = (c, d4)" "w4 = w3\<lparr>stores := (stores w3)\<lparr>disk := d4\<rparr>\<rparr>"
          using d3(2) by (auto simp: run_os split: prod.splits)
        note Y = Copy_effect [OF d4(1) C(2) lk]
        obtain cl w5 where cl: "run (os os_Close) w4 = (cl, w5)" by fastforce
        then obtain d5 where d5: "os_Close d4 = (cl, d5)" "w5 = w4\<lparr>stores := (stores w4)\<lparr>disk := d5\<rparr>\<rparr>"
          using d4(2) by (auto simp: run_os split: prod.splits)
        note L = Close_effect [OF d5(1)]
        have l5: "local_ok ?base (stores w5)" "next_uuid w5 = ?n" "c = Inr () \<Longrightarrow> look (disk (stores w5)) ?raw = Some content"
          using Y L b d3(2) d4(2) d5(2) l3 by (simp_all add: local_ok_def)
        have run: "run (case c of Inl e \<Rightarrow> do { _ \<leftarrow> os (os_Remove ?raw); fail500 app r ''Unable to save file'' e ''unable to save temp raw file'' }
            | Inr _ \<Rightarrow> defer_Remove ?raw (process_media app others r cs ?sid lid ?raw)) w5 = (resp, w1)"
          using assms(7,8,9) sid x True d Inr c cl by (cases c) (simp_all add: mediaHandler_def run_bind Let_def)
        show ?thesis
        proof (cases c)
          case (Inl e)
          obtain y w6 where y: "run (os (os_Remove ?raw)) w5 = (y, w6)" by fastforce
          from remove_temp [OF y l5(1) t(1)] have "local_ok ?base (stores w6)" by simp
          moreover have "run (fail500 app r ''Unable to save file'' e ''unable to save temp raw file'') w6 = (resp, w1)"
            using run y Inl by (simp add: run_bind)
          ultimately show ?thesis by (intro postD [OF fail, of w6])
        next
          case (Inr u)
          from postD [OF truthful_defer [OF P t(1) assms(4) sid], of w5 resp w1] l5 run Inr show ?thesis by simp
        qed
      qed
    qed
  qed
  then show ?thesis by (auto simp: truthful_def stored_def)
qed

lemma sample_processor_ok: "processor_ok sample_processor"
  by (auto simp: processor_ok_def sample_processor_def writes_output_def copy_file_def disk_ok_put split: option.splits if_splits)

definition upload_request :: request where
  "upload_request = (plain_request ''POST'' ''/ch/media/a/0'')\<lparr>r_PathValue := (\<lambda>v.
     if v = ''streamID'' then ''a'' else if v = ''id'' then ''0'' else []), r_Body := FilePayload ''data''\<rparr>"

theorem media_200_is_retrievable_witness:
  "let (resp, w1) = run (mediaHandler sample_app (\<lambda>w. w) upload_request sample_channel) (with_media_world [])
   in code resp = 200 \<and> (\<exists>f. local_obj ''tmp'' (stores w1) (RawKey ''ch'' ''a'' f) = Some ''data'')"
proof -
  let ?w = "with_media_world []"
  let ?m = "mediaHandler sample_app (\<lambda>w. w) upload_request sample_channel"
  have a: "Storage sample_app = LocalStorage (TempDir sample_app) []" by simp
  have l: "local_ok (TempDir sample_app) (stores ?w)" by code_simp
  have p: "processor_ok (Media sample_app)" by (simp add: sample_processor_ok)
  have v: "isValidID (Key sample_channel)" "isValidID (shortuuid sample_app (next_uuid ?w))" by code_simp+
  have r: "parse_int (r_PathValue upload_request ''id'') = Some 0" "r_Body upload_request = FilePayload ''data''"
    "r_PathValue upload_request ''streamID'' = ''a''" by code_simp+
  have c: "code (fst (run ?m ?w)) = 200" by code_simp
  show ?thesis
    using media_200_is_retrievable [where others = "\<lambda>w. w", OF a l p v refl r(1,2) prod.collapse [symmetric]] c
    by (auto simp: Let_def case_prod_beta r(3))
qed

end
