(* ===== verification/Events_Props.thy ===== *)
theory Events_Props
  imports Worker_Props
begin

text \<open>
  What the worker's long poll reports: exactly the pending signals, and no queue entry twice.
\<close>

definition pending_flags :: "int \<Rightarrow> db \<Rightarrow> string \<Rightarrow> string list" where
  "pending_flags mark d k = (if mark < latest_incoming k d then [''incoming''] else []) @
     (if 0 < restart_time k d then [''restart''] else [])"

lemma fold_max_iff: "(a::int) < fold max ts t \<longleftrightarrow> a < t \<or> (\<exists>x \<in> set ts. a < x)"
  by (induction ts arbitrary: t) auto

lemma latest_incoming_iff:
  assumes "0 \<le> a"
  shows "a < latest_incoming k d \<longleftrightarrow> (\<exists>u \<in> set (incoming d). in_channel u = k \<and> a < in_received u)"
proof (cases "map in_received (filter (\<lambda>r. in_channel r = k) (incoming d))")
  case Nil
  then have "\<forall>u \<in> set (incoming d). in_channel u \<noteq> k" by (simp add: filter_empty_conv)
  with assms show ?thesis by (auto simp: latest_incoming_def Nil)
next
  case (Cons t ts)
  have "set (t # ts) = in_received ` {u \<in> set (incoming d). in_channel u = k}" by (simp flip: Cons)
  then have "(\<exists>x \<in> set (t # ts). a < x) \<longleftrightarrow> (\<exists>u \<in> set (incoming d). in_channel u = k \<and> a < in_received u)" by auto
  then show ?thesis by (simp add: latest_incoming_def Cons fold_max_iff)
qed

lemma map_of_update: "map_of (AList.update k v al) = (map_of al)(k \<mapsto> v)"
  by (simp add: update_conv')

lemma collect_events_run:
  "run (collect_events ks mark cursor evs) w = (Inr (c, evs1), w1) \<Longrightarrow>
     world_db w1 = world_db w \<and> c = fold max (map (\<lambda>k. latest_incoming k (world_db w)) ks) cursor \<and>
     map_of evs1 = (\<lambda>k. if k \<in> set ks \<and> pending_flags mark (world_db w) k \<noteq> []
       then Some (pending_flags mark (world_db w) k) else map_of evs k)"
proof (induction ks arbitrary: cursor evs w)
  case Nil
  then show ?case by simp
next
  case (Cons k ks)
  let ?d = "world_db w"
  obtain l wa where l: "run (sql (GetLatestIncomingTime k)) w = (l, wa)" by fastforce
  obtain q wb where q: "run (sql (GetRestartRequest k)) wa = (q, wb)" by fastforce
  note la = sql_query_cases [OF l [unfolded GetLatestIncomingTime_def]]
    and qa = sql_query_cases [OF q [unfolded GetRestartRequest_def]]
  obtain x y where xy: "l = Inr x" "q = Inr y" using Cons.prems l q by (auto simp: run_bind split: sum.splits)
  then have e: "x = latest_incoming k ?d" "y = restart_time k ?d" "world_db wb = ?d"
    using la qa by simp_all
  let ?evs = "if pending_flags mark ?d k = [] then evs else AList.update k (pending_flags mark ?d k) evs"
  have "run (collect_events ks mark (max cursor (latest_incoming k ?d)) ?evs) wb = (Inr (c, evs1), w1)"
    using Cons.prems l q xy e unfolding pending_flags_def by (auto simp: run_bind Let_def split: if_splits)
  from Cons.IH [OF this] show ?case by (auto simp: e(3) map_of_update fun_eq_iff max.commute)
qed

lemma fold_max_bound: "a \<le> fold max xs (a::int) \<and> (\<forall>x \<in> set xs. x \<le> fold max xs a) \<and> (fold max xs a = a \<or> fold max xs a \<in> set xs)"
proof (induction xs arbitrary: a)
  case (Cons x xs)
  from Cons [of "max x a"] show ?case by (auto simp: max_def split: if_splits)
qed simp

text \<open>
  C24. The worker's poll reports exactly what is pending. When it succeeds, a listed channel is reported
  with \<open>incoming\<close> if and only if a URL of it was queued in a second after the worker's cursor, and with
  \<open>restart\<close> if and only if a restart request of it is pending; no other channel is reported, and none
  without a signal. A later poll that echoes the returned cursor, whatever has happened to the queue
  since, reports \<open>incoming\<close> for exactly the listed channels with an entry that was not in the queue at the
  first poll and was received in a second after the cursor: nothing the first poll saw is reported
  again, and an entry that arrives later in the second of the cursor is missed, as the comment on
  \<^verbatim>\<open>collectWorkerEvents\<close> says. Over an unchanged queue it returns the same cursor.
\<close>

theorem worker_events_exact:
  assumes "0 \<le> mark" "run (collectWorkerEvents ks mark) w = (Inr (cursor, evs), w1)"
  shows "(\<forall>k. map_of evs k = (if k \<in> set ks \<and> pending_flags mark (world_db w) k \<noteq> []
        then Some (pending_flags mark (world_db w) k) else None)) \<and>
    (\<forall>k. ''incoming'' \<in> set (pending_flags mark (world_db w) k) \<longleftrightarrow>
        (\<exists>u \<in> set (incoming (world_db w)). in_channel u = k \<and> mark < in_received u)) \<and>
    (\<forall>k. ''restart'' \<in> set (pending_flags mark (world_db w) k) \<longleftrightarrow> 0 < restart_time k (world_db w)) \<and>
    mark \<le> cursor \<and> world_db w1 = world_db w \<and>
    (\<forall>w2 c2 evs2 w3. run (collectWorkerEvents ks cursor) w2 = (Inr (c2, evs2), w3) \<longrightarrow>
       (\<forall>k. (\<exists>fl. map_of evs2 k = Some fl \<and> ''incoming'' \<in> set fl) \<longleftrightarrow> k \<in> set ks \<and>
          (\<exists>u \<in> set (incoming (world_db w2)) - set (incoming (world_db w)). in_channel u = k \<and> cursor < in_received u))) \<and>
    (\<forall>w2 c2 evs2 w3. world_db w2 = world_db w \<longrightarrow> run (collectWorkerEvents ks cursor) w2 = (Inr (c2, evs2), w3) \<longrightarrow>
       c2 = cursor \<and> (\<forall>k fl. map_of evs2 k = Some fl \<longrightarrow> fl = [''restart'']))"
proof -
  let ?d = "world_db w" and ?l = "map (\<lambda>k. latest_incoming k (world_db w)) ks"
  note R = collect_events_run [OF assms(2) [unfolded collectWorkerEvents_def]]
  note B = fold_max_bound [of mark ?l]
  have le: "latest_incoming k ?d \<le> cursor" if "k \<in> set ks" for k using that R B by simp
  have again: "c2 = cursor \<and> (\<forall>k fl. map_of evs2 k = Some fl \<longrightarrow> fl = [''restart''])"
    if w2: "world_db w2 = ?d" and r2: "run (collectWorkerEvents ks cursor) w2 = (Inr (c2, evs2), w3)" for w2 c2 evs2 w3
  proof -
    note R2 = collect_events_run [OF r2 [unfolded collectWorkerEvents_def]]
    have c2: "c2 = fold max ?l cursor" using R2 w2 by simp
    have "c2 = cursor"
      using fold_max_bound [of cursor ?l] le unfolding c2 by force
    moreover have "fl = [''restart'']" if "map_of evs2 k = Some fl" for k fl
    proof -
      have "k \<in> set ks" "fl = pending_flags cursor ?d k" "fl \<noteq> []"
        using that R2 w2 by (auto split: if_splits)
      then show ?thesis using le [of k] by (auto simp: pending_flags_def split: if_splits)
    qed
    ultimately show ?thesis by blast
  qed
  have inc: "''incoming'' \<in> set (pending_flags mark ?d k) \<longleftrightarrow> (\<exists>u \<in> set (incoming ?d). in_channel u = k \<and> mark < in_received u)" for k
    unfolding latest_incoming_iff [OF assms(1), symmetric] by (simp add: pending_flags_def)
  have res: "''restart'' \<in> set (pending_flags mark ?d k) \<longleftrightarrow> 0 < restart_time k ?d" for k
    by (simp add: pending_flags_def)
  have "mark \<le> cursor" "world_db w1 = ?d" using R B by auto
  moreover have "map_of evs k = (if k \<in> set ks \<and> pending_flags mark ?d k \<noteq> [] then Some (pending_flags mark ?d k) else None)" for k
    using R by simp
  moreover have "(\<exists>fl. map_of evs2 k = Some fl \<and> ''incoming'' \<in> set fl) \<longleftrightarrow> k \<in> set ks \<and>
      (\<exists>u \<in> set (incoming (world_db w2)) - set (incoming ?d). in_channel u = k \<and> cursor < in_received u)"
    if r2: "run (collectWorkerEvents ks cursor) w2 = (Inr (c2, evs2), w3)" for w2 c2 evs2 w3 k
  proof -
    have "0 \<le> cursor" using assms(1) \<open>mark \<le> cursor\<close> by simp
    note inc2 = latest_incoming_iff [OF this]
    note R2 = collect_events_run [OF r2 [unfolded collectWorkerEvents_def]]
    have "in_received u \<le> cursor" if "u \<in> set (incoming ?d)" "in_channel u \<in> set ks" for u
      using inc2 [of "in_channel u" ?d] le [OF that(2)] that(1) by force
    then have old: "(\<exists>u \<in> set (incoming (world_db w2)). in_channel u = k \<and> cursor < in_received u) \<longleftrightarrow>
        (\<exists>u \<in> set (incoming (world_db w2)) - set (incoming ?d). in_channel u = k \<and> cursor < in_received u)" if "k \<in> set ks"
      using that by force
    have "(\<exists>fl. map_of evs2 k = Some fl \<and> ''incoming'' \<in> set fl) \<longleftrightarrow> k \<in> set ks \<and> cursor < latest_incoming k (world_db w2)"
      using R2 by (auto simp: pending_flags_def)
    then show ?thesis using inc2 [of k "world_db w2"] old by blast
  qed
  ultimately show ?thesis using inc res again by blast
qed

definition queued_world :: "unit world" where
  "queued_world = (sample_world [])\<lparr>conn := \<lparr>conn_db = createSchema\<lparr>
     incoming := [\<lparr>in_channel = ''ch'', in_url = ''https://x'', in_received = 7\<rparr>],
     restarts := [\<lparr>rs_channel = ''ch'', rs_requested = 9\<rparr>]\<rparr>, faults = []\<rparr>\<rparr>"

text \<open>Later in the second of the first entry another one arrives: the next poll misses it.\<close>

definition late_entry :: "unit world" where
  "late_entry = queued_world\<lparr>conn := (conn queued_world)\<lparr>conn_db := (conn_db (conn queued_world))\<lparr>
     incoming := [\<lparr>in_channel = ''ch'', in_url = ''https://x'', in_received = 7\<rparr>,
                  \<lparr>in_channel = ''ch'', in_url = ''https://y'', in_received = 7\<rparr>]\<rparr>\<rparr>\<rparr>"

theorem worker_events_exact_witness:
  "fst (run (collectWorkerEvents [''ch''] 5) queued_world) = Inr (7, [(''ch'', [''incoming'', ''restart''])]) \<and>
   world_db (snd (run (collectWorkerEvents [''ch''] 5) queued_world)) = world_db queued_world \<and>
   (\<exists>c evs w. run (collectWorkerEvents [''ch''] 7) late_entry = (Inr (c, evs), w) \<and>
      \<not> (\<exists>fl. map_of evs ''ch'' = Some fl \<and> ''incoming'' \<in> set fl))"
proof -
  have f: "fst (run (collectWorkerEvents [''ch''] 5) queued_world) = Inr (7, [(''ch'', [''incoming'', ''restart''])])"
    "fst (run (collectWorkerEvents [''ch''] 7) late_entry) = Inr (7, [(''ch'', [''restart''])])" by code_simp+
  then obtain w1 w3 where r: "run (collectWorkerEvents [''ch''] 5) queued_world = (Inr (7, [(''ch'', [''incoming'', ''restart''])]), w1)"
    "run (collectWorkerEvents [''ch''] 7) late_entry = (Inr (7, [(''ch'', [''restart''])]), w3)"
    by (metis prod.collapse)
  have "\<forall>u \<in> set (incoming (world_db late_entry)). \<not> 7 < in_received u"
    by (simp add: late_entry_def queued_world_def world_db_def)
  then have "\<not> (\<exists>fl. map_of [(''ch'', [''restart''])] ''ch'' = Some fl \<and> ''incoming'' \<in> set fl)"
    using worker_events_exact [OF zero_le_numeral r(1)] r(2) by blast
  moreover have "world_db w1 = world_db queued_world" using worker_events_exact [OF zero_le_numeral r(1)] by (elim conjE)
  ultimately show ?thesis using f(1) r by (simp only: prod.sel) blast
qed

end
