(* ===== verification/Public_Props.thy ===== *)
theory Public_Props
  imports Worker_Props
begin

text \<open>
  What viewers can reach: the files the public routes serve, and the lines a clip is made of.
\<close>

section \<open>Served files\<close>

lemma path_join_media:
  assumes "base_ok base" "good_comp ch" "good_comp a" "good_comp k" "good_comp f"
  shows "path_join [base @ CHR ''/'' # ch, a, k, f] = base @ CHR ''/'' # ch @ CHR ''/'' # a @ CHR ''/'' # k @ CHR ''/'' # f"
proof -
  obtain r cs where b: "good_comps cs" "base = slash_path r cs" using assms(1) by (rule base_okE)
  have g: "good_comps [ch, a, k, f]" using assms by (simp add: good_comps_def)
  have p: "base @ CHR ''/'' # ch @ CHR ''/'' # a @ CHR ''/'' # k @ CHR ''/'' # f = slash_path r (cs @ [ch, a, k, f])"
    using slash_path_append [OF b(1) g, of r] by (simp add: b)
  have "a \<noteq> []" "k \<noteq> []" "f \<noteq> []" using assms by (simp_all add: good_comp_def)
  then have "path_join [base @ CHR ''/'' # ch, a, k, f] = path_clean (slash_path r (cs @ [ch, a, k, f]))"
    using p by (simp add: path_join_def)
  then show ?thesis unfolding p using path_clean_good [of "cs @ [ch, a, k, f]" r] b(1) g by simp
qed

lemma content_type_ext:
  assumes "map_of mediaContentTypes ext = Some ct"
  obtains e where "ext = CHR ''.'' # e" "isValidID e"
proof -
  have "ext \<in> {''.m4a'', ''.mp4'', ''.mp3'', ''.jpg''}"
    using assms by (auto simp: mediaContentTypes_def split: if_splits)
  then have "ext = CHR ''.'' # ''m4a'' \<or> ext = CHR ''.'' # ''mp4'' \<or> ext = CHR ''.'' # ''mp3'' \<or> ext = CHR ''.'' # ''jpg''"
    by auto
  moreover have "isValidID ''m4a''" "isValidID ''mp4''" "isValidID ''mp3''" "isValidID ''jpg''" by code_simp+
  ultimately show ?thesis using that by blast
qed

lemma media_name_ext: "isValidID i \<Longrightarrow> isValidID e \<Longrightarrow> media_name (i @ CHR ''.'' # e)"
  using isValidID_no_dot [of i] isValidID_no_dot [of e]
  by (simp add: media_name_def split_on_append_sep split_on_no_sep)

lemma media_key_of:
  assumes "isValidID c" "isValidID s" "isValidID k" "media_name f"
  shows "media_key (c @ CHR ''/'' # s @ CHR ''/'' # k @ CHR ''/'' # f)"
proof -
  have "CHR ''/'' \<notin> set f" using media_name_good [OF assms(4)] by (auto simp: good_comp_def)
  then show ?thesis
    using assms isValidID_no_slash by (simp add: media_key_def split_on_append_sep split_on_no_sep)
qed

definition file_routes :: "'b app \<Rightarrow> (request \<Rightarrow> channel \<Rightarrow> ('b, response) act) list" where
  "file_routes app = [streamHandler app, getFrameHandler app, downloadHandler app]"

lemma run_fail500_body: "run (fail500 app r shown e msg) w = (resp, w1) \<Longrightarrow> body resp = Text shown"
  by (auto simp: fail500_def run_bind split: prod.splits)

lemma stat_and_serve_file:
  assumes "run (stat_and_serve app r path missing msg hs) w = (resp, w1)" "body resp = FileBody p"
  shows "p = path \<and> headers resp = hs \<and> (path \<in> set (dirs (disk (stores w1))) \<or> look (disk (stores w1)) path \<noteq> None)"
  using assms
  by (auto simp: stat_and_serve_def run_bind run_os serve_file_def os_Stat_def dest: run_fail500_body
      split: prod.splits sum.splits if_splits option.splits)

lemma trim_ext: "trim_suffix f (path_ext f) @ path_ext f = f"
  using path_ext_suffix [of f] trim_suffix_append by (metis has_suffix_append)

lemma file_route_shape:
  fixes r :: request
  defines "fn \<equiv> r_PathValue r ''filename''"
  assumes "h \<in> set (file_routes app)" "run (h r cs) w = (resp, w1)" "body resp = FileBody p"
  shows "st_IsLocal (Storage app) \<and> isValidID (r_PathValue r ''streamID'') \<and> isValidID (trim_suffix fn (path_ext fn)) \<and>
    (\<exists>kind ct hs missing msg w0. kind \<in> {''audio'', ''clips'', ''frame'', ''vod''} \<and>
      map_of mediaContentTypes (path_ext fn) = Some ct \<and> (''Content-Type'', ct) \<in> set hs \<and>
      run (stat_and_serve app r (path_join [BaseMediaFolder cs, r_PathValue r ''streamID'', kind, fn]) missing msg hs) w0
        = (resp, w1))"
proof -
  note cl = assms(3,4)
  have jpg: "map_of mediaContentTypes ''.jpg'' = Some ''image/jpeg''" by (simp add: mediaContentTypes_def)
  consider "h = streamHandler app" | "h = getFrameHandler app" | "h = downloadHandler app"
    using assms(2) by (auto simp: file_routes_def)
  then show ?thesis
  proof cases
    case 1
    define k where "k = r_PathValue r ''type''"
    have k: "k \<in> set [''audio'', ''clips'']" and L: "st_IsLocal (Storage app)" "isValidID (r_PathValue r ''streamID'')"
      "isValidID (trim_suffix fn (path_ext fn))"
      using cl 1 unfolding k_def fn_def
      by (simp_all add: streamHandler_def Let_def bad_request_def split: if_splits option.splits) auto
    obtain ct where ct: "map_of mediaContentTypes (path_ext fn) = Some ct"
      using cl 1 unfolding fn_def
      by (simp add: streamHandler_def Let_def bad_request_def split: if_splits option.splits) auto
    have "run (stat_and_serve app r (path_join [BaseMediaFolder cs, r_PathValue r ''streamID'', k, fn])
        ''File not found'' ''unable to check file'' [(''Content-Type'', ct)]) w = (resp, w1)"
      using cl 1 k L ct unfolding k_def fn_def
      by (auto simp: streamHandler_def Let_def bad_request_def trim_ext split: if_splits)
    moreover have "(''Content-Type'', ct) \<in> set [(''Content-Type'', ct)]" "k \<in> {''audio'', ''clips'', ''frame'', ''vod''}"
      using k by auto
    ultimately show ?thesis using L ct by blast
  next
    case 2
    have ext: "path_ext fn = ''.jpg''" and L: "st_IsLocal (Storage app)" "isValidID (r_PathValue r ''streamID'')"
      "isValidID (trim_suffix fn (path_ext fn))"
      using cl 2 unfolding fn_def
      by (auto simp: getFrameHandler_def Let_def bad_request_def split: if_splits)
    define hs where "hs = [(''Cache-Control'', ''public, max-age=31536000''), (''Content-Type'', ''image/jpeg'')]"
    have "run (stat_and_serve app r (path_join [BaseMediaFolder cs, r_PathValue r ''streamID'', ''frame'', fn])
        ''No frame found'' ''unable to check frame file'' hs) w = (resp, w1)"
      using cl(1) 2 L trim_ext [of fn] unfolding hs_def fn_def [symmetric]
      by (simp add: getFrameHandler_def Let_def fn_def [symmetric] ext)
    moreover have "(''Content-Type'', ''image/jpeg'') \<in> set hs" by (simp add: hs_def)
    moreover have "map_of mediaContentTypes (path_ext fn) = Some ''image/jpeg''" by (simp only: ext jpg)
    ultimately show ?thesis using L by blast
  next
    case 3
    define k where "k = r_PathValue r ''type''"
    have k: "k \<in> {''audio'', ''clips'', ''frame'', ''vod''}" and L: "st_IsLocal (Storage app)" "isValidID (r_PathValue r ''streamID'')"
      using cl 3 unfolding k_def by (simp_all add: downloadHandler_def Let_def bad_request_def split: if_splits) auto
    have mt: "(r_PathValue r ''type'' \<notin> set [''audio'', ''clips'', ''frame'', ''vod'']) = False" using k by (auto simp: k_def)
    let ?dir = "path_join [BaseMediaFolder cs, r_PathValue r ''streamID'']"
    obtain x w0 where x: "run (os (os_Stat ?dir)) w = (x, w0)" by fastforce
    define name where "name = r_Query r ''name''"
    define hs where "hs ct = [(''Content-Disposition'', ''attachment; filename='' @ [CHR 0x22] @
      (if name \<noteq> [] then sanitize app name @ path_ext fn else r_PathValue r ''streamID'' @ ''_'' @ fn) @ [CHR 0x22]),
      (''Content-Type'', ct)]" for ct
    define rest where "rest = (if \<not> isValidID (trim_suffix fn (path_ext fn)) then bad_request ''Invalid file name''
      else (case map_of mediaContentTypes (path_ext fn) of None \<Rightarrow> bad_request ''Invalid file extension''
        | Some ct \<Rightarrow> stat_and_serve app r (path_join [BaseMediaFolder cs, r_PathValue r ''streamID'', k, fn])
            ''File not found'' ''unable to check file'' (hs ct)))"
    have "run (downloadHandler app r cs) w = (case x of Inl e \<Rightarrow> (http_Error ''Stream not found'' 404, w0) | Inr u \<Rightarrow> run rest w0)"
      using L x unfolding downloadHandler_def Let_def mt if_False rest_def hs_def name_def k_def fn_def trim_ext
      by (cases x) (simp_all add: run_bind)
    then have r: "run rest w0 = (resp, w1)" using cl 3 by (auto split: sum.splits)
    then obtain ct where ct: "isValidID (trim_suffix fn (path_ext fn))" "map_of mediaContentTypes (path_ext fn) = Some ct"
      using cl(2) unfolding rest_def by (auto simp: bad_request_def split: if_splits option.splits)
    then have "run (stat_and_serve app r (path_join [BaseMediaFolder cs, r_PathValue r ''streamID'', k, fn])
        ''File not found'' ''unable to check file'' (hs ct)) w0 = (resp, w1)" using r unfolding rest_def by simp
    moreover have "(''Content-Type'', ct) \<in> set (hs ct)" by (simp add: hs_def)
    ultimately show ?thesis using k L ct by blast
  qed
qed

text \<open>
  C10. The public file routes cannot be talked into another path: whatever the request, a file they serve
  is, under the storage root, exactly the object \<open>channel/stream/kind/name\<close> of the request's own channel
  and of the stream in its path, of kind audio, clips, frame or vod (never the raw uploads) and with a
  known media extension, whose content type is sent; it existed when it was served, and other storage
  backends serve nothing.
\<close>

theorem served_files_are_media_objects:
  assumes "base_ok base" "isValidID (Key cs)" "BaseMediaFolder cs = base @ CHR ''/'' # Key cs"
    and "h \<in> set (file_routes app)" "run (h r cs) w = (resp, w1)" "body resp = FileBody p"
  shows "st_IsLocal (Storage app) \<and> (\<exists>kind name ext ct.
    kind \<in> {''audio'', ''clips'', ''frame'', ''vod''} \<and> name @ ext = r_PathValue r ''filename'' \<and>
    map_of mediaContentTypes ext = Some ct \<and> (''Content-Type'', ct) \<in> set (headers resp) \<and>
    p = base @ CHR ''/'' # Key cs @ CHR ''/'' # r_PathValue r ''streamID'' @ CHR ''/'' # kind @ CHR ''/'' # name @ ext \<and>
    media_key (Key cs @ CHR ''/'' # r_PathValue r ''streamID'' @ CHR ''/'' # kind @ CHR ''/'' # name @ ext) \<and>
    (p \<in> set (dirs (disk (stores w1))) \<or> look (disk (stores w1)) p \<noteq> None))"
proof -
  let ?sid = "r_PathValue r ''streamID''"
  let ?fn = "r_PathValue r ''filename''"
  let ?ext = "path_ext ?fn" and ?i = "trim_suffix ?fn (path_ext ?fn)"
  note shape = file_route_shape [OF assms(4-6)]
  then have L: "st_IsLocal (Storage app)" "isValidID ?sid" "isValidID ?i" by simp_all
  obtain kind ct hs missing msg w0 where F: "kind \<in> {''audio'', ''clips'', ''frame'', ''vod''}"
    "map_of mediaContentTypes ?ext = Some ct" "(''Content-Type'', ct) \<in> set hs"
    "run (stat_and_serve app r (path_join [BaseMediaFolder cs, ?sid, kind, ?fn]) missing msg hs) w0 = (resp, w1)"
    using shape by blast
  obtain e where e: "?ext = CHR ''.'' # e" "isValidID e" by (rule content_type_ext [OF F(2)])
  have k: "isValidID kind" using F(1) by (auto simp: isValidID_def id_char_def)
  have n: "media_name ?fn" using media_name_ext [OF L(3) e(2)] trim_ext [of ?fn] e(1) by simp
  have g: "good_comps [Key cs, ?sid, kind]" using assms(2) L(2) k by (intro valid_ids_good) auto
  have "path_join [BaseMediaFolder cs, ?sid, kind, ?fn]
      = base @ CHR ''/'' # Key cs @ CHR ''/'' # ?sid @ CHR ''/'' # kind @ CHR ''/'' # ?fn"
    unfolding assms(3) using path_join_media [OF assms(1)] g media_name_good [OF n] by (simp add: good_comps_def)
  with stat_and_serve_file [OF F(4) assms(6)] F L media_key_of [OF assms(2) L(2) k n]
  show ?thesis by (intro conjI exI [of _ kind] exI [of _ ?i] exI [of _ ?ext] exI [of _ ct]) (simp_all add: trim_ext)
qed

definition play_request :: request where
  "play_request = (plain_request ''GET'' ''/ch/stream/a/audio/f.m4a'')\<lparr>r_PathValue := (\<lambda>v.
     if v = ''streamID'' then ''a'' else if v = ''type'' then ''audio'' else if v = ''filename'' then ''f.m4a'' else [])\<rparr>"

definition media_world :: "string \<Rightarrow> unit world" where
  "media_world path = (with_media_world [])\<lparr>stores := empty_store\<lparr>disk :=
     (put_file path ''data'' (disk empty_store))\<lparr>dirs := [''tmp'', ''tmp/ch'', ''tmp/ch/a'', ''tmp/ch/a/audio'', ''tmp/ch/a/raw'']\<rparr>\<rparr>\<rparr>"

theorem served_files_are_media_objects_witness:
  "body (fst (run (streamHandler sample_app play_request sample_channel) (media_world ''tmp/ch/a/audio/f.m4a'')))
     = FileBody ''tmp/ch/a/audio/f.m4a'' \<and>
   (\<exists>k. media_key k \<and> ''tmp/ch/a/audio/f.m4a'' = ''tmp/'' @ k)"
proof -
  let ?w = "media_world ''tmp/ch/a/audio/f.m4a''"
  have b: "base_ok ''tmp''" by (simp add: base_ok_def good_comps_def good_comp_def)
  have k: "isValidID (Key sample_channel)" "BaseMediaFolder sample_channel = ''tmp'' @ CHR ''/'' # Key sample_channel"
    by (simp_all add: isValidID_def id_char_def)
  have h: "streamHandler sample_app \<in> set (file_routes sample_app)" by (simp add: file_routes_def)
  have f: "body (fst (run (streamHandler sample_app play_request sample_channel) ?w)) = FileBody ''tmp/ch/a/audio/f.m4a''" by code_simp
  obtain j where "media_key j" "''tmp/ch/a/audio/f.m4a'' = ''tmp'' @ CHR ''/'' # j"
    using served_files_are_media_objects [OF b k h prod.collapse [symmetric] f] by blast
  with f show ?thesis by auto
qed

section \<open>Clips\<close>

lemma scan_complete:
  assumes "distinct (map row_id rows)" "\<forall>r \<in> set rows. a \<le> row_id r \<and> row_id r \<le> b" "a \<le> b"
    and "int (length (scanFileIDs rows)) = b - a + 1" "a \<le> i" "i \<le> b"
  shows "\<exists>r \<in> set rows. row_id r = i \<and> (\<exists>f. row_file r = Some f \<and> f \<noteq> [])"
proof -
  let ?P = "\<lambda>r. row_file r \<noteq> None \<and> row_file r \<noteq> Some []"
  let ?ids = "row_id ` set (filter ?P rows)"
  have "distinct (map row_id (filter ?P rows))" using assms(1) by (rule distinct_map_filter)
  from distinct_card [OF this] have "card ?ids = length (filter ?P rows)" by simp
  then have "int (card ?ids) = b - a + 1" using assms(4) by (simp only: length_scanFileIDs)
  then have c: "card ?ids = card {a..b}" using assms(3) by simp
  have "?ids \<subseteq> {a..b}" using assms(2) by auto
  then have "?ids = {a..b}" using c by (intro card_subset_eq) auto
  then have "i \<in> ?ids" using assms(5,6) by simp
  then show ?thesis by auto
qed

lemma make_clip_files:
  assumes "run (make_clip app r cs sid start stop reqType ext) w = (resp, w1)" "body resp = JClip uid"
  shows "int (length (scanFileIDs (order_asc row_id (filter (\<lambda>r. start \<le> row_id r \<and> row_id r \<le> stop \<and> with_media r)
    (sel_rows (Key cs) sid (world_db w)))))) = stop - start + 1"
proof -
  obtain u w0 where u: "run (new_uuid app) w = (u, w0)" by fastforce
  obtain f w2 where f: "run (sql (GetFileIDsInRange (Key cs) sid start stop)) w0 = (f, w2)" by fastforce
  have "world_db w0 = world_db w" using u by (auto simp: new_uuid_def)
  then have q: "f = Inr fs \<Longrightarrow> fs = scanFileIDs (order_asc row_id
      (filter (\<lambda>r. start \<le> row_id r \<and> row_id r \<le> stop \<and> with_media r) (sel_rows (Key cs) sid (world_db w))))" for fs
    using sql_query_cases(2) [OF f [unfolded GetFileIDsInRange_def]] by simp
  show ?thesis
  proof (cases f)
    case (Inl e)
    with assms u f show ?thesis by (auto simp: make_clip_def run_bind dest: run_fail500_body)
  next
    case (Inr fs)
    with assms u f have "int (length fs) = stop - start + 1"
      by (auto simp: make_clip_def run_bind Let_def dest: run_fail500_body split: if_splits)
    with q [OF Inr] show ?thesis by simp
  qed
qed

text \<open>
  C25. A clip is never missing lines: if the clip endpoint answers with a clip, the requested range was not
  empty, not negative and no longer than the limit, and every single line of it existed with media and
  a file id when its files were looked up.
\<close>

theorem clip_covers_its_range:
  assumes "schema_ok (world_db w)" "r_Body r = ClipPayload q"
    and "run (postClipHandler app r cs) w = (resp, w1)" "body resp = JClip uid"
  shows "isValidID (clip_StreamID q) \<and> 0 \<le> clip_Start q \<and> clip_Start q \<le> clip_End q \<and>
    clip_End q - clip_Start q < MaxClipSize app \<and>
    (\<forall>i. clip_Start q \<le> i \<and> i \<le> clip_End q \<longrightarrow>
       (\<exists>f. f \<noteq> [] \<and> (i, f) \<in> avail_rows (Key cs) (clip_StreamID q) (world_db w)))"
proof -
  let ?sid = "clip_StreamID q" and ?a = "clip_Start q" and ?b = "clip_End q"
  let ?rows = "order_asc row_id (filter (\<lambda>r. ?a \<le> row_id r \<and> row_id r \<le> ?b \<and> with_media r) (sel_rows (Key cs) ?sid (world_db w)))"
  obtain x w0 where x: "run (sql (GetStreamByID (Key cs) ?sid)) w = (x, w0)" by fastforce
  have d: "world_db w0 = world_db w" using sql_query_cases(1) [OF x [unfolded GetStreamByID_def]] .
  obtain reqType ext where m: "run (make_clip app r cs ?sid ?a ?b reqType ext) w0 = (resp, w1)"
    and g: "isValidID ?sid" "0 \<le> ?a" "?a \<le> ?b" "?b - ?a < MaxClipSize app"
    using assms x by (auto simp: postClipHandler_def Let_def run_bind bad_request_def clip_extension_def
        dest: run_fail500_body split: if_splits sum.splits option.splits)
  have n: "int (length (scanFileIDs ?rows)) = ?b - ?a + 1" using make_clip_files [OF m assms(4)] by (simp add: d)
  have "distinct (map row_key (transcripts (world_db w)))" using assms(1) by (simp add: schema_ok_def)
  then have "distinct (map row_id (sel_rows (Key cs) ?sid (world_db w)))"
    by (auto simp: sel_rows_def distinct_map inj_on_def row_key_def in_stream_def)
  then have dist: "distinct (map row_id ?rows)"
    by (simp add: distinct_map inj_on_def order_asc_def)
  have "\<exists>f. f \<noteq> [] \<and> (i, f) \<in> avail_rows (Key cs) ?sid (world_db w)" if i: "?a \<le> i" "i \<le> ?b" for i
  proof -
    obtain row f where row: "row \<in> set ?rows" "row_id row = i" "row_file row = Some f" "f \<noteq> []"
      using scan_complete [OF dist _ g(3) n i] by auto
    from row have "(row_id row, null_string (row_file row)) \<in> avail_rows (Key cs) ?sid (world_db w)"
      unfolding avail_rows_def by (intro imageI) simp
    then show ?thesis using row by (auto simp: null_string_def)
  qed
  with g show ?thesis by blast
qed

definition clip_request_for_a :: request where
  "clip_request_for_a = (plain_request ''POST'' ''/ch/clip'')\<lparr>r_Body := ClipPayload
     \<lparr>clip_StreamID = ''a'', clip_Start = 0, clip_End = 0, clip_Type = ''m4a''\<rparr>\<rparr>"

theorem clip_covers_its_range_witness:
  "body (fst (run (postClipHandler sample_app clip_request_for_a sample_channel) (media_world ''tmp/ch/a/raw/f.raw''))) = JClip ''id0'' \<and>
   (\<exists>f. f \<noteq> [] \<and> (0, f) \<in> avail_rows ''ch'' ''a'' (world_db (media_world ''tmp/ch/a/raw/f.raw'')))"
proof -
  let ?w = "media_world ''tmp/ch/a/raw/f.raw''"
  have s: "schema_ok (world_db ?w)"
    by (simp add: media_world_def with_media_world_def world_db_def schema_ok_def createSchema_def)
  have b: "body (fst (run (postClipHandler sample_app clip_request_for_a sample_channel) ?w)) = JClip ''id0''" by code_simp
  have r: "r_Body clip_request_for_a = ClipPayload \<lparr>clip_StreamID = ''a'', clip_Start = 0, clip_End = 0, clip_Type = ''m4a''\<rparr>"
    by (simp add: clip_request_for_a_def)
  from clip_covers_its_range [OF s r prod.collapse [symmetric] b] b show ?thesis by auto
qed

end
