(* ===== verification/Admin_Props.thy ===== *)
theory Admin_Props
  imports Routes_Props
begin

text \<open>
  What the operations of the admin page do: edits of a stream, deletions, and the stop button.
\<close>

section \<open>Editing a stream\<close>

definition edited :: "edit_request \<Rightarrow> stream \<Rightarrow> stream" where
  "edited q s = s\<lparr>StreamTitle := (case ed_StreamTitle q of None \<Rightarrow> StreamTitle s | Some t \<Rightarrow> trim_space t),
     StartTime := (case ed_StartTime q of None \<Rightarrow> StartTime s | Some t \<Rightarrow> format_int t),
     MediaType := (case ed_MediaType q of None \<Rightarrow> MediaType s | Some m \<Rightarrow> m)\<rparr>"

definition good_edit :: "int \<Rightarrow> edit_request \<Rightarrow> bool" where
  "good_edit now q \<longleftrightarrow>
     (ed_StreamTitle q \<noteq> None \<or> ed_StartTime q \<noteq> None \<or> ed_MediaType q \<noteq> None) \<and>
     (\<forall>t. ed_StreamTitle q = Some t \<longrightarrow> length (trim_space t) \<le> 300) \<and>
     (\<forall>t. ed_StartTime q = Some t \<longrightarrow> 946684800 \<le> t \<and> t \<le> (now + 86400000000) div 1000000) \<and>
     (\<forall>m. ed_MediaType q = Some m \<longrightarrow> m \<in> {''audio'', ''video'', ''none''})"

lemma edit_update_good:
  "good_edit now q \<Longrightarrow> \<exists>u. edit_update now q = Inr u \<and> \<not> update_IsEmpty u \<and> apply_update u = edited q"
  by (auto simp: good_edit_def edit_update_def Let_def maxStreamTitleLength_def startTimeFloor_def
      startTimeFutureGrace_def hour_def editableMediaTypes_def update_IsEmpty_def apply_update_def set_opt_def
      edited_def fun_eq_iff split: option.splits)

lemma edit_update_bad: "\<not> good_edit now q \<Longrightarrow> \<exists>c. edit_update now q = Inl c"
  by (auto simp: good_edit_def edit_update_def Let_def maxStreamTitleLength_def startTimeFloor_def
      startTimeFutureGrace_def hour_def editableMediaTypes_def update_IsEmpty_def split: option.splits)

lemma get_stream_ok:
  "healthy w \<Longrightarrow> run (sql (GetStreamByID ch sid)) w = (Inr (first_row (filter (of_stream ch sid) (streams (world_db w)))), w)"
  by (simp add: GetStreamByID_def sql_query_ok)

lemma first_row_filter: "s \<in> set xs \<Longrightarrow> P s \<Longrightarrow> \<exists>x. first_row (filter P xs) = Some x \<and> P x \<and> x \<in> set xs"
proof -
  assume "s \<in> set xs" "P s"
  then obtain x rest where x: "filter P xs = x # rest" by (cases "filter P xs") (auto simp: filter_empty_conv)
  then have "x \<in> {y \<in> set xs. P y}" by (metis set_filter list.set_intros(1))
  with x show ?thesis by (simp add: first_row_def)
qed

definition edit_streams :: "string \<Rightarrow> string \<Rightarrow> (stream \<Rightarrow> stream) \<Rightarrow> db \<Rightarrow> db" where
  "edit_streams ch sid f d = d\<lparr>streams := update_where (of_stream ch sid) f (streams d)\<rparr>"

lemma update_stream_ok:
  assumes "healthy w" "s \<in> set (streams (world_db w))" "of_stream ch sid s" "\<not> update_IsEmpty u"
  shows "run (sql (UpdateStream ch sid u)) w = (Inr (), set_db (edit_streams ch sid (apply_update u) (world_db w)) w)"
proof -
  have "count_where (of_stream ch sid) (streams (world_db w)) \<noteq> 0" using assms(2,3) by auto
  with assms(1,4) show ?thesis
    by (simp add: run_sql UpdateStream_def healthy_def world_db_def set_db_def edit_streams_def)
qed

lemma keeps_announceStreamEdit:
  "keeps world_db (announceStreamEdit cs before after)" "keeps counters (announceStreamEdit cs before after)"
  unfolding announceStreamEdit_def syncActivationMetric_def broadcastPastStreams_def broadcast_def gauge_Delete_def gauge_Set_def
  by (intro keeps_intro keeps_sql; simp)+

lemma keeps_counters_notify: "keeps counters (notifyAdminAction app r cs a fs)"
  by (intro keeps_report) simp

lemma bump_counter:
  "find_channel app ch = Some cs \<Longrightarrow> run (bumpAdminChange app ch) w = ((), w1) \<Longrightarrow>
     counters w1 ch = wrap64 (counters w ch + 1) \<and> world_db w1 = world_db w"
  by (auto simp: bumpAdminChange_def)

text \<open>The tail of a successful admin change: announcement, counter, audit, 204.\<close>

lemma announced_change:
  assumes "run (do { _ \<leftarrow> m; bumpAdminChange app ch; audited app r cs a fs }) w = (resp, w1)" "keeps world_db m" "keeps counters m"
    and "find_channel app ch = Some cs'"
  shows "code resp = 204 \<and> world_db w1 = world_db w \<and> counters w1 ch = wrap64 (counters w ch + 1)"
proof -
  obtain x wa where a: "run m w = (x, wa)" by fastforce
  obtain wb where b: "run (bumpAdminChange app ch) wa = ((), wb)" by (metis surj_pair old.unit.exhaust)
  obtain wc where c: "run (notifyAdminAction app r cs a fs) wb = ((), wc)" by (metis surj_pair old.unit.exhaust)
  have r: "resp = reply 204 NoBody" "w1 = wc" using assms(1) a b c by (simp_all add: run_bind audited_def)
  have "counters wc = counters wb" using keeps_run [OF keeps_counters_notify c] .
  moreover have "world_db wc = world_db wb" by (rule keeps_run [OF keeps_report(3) c]) simp
  ultimately show ?thesis
    using r bump_counter [OF assms(4) b] keeps_run [OF assms(2) a] keeps_run [OF assms(3) a] by simp
qed

text \<open>
  C32. An edit is validated first and then does exactly what it says: a request with no field, a title
  over 300 bytes, a start time before 2000 or more than a day ahead, or an unknown media type answers
  400 and changes nothing; any other request for a stored stream answers 204, sets the fields it names
  on that stream (the title trimmed), leaves every other field, stream and transcript as it was, and
  moves the channel's change counter by one.
\<close>

theorem edit_changes_exactly:
  assumes "healthy w" "r_Body r = EditPayload q" "isValidID (r_PathValue r ''streamID'')"
    and "s \<in> set (streams (world_db w))" "of_stream (Key cs) (r_PathValue r ''streamID'') s"
    and "find_channel app (Key cs) = Some cs"
    and "run (postAdminStreamHandler app r cs) w = (resp, w1)"
  shows "if good_edit (clock w) q
    then code resp = 204 \<and> counters w1 (Key cs) = wrap64 (counters w (Key cs) + 1) \<and>
      world_db w1 = (world_db w)\<lparr>streams := map (\<lambda>x. if of_stream (Key cs) (r_PathValue r ''streamID'') x then edited q x else x)
        (streams (world_db w))\<rparr>
    else code resp = 400 \<and> w1 = w"
proof -
  let ?sid = "r_PathValue r ''streamID''"
  show ?thesis
  proof (cases "good_edit (clock w) q")
    case False
    from edit_update_bad [OF this] obtain c where "edit_update (clock w) q = Inl c" by blast
    with False assms(2,3,7) show ?thesis
      by (auto simp: postAdminStreamHandler_def Let_def run_bind time_Now_def bad_request_def)
  next
    case True
    from edit_update_good [OF this] obtain u where u: "edit_update (clock w) q = Inr u" "\<not> update_IsEmpty u"
      "apply_update u = edited q" by blast
    let ?d = "edit_streams (Key cs) ?sid (edited q) (world_db w)"
    obtain x where x: "first_row (filter (of_stream (Key cs) ?sid) (streams (world_db w))) = Some x"
      using first_row_filter [OF assms(4), of "of_stream (Key cs) ?sid"] assms(5) by blast
    have up: "run (sql (UpdateStream (Key cs) ?sid u)) w = (Inr (), set_db ?d w)"
      using update_stream_ok [OF assms(1,4,5) u(2)] u(3) by simp
    obtain y where y: "run (sql (GetStreamByID (Key cs) ?sid)) (set_db ?d w) = (Inr y, set_db ?d w)"
      using get_stream_ok [of "set_db ?d w" "Key cs" ?sid] assms(1) by (simp add: get_stream_ok)
    let ?after = "case (Inr y :: stream option res) of Inr (Some s) \<Rightarrow> s | _ \<Rightarrow> x"
    let ?fs = "[field ''Stream ID'' ?sid True, field ''Stream Title'' (StreamTitle ?after) True]
       @ map change_field (describeStreamChanges app x ?after)"
    have "run (do { _ \<leftarrow> announceStreamEdit cs x ?after; bumpAdminChange app (Key cs);
        audited app r cs ''Edited stream details'' ?fs }) (set_db ?d w) = (resp, w1)"
      using assms(2,3,7) u(1) get_stream_ok [OF assms(1)] x up y
      by (simp add: postAdminStreamHandler_def Let_def run_bind time_Now_def)
    from announced_change [OF this keeps_announceStreamEdit assms(6)]
    show ?thesis using True by (simp add: edit_streams_def update_where_def)
  qed
qed

definition edit_request_at :: "string \<Rightarrow> edit_request \<Rightarrow> request" where
  "edit_request_at sid q = \<lparr>r_Method = ''POST'', r_Path = ''/ch/admin/stream/'' @ sid,
     r_PathValue = (\<lambda>v. if v = ''streamID'' then sid else []), r_Query = (\<lambda>_. []), r_Header = (\<lambda>_. []),
     r_Body = EditPayload q, r_UploadMs = 0\<rparr>"

theorem edit_changes_exactly_witness:
  "map StreamTitle (streams (world_db (snd (run (postAdminStreamHandler sample_app
     (edit_request_at ''b'' \<lparr>ed_StreamTitle = Some '' new '', ed_StartTime = None, ed_MediaType = None\<rparr>) sample_channel) three_streams))))
   = [''t'', ''new'', ''t''] \<and>
   code (fst (run (postAdminStreamHandler sample_app
     (edit_request_at ''b'' \<lparr>ed_StreamTitle = None, ed_StartTime = Some 5, ed_MediaType = None\<rparr>) sample_channel) three_streams)) = 400"
proof -
  let ?q = "\<lparr>ed_StreamTitle = Some '' new '', ed_StartTime = None, ed_MediaType = None\<rparr>"
  let ?q' = "\<lparr>ed_StreamTitle = None, ed_StartTime = Some 5, ed_MediaType = None\<rparr>"
  have ss: "streams (world_db three_streams) =
      [sample_stream ''a'' True 3, sample_stream ''b'' False 1, sample_stream ''c'' False 2]"
    by (simp add: three_streams_def world_db_def createSchema_def)
  have v: "isValidID ''b''" and t: "trim_space '' new '' = ''new''" by code_simp+
  have e: "r_Body (edit_request_at ''b'' q) = EditPayload q" "r_PathValue (edit_request_at ''b'' q) ''streamID'' = ''b''" for q
    by (simp_all add: edit_request_at_def)
  have g: "good_edit n ?q" "\<not> good_edit n ?q'" for n by (auto simp: good_edit_def t)
  have m: "sample_stream ''b'' False 1 \<in> set (streams (world_db three_streams))"
    "of_stream (Key sample_channel) ''b'' (sample_stream ''b'' False 1)" by (simp_all add: ss of_stream_def)
  have f: "find_channel sample_app (Key sample_channel) = Some sample_channel" by simp
  note E = edit_changes_exactly [where app = sample_app and cs = sample_channel and w = three_streams and s = "sample_stream ''b'' False 1",
      OF three_streams_facts(1) e(1), unfolded e(2), OF v m f prod.collapse [symmetric]]
  show ?thesis
    using E [of ?q] E [of ?q'] g by (simp add: ss of_stream_def edited_def t) (simp add: sample_stream_def)
qed

section \<open>Deleting a stream\<close>

text \<open>
  C33. Deleting a stream from the admin page never touches a live one: while the stored stream is live the
  answer is 409 and nothing changes. Otherwise, on a healthy database, the answer is 204, the stream's
  row and lines are gone and no other stream is touched, every viewer is told, and the media folder is
  queued for deletion if and only if the request asks for it.
\<close>

theorem admin_delete_spares_live:
  assumes "healthy w" "isValidID (r_PathValue r ''streamID'')"
    and "first_row (filter (of_stream (Key cs) (r_PathValue r ''streamID'')) (streams (world_db w))) = Some s"
    and "find_channel app (Key cs) = Some cs"
    and "run (deleteAdminStreamHandler app r cs) w = (resp, w1)"
  shows "if IsLive s then code resp = 409 \<and> w1 = w
    else code resp = 204 \<and>
      world_db w1 = cascade (Key cs) (r_PathValue r ''streamID'') (world_db w) \<and>
      async_deletes w1 = async_deletes w @
        (if r_Query r ''media'' = ''true'' then [StreamPrefix (Key cs) (r_PathValue r ''streamID'')] else []) \<and>
      hubs w1 (Key cs) = Broadcast (EventDeletedStream \<lparr>ds_StreamID = StreamID s, ds_StreamTitle = StreamTitle s,
         ds_WasLive = False\<rparr>) (hubs w (Key cs)) \<and>
      counters w1 (Key cs) = wrap64 (counters w (Key cs) + 1)"
proof (cases "IsLive s")
  case True
  with assms show ?thesis by (auto simp: deleteAdminStreamHandler_def Let_def run_bind get_stream_ok)
next
  case False
  let ?sid = "r_PathValue r ''streamID''" and ?m = "r_Query r ''media'' = ''true''"
  have "s \<in> set (filter (of_stream (Key cs) ?sid) (streams (world_db w)))"
    using assms(3) by (cases "filter (of_stream (Key cs) ?sid) (streams (world_db w))") (auto simp: first_row_def)
  then have s: "ChannelID s = Key cs" "StreamID s = ?sid" by (auto simp: of_stream_def)
  obtain x w2 where rm: "run (removeStream app cs s ?m) w = (x, w2)" by fastforce
  have x: "x = Inr ()" and c2: "counters w2 = counters w"
    using rm assms(1) by (auto simp: removeStream_def run_bind cascade_ok gauge_Delete_def broadcast_def
        deleteStreamStorageAsync_def split: if_splits)
  let ?fs = "[field ''Stream ID'' ?sid True, field ''Media Deleted'' (yesNo ?m) True, field ''Stream Title'' (StreamTitle s) False]"
  have run: "run (do { _ \<leftarrow> ret (); bumpAdminChange app (Key cs); audited app r cs ''Deleted stream'' ?fs }) w2 = (resp, w1)"
    using assms(1-3,5) False rm x by (simp add: deleteAdminStreamHandler_def Let_def run_bind get_stream_ok)
  have f: "keeps async_deletes (bumpAdminChange app (Key cs))" "keeps async_deletes (audited app r cs a fs)"
    "keeps hubs (bumpAdminChange app (Key cs))" "keeps hubs (audited app r cs a fs)" for a fs
    unfolding bumpAdminChange_def audited_def by (intro keeps_intro; simp)+
  have k: "keeps async_deletes (do { _ \<leftarrow> ret (); bumpAdminChange app (Key cs); audited app r cs ''Deleted stream'' ?fs })"
    "keeps hubs (do { _ \<leftarrow> ret (); bumpAdminChange app (Key cs); audited app r cs ''Deleted stream'' ?fs })"
    by (intro keeps_bind keeps_ret f)+
  have "async_deletes w1 = async_deletes w2" "hubs w1 = hubs w2" using keeps_run [OF k(1) run] keeps_run [OF k(2) run] by auto
  moreover have "code resp = 204 \<and> world_db w1 = world_db w2 \<and> counters w1 (Key cs) = wrap64 (counters w2 (Key cs) + 1)"
    using announced_change [OF run keeps_ret keeps_ret assms(4)] .
  ultimately show ?thesis
    using removeStream_effect [OF rm s(1)] x False c2 s(2) by simp
qed

definition delete_request_at :: "string \<Rightarrow> request" where
  "delete_request_at sid = \<lparr>r_Method = ''DELETE'', r_Path = ''/ch/admin/stream/'' @ sid,
     r_PathValue = (\<lambda>v. if v = ''streamID'' then sid else []), r_Query = (\<lambda>v. if v = ''media'' then ''true'' else []),
     r_Header = (\<lambda>_. []), r_Body = NoPayload, r_UploadMs = 0\<rparr>"

theorem admin_delete_spares_live_witness:
  "code (fst (run (deleteAdminStreamHandler sample_app (delete_request_at ''a'') sample_channel) three_streams)) = 409 \<and>
   code (fst (run (deleteAdminStreamHandler sample_app (delete_request_at ''b'') sample_channel) three_streams)) = 204 \<and>
   async_deletes (snd (run (deleteAdminStreamHandler sample_app (delete_request_at ''b'') sample_channel) three_streams)) = [''ch/b/'']"
proof -
  have ss: "streams (world_db three_streams) =
      [sample_stream ''a'' True 3, sample_stream ''b'' False 1, sample_stream ''c'' False 2]" "async_deletes three_streams = []"
    by (simp_all add: three_streams_def world_db_def createSchema_def)
  have v: "isValidID ''a''" "isValidID ''b''" by code_simp+
  have e: "r_PathValue (delete_request_at sid) ''streamID'' = sid" "r_Query (delete_request_at sid) ''media'' = ''true''" for sid
    by (simp_all add: delete_request_at_def)
  have m: "first_row (filter (of_stream (Key sample_channel) ''a'') (streams (world_db three_streams))) = Some (sample_stream ''a'' True 3)"
    "first_row (filter (of_stream (Key sample_channel) ''b'') (streams (world_db three_streams))) = Some (sample_stream ''b'' False 1)"
    by (simp_all add: ss of_stream_def first_row_def)
  have f: "find_channel sample_app (Key sample_channel) = Some sample_channel" by simp
  note E = admin_delete_spares_live [where app = sample_app and cs = sample_channel and w = three_streams,
      OF three_streams_facts(1)]
  show ?thesis
    using E [of "delete_request_at ''a''", unfolded e, OF v(1) m(1) f prod.collapse [symmetric]]
      E [of "delete_request_at ''b''", unfolded e, OF v(2) m(2) f prod.collapse [symmetric]]
    by (simp add: ss StreamPrefix_def)
qed

section \<open>The stop button\<close>

text \<open>
  A stop that fails halfway is silent: when the restart request cannot be stored after the queue was
  cleared, the answer is 500, but the queued URLs are gone and neither the change counter nor the audit
  log says so.
\<close>

theorem failed_stop_drops_queue:
  "let w = (sample_world [])\<lparr>conn := \<lparr>conn_db = createSchema\<lparr>incoming :=
              [\<lparr>in_channel = ''ch'', in_url = ''https://x'', in_received = 1\<rparr>]\<rparr>, faults = [None, None, Some ErrDriver]\<rparr>\<rparr>;
       (resp, w1) = run (postAdminStopHandler sample_app (plain_request ''POST'' ''/ch/admin/stop'') sample_channel) w
   in code resp = 500 \<and> incoming (world_db w1) = [] \<and> counters w1 = counters w \<and> discord w1 = discord w"
  by (simp add: Let_def postAdminStopHandler_def run_bind run_sql ClearIncomingStreams_def delete_incoming_def sql_defs
      sql_tick_def delete_where_def UpsertRestartRequest_def unix_Now_def server_error_def world_db_def)

end
