(* ===== verification/Vod_Props.thy ===== *)
theory Vod_Props
  imports Routes_Props
begin

text \<open>
  Full VOD builds end to end: a build that was started always ends its job, and the request that asks
  for one starts at most one.
\<close>

section \<open>Every build ends its job\<close>

definition has_job :: "nat \<Rightarrow> 'b world \<Rightarrow> bool" where
  "has_job j w \<longleftrightarrow> job_heap (vods w) j \<noteq> None"

definition job_ended :: "nat \<Rightarrow> 'b world \<Rightarrow> bool" where
  "job_ended j w \<longleftrightarrow> (\<exists>s. job_heap (vods w) j = Some s \<and> vs_State s \<in> {VodDone, VodFailed} \<and> vs_Phase s = NoPhase)"

definition ends_job :: "nat \<Rightarrow> ('b, 'a) act \<Rightarrow> bool" where
  "ends_job j m \<longleftrightarrow> (\<forall>w. has_job j w \<longrightarrow> job_ended j (snd (run m w)))"

lemma keeps_of_vods: "keeps vods m \<Longrightarrow> keeps (has_job j) m" "keeps vods m \<Longrightarrow> keeps (job_ended j) m"
  by (simp_all add: keeps_def has_job_def job_ended_def)

lemma ends_after: "keeps (has_job j) m \<Longrightarrow> (\<And>x. ends_job j (k x)) \<Longrightarrow> ends_job j (m \<bind> k)"
  by (auto simp: ends_job_def keeps_def run_bind split: prod.splits) (metis snd_conv)

lemma ends_before: "ends_job j m \<Longrightarrow> (\<And>x. keeps (job_ended j) (k x)) \<Longrightarrow> ends_job j (m \<bind> k)"
  by (auto simp: ends_job_def keeps_def run_bind split: prod.splits)

lemma ends_sum: "(\<And>e. ends_job j (f e)) \<Longrightarrow> (\<And>x. ends_job j (g x)) \<Longrightarrow> ends_job j (case s of Inl e \<Rightarrow> f e | Inr x \<Rightarrow> g x)"
  by (cases s) simp_all

lemma ends_defer: "ends_job j m \<Longrightarrow> ends_job j (defer_Remove p m)"
  unfolding defer_Remove_def
  by (rule ends_before, assumption) (intro keeps_of_vods(2) keeps_intro; simp)

lemma ends_finish: "ends_job j (finish_job j err)"
  by (auto simp: ends_job_def finish_job_def run_bind unix_Now_def has_job_def job_ended_def job_finish_def Let_def
      split: option.splits)

lemma keeps_set_phase: "keeps (has_job j) (set_phase i p)"
  unfolding set_phase_def by (rule keeps_modify) (auto simp: has_job_def setPhase_def split: option.splits)

lemma ends_failed: "task_job k = j \<Longrightarrow> ends_job j (build_failed app k err)"
  unfolding build_failed_def by (rule ends_before, simp add: ends_finish) (intro keeps_of_vods(2) keeps_intro; simp)

lemma ends_upload: "task_job k = j \<Longrightarrow> ends_job j (upload_vod app took k out)"
  unfolding upload_vod_def Let_def
  by (intro ends_after ends_sum ends_failed ends_before ends_finish keeps_set_phase
      keeps_of_vods(1) keeps_of_vods(2) keeps_intro | simp add: ends_finish)+

lemma ends_build: "ends_job (task_job k) (buildVod app took k)"
  unfolding buildVod_def Let_def
  by (intro ends_after ends_sum ends_failed ends_defer ends_upload refl keeps_set_phase)
    (rule keeps_of_vods(1), intro keeps_intro; simp)+

text \<open>A build writes to its own job only.\<close>

definition other_jobs :: "nat \<Rightarrow> 'b world \<Rightarrow> (string \<Rightarrow> nat option) \<times> (nat \<Rightarrow> vod_status option)" where
  "other_jobs j w = (jobs (vods w), (job_heap (vods w))(j := None))"

lemma keeps_others:
  "keeps (other_jobs (task_job k)) (finish_job (task_job k) err)" "keeps (other_jobs (task_job k)) (set_phase (task_job k) p)"
  by (auto simp: keeps_def other_jobs_def finish_job_def set_phase_def run_bind unix_Now_def job_finish_def setPhase_def
      Let_def fun_eq_iff split: option.splits)

lemma build_keeps_others: "keeps (other_jobs (task_job k)) (buildVod app took k)"
  unfolding buildVod_def Let_def build_failed_def upload_vod_def
  by (intro keeps_intro keeps_others; simp add: other_jobs_def)+

text \<open>
  C16. A started build never hangs in the registry: whatever fails on the way (merging, rendering,
  uploading, removing temporary files), the goroutine ends with its job done or failed and no phase, so
  the next request may build again; it leaves every other job alone and the database untouched.
\<close>

theorem build_always_finishes:
  assumes "job_status (task_job k) (vods w) \<noteq> None" "run (run_build app took k) w = ((), w1)"
  shows "(\<exists>s. job_status (task_job k) (vods w1) = Some s \<and> vs_State s \<in> {VodDone, VodFailed} \<and> vs_Phase s = NoPhase) \<and>
    (\<forall>i. i \<noteq> task_job k \<longrightarrow> job_status i (vods w1) = job_status i (vods w)) \<and> jobs (vods w1) = jobs (vods w)"
proof -
  let ?w = "w\<lparr>pending_builds := remove1 k (pending_builds w)\<rparr>"
  have b: "run (buildVod app took k) ?w = ((), w1)" using assms(2) by (simp add: run_build_def run_bind)
  have "job_ended (task_job k) w1"
    using ends_build [of k app took] assms(1) b by (auto simp: ends_job_def has_job_def job_status_def dest: spec [of _ ?w])
  moreover have o: "jobs (vods w1) = jobs (vods w)" "(job_heap (vods w1))(task_job k := None) = (job_heap (vods w))(task_job k := None)"
    using keeps_run [OF build_keeps_others b] by (simp_all add: other_jobs_def)
  moreover have "job_status i (vods w1) = job_status i (vods w)" if "i \<noteq> task_job k" for i
    using that fun_cong [OF o(2), of i] by (simp add: job_status_def)
  ultimately show ?thesis by (simp add: job_ended_def job_status_def)
qed

definition sample_task :: vod_task where
  "sample_task = \<lparr>task_job = 0, task_channel = sample_channel,
     task_target = \<lparr>tgt_stream = sample_stream ''a'' False 1, tgt_ext = ''.m4a'', tgt_totalLines = 1, tgt_mediaLines = 1\<rparr>,
     task_files = [''f'']\<rparr>"

definition building :: "unit world" where
  "building = (sample_world [])\<lparr>vods := snd (vod_claim ''ch'' ''a'' 5 newVodRegistry), pending_builds := [sample_task]\<rparr>"

theorem build_always_finishes_witness:
  "\<exists>s. job_status 0 (vods (snd (run (run_build sample_app 0 sample_task) building))) = Some s \<and>
     vs_State s \<in> {VodDone, VodFailed}"
proof -
  obtain w1 where r: "run (run_build sample_app 0 sample_task) building = ((), w1)"
    by (metis surj_pair old.unit.exhaust)
  have j: "task_job sample_task = 0" by (simp add: sample_task_def)
  have "job_status (task_job sample_task) (vods building) \<noteq> None"
    by (simp add: j building_def vod_claim_def newVodRegistry_def job_status_def)
  from build_always_finishes [OF this r] show ?thesis by (auto simp: r j)
qed

section \<open>One request, at most one build\<close>

lemma resolve_target:
  assumes "run (resolveVodTarget r cs) w = (x, w1)"
  shows "vods w1 = vods w \<and> pending_builds w1 = pending_builds w \<and>
    (\<forall>t. x = Inr t \<longrightarrow> StreamID (tgt_stream t) = r_PathValue r ''streamID'' \<and> \<not> IsLive (tgt_stream t))"
proof -
  have "keeps vods (resolveVodTarget r cs)" "keeps pending_builds (resolveVodTarget r cs)"
    unfolding resolveVodTarget_def by (intro keeps_intro keeps_sql; simp)+
  then have f: "vods w1 = vods w" "pending_builds w1 = pending_builds w" using keeps_run assms by metis+
  have "StreamID (tgt_stream t) = r_PathValue r ''streamID'' \<and> \<not> IsLive (tgt_stream t)" if "x = Inr t" for t
  proof -
    let ?sid = "r_PathValue r ''streamID''"
    obtain y w2 where y: "run (sql (GetStreamByID (Key cs) ?sid)) w = (y, w2)" by fastforce
    with assms that obtain s where s: "y = Inr (Some s)" "\<not> IsLive s" "tgt_stream t = s"
      by (auto simp: resolveVodTarget_def Let_def run_bind split: if_splits sum.splits option.splits prod.splits)
    have "first_row (filter (of_stream (Key cs) ?sid) (streams (world_db w))) = Some s"
      using sql_query_cases(2) [OF y [unfolded GetStreamByID_def]] s(1) by simp
    then have "s \<in> set (filter (of_stream (Key cs) ?sid) (streams (world_db w)))"
      by (cases "filter (of_stream (Key cs) ?sid) (streams (world_db w))") (auto simp: first_row_def)
    with s show ?thesis by (simp add: of_stream_def)
  qed
  with f show ?thesis by simp
qed

lemma keeps_vodResponse:
  "keeps vods (vodResponse app cs t)" "keeps pending_builds (vodResponse app cs t)"
  unfolding vodResponse_def Let_def findVodArtifact_def by (intro keeps_intro; simp)+

lemma vodResponse_state:
  "run (vodResponse app cs t) w = (Inr resp, w1) \<Longrightarrow>
     vr_State resp = VodRunning \<longleftrightarrow> vs_State (tracked_status cs (StreamID (tgt_stream t)) w) = VodRunning"
  by (auto simp: vodResponse_def Let_def run_bind vod_answer_def split: if_splits sum.splits prod.splits)

definition same_builds :: "'b world \<Rightarrow> 'b world \<Rightarrow> bool" where
  "same_builds w w1 \<longleftrightarrow> vods w1 = vods w \<and> pending_builds w1 = pending_builds w"

lemma start_build_effect:
  assumes "run (start_build app r cs t fs) w = ((), w1)"
  shows "same_builds w w1 \<or>
    (\<exists>k. pending_builds w1 = pending_builds w @ [k] \<and> task_target k = t \<and> task_files k = fs \<and> task_channel k = cs \<and>
       vod_get (Key cs) (StreamID (tgt_stream t)) (vods w1) = Some (task_job k) \<and> is_running (task_job k) (vods w1) \<and>
       task_job k = next_job (vods w))"
proof -
  obtain now where n: "run unix_Now w = (now, w)" by (simp add: unix_Now_def)
  obtain j st v where c: "vod_claim (Key cs) (StreamID (tgt_stream t)) now (vods w) = ((j, st), v)" by (metis prod.collapse)
  from c show ?thesis
  proof (cases rule: claim_cases)
    case joined
    with assms n c show ?thesis by (simp add: start_build_def run_bind same_builds_def)
  next
    case fresh
    let ?k = "\<lparr>task_job = j, task_channel = cs, task_target = t, task_files = fs\<rparr>"
    let ?w2 = "w\<lparr>vods := v, pending_builds := pending_builds w @ [?k]\<rparr>"
    have k: "keeps vods (notifyAdminAction app r cs a fl)" "keeps pending_builds (notifyAdminAction app r cs a fl)" for a fl
      by (intro keeps_report(3); simp)+
    obtain a fl where "run (notifyAdminAction app r cs a fl) ?w2 = ((), w1)"
      using assms n c fresh(1) by (simp add: start_build_def run_bind)
    then have "vods w1 = v" "pending_builds w1 = pending_builds w @ [?k]"
      using keeps_run [OF k(1)] keeps_run [OF k(2)] by fastforce+
    moreover have "is_running j v" by (simp add: is_running_heap fresh(6) new_job_def)
    ultimately show ?thesis
      by (intro disjI2 exI [of _ ?k]) (simp add: fresh(2,4) vod_get_def)
  qed
qed

text \<open>
  C27. Asking for a build starts at most one: a POST either starts nothing, or starts exactly one build of
  the stream named in the path, which has ended, with at least one media file, under a fresh job that is
  now the running job of that stream; while the stream's job runs, nothing is started.
\<close>

theorem vod_post_starts_at_most_one:
  assumes "run (postAdminVodHandler app r cs) w = (resp, w1)"
  shows "(vods w1 = vods w \<and> pending_builds w1 = pending_builds w) \<or>
    (vs_State (tracked_status cs (r_PathValue r ''streamID'') w) \<noteq> VodRunning \<and>
     (\<exists>k. pending_builds w1 = pending_builds w @ [k] \<and> task_job k = next_job (vods w) \<and> task_channel k = cs \<and>
       StreamID (tgt_stream (task_target k)) = r_PathValue r ''streamID'' \<and> \<not> IsLive (tgt_stream (task_target k)) \<and>
       task_files k \<noteq> [] \<and> vod_get (Key cs) (r_PathValue r ''streamID'') (vods w1) = Some (task_job k) \<and>
       is_running (task_job k) (vods w1)))"
proof -
  obtain x wa where a: "run (resolveVodTarget r cs) w = (x, wa)" by fastforce
  note R = resolve_target [OF a]
  show ?thesis
  proof (cases x)
    case (Inl e)
    with a assms R show ?thesis by (auto simp: postAdminVodHandler_def run_bind)
  next
    case (Inr t)
    obtain y wb where b: "run (vodResponse app cs t) wa = (y, wb)" by fastforce
    have B: "vods wb = vods w" "pending_builds wb = pending_builds w"
      using keeps_run [OF keeps_vodResponse(1) b] keeps_run [OF keeps_vodResponse(2) b] R by simp_all
    obtain f wc where c: "run (sql (GetAllMediaFileIDs (Key cs) (StreamID (tgt_stream t)))) wb = (f, wc)" by fastforce
    have C: "vods wc = vods w" "pending_builds wc = pending_builds w"
      using c B by (auto simp: run_sql split: prod.splits)
    show ?thesis
    proof (cases "\<exists>rs fs. tgt_mediaLines t \<noteq> 0 \<and> y = Inr rs \<and> vr_State rs \<noteq> VodDone \<and> vr_State rs \<noteq> VodRunning \<and> f = Inr fs \<and> fs \<noteq> []")
      case False
      then have "w1 = wa \<or> w1 = wb \<or> w1 = wc"
        using assms a b c Inr by (auto simp: postAdminVodHandler_def run_bind server_error_def split: if_splits sum.splits)
      with R B C show ?thesis by auto
    next
      case True
      then obtain rs fs where T: "tgt_mediaLines t \<noteq> 0" "y = Inr rs" "vr_State rs \<noteq> VodDone" "vr_State rs \<noteq> VodRunning"
        "f = Inr fs" "fs \<noteq> []" by blast
      obtain wd where d: "run (start_build app r cs t fs) wc = ((), wd)" by (metis surj_pair old.unit.exhaust)
      have w1: "vods w1 = vods wd \<and> pending_builds w1 = pending_builds wd"
      proof -
        obtain z we where e: "run (vodResponse app cs t) wd = (z, we)" by fastforce
        then have "w1 = we" using assms a b c d Inr T by (auto simp: postAdminVodHandler_def run_bind)
        with keeps_run [OF keeps_vodResponse(1) e] keeps_run [OF keeps_vodResponse(2) e] show ?thesis by simp
      qed
      have "tracked_status cs (StreamID (tgt_stream t)) wa = tracked_status cs (StreamID (tgt_stream t)) w"
      proof -
        have "vods wa = vods w" using R by simp
        then show ?thesis by (simp only: tracked_status_def)
      qed
      then have "vs_State (tracked_status cs (r_PathValue r ''streamID'') w) \<noteq> VodRunning"
        using vodResponse_state [OF b [unfolded T(2)]] T(4) R Inr by simp
      then show ?thesis
        using start_build_effect [OF d] w1 C R Inr T(6) by (auto simp: same_builds_def)
    qed
  qed
qed

theorem vod_post_starts_at_most_one_witness:
  "length (pending_builds (snd (run (postAdminVodHandler sample_app
     ((plain_request ''POST'' ''/ch/admin/stream/b/vod'')\<lparr>r_PathValue := (\<lambda>_. ''b'')\<rparr>) sample_channel) three_streams))) \<le> 1"
proof -
  have "pending_builds three_streams = []" by (simp add: three_streams_def sample_world_def new_world_def)
  with vod_post_starts_at_most_one [where app = sample_app and cs = sample_channel and w = three_streams
      and r = "(plain_request ''POST'' ''/ch/admin/stream/b/vod'')\<lparr>r_PathValue := (\<lambda>_. ''b'')\<rparr>",
      OF prod.collapse [symmetric]]
  show ?thesis by auto
qed

end
