(* ===== verification/Maintenance_Props.thy ===== *)
theory Maintenance_Props
  imports Routes_Props
begin

text \<open>
  What the periodic sweeps delete: pruning against remote storage removes exactly the expired streams.
\<close>

section \<open>Pruning\<close>

text \<open>\<open>probe\<close> is what the storage answers for a prefix.\<close>

definition expired :: "int \<Rightarrow> (string \<Rightarrow> bool res) \<Rightarrow> string \<Rightarrow> stream \<Rightarrow> bool" where
  "expired now probe ch s \<longleftrightarrow> \<not> too_young now s \<and> probe (RawPrefix ch (StreamID s)) = Inr False"

definition pruned_from :: "string set \<Rightarrow> int \<Rightarrow> (string \<Rightarrow> bool res) \<Rightarrow> stream list \<Rightarrow> (string \<times> string) set" where
  "pruned_from chs now probe ss = stream_key ` {s \<in> set ss. ChannelID s \<in> chs \<and> expired now probe (ChannelID s) s}"

definition without_streams :: "(string \<times> string) set \<Rightarrow> db \<Rightarrow> db" where
  "without_streams K d = d\<lparr>streams := filter (\<lambda>s. stream_key s \<notin> K) (streams d),
     transcripts := filter (\<lambda>r. (row_channel r, row_stream r) \<notin> K) (transcripts d)\<rparr>"

lemma without_none [simp]: "without_streams {} d = d"
  by (simp add: without_streams_def)

lemma streams_without [simp]: "streams (without_streams K d) = filter (\<lambda>s. stream_key s \<notin> K) (streams d)"
  by (simp add: without_streams_def)

lemma without_union: "without_streams L (without_streams K d) = without_streams (K \<union> L) d"
  by (simp add: without_streams_def conj_commute)

lemma fold_cascade_without: "fold (cascade ch) ids d = without_streams ((\<lambda>i. (ch, i)) ` set ids) d"
proof (induction ids arbitrary: d)
  case (Cons i ids)
  have "cascade ch i d = without_streams {(ch, i)} d"
    by (simp add: without_streams_def cascade_def del_lines_def del_stream_def delete_where_def of_stream_def
        in_stream_def stream_key_def)
  with Cons show ?case by (simp add: without_union)
qed simp

lemma prune_streams_ok:
  assumes "healthy w" "\<And>p s. st_StreamExists (Storage app) p s = (probe p, s)"
  shows "run (prune_streams app cs u ss) w =
    (let ids = map StreamID (filter (expired (clock w) probe (Key cs)) ss)
     in (u \<or> ids \<noteq> [], set_db (fold (cascade (Key cs)) ids (world_db w)) w))"
  using assms(1)
proof (induction ss arbitrary: u w)
  case Nil
  then show ?case by (simp add: Let_def)
next
  case (Cons s ss)
  show ?case
  proof (cases "expired (clock w) probe (Key cs) s")
    case True
    have h: "healthy (set_db (cascade (Key cs) (StreamID s) (world_db w)) w)" using Cons.prems by simp
    show ?thesis
      using True Cons.prems Cons.IH [OF h]
      by (simp add: expired_def time_Now_def run_bind run_store assms(2) cascade_ok Let_def)
  next
    case False
    then show ?thesis
      using Cons.prems Cons.IH [OF Cons.prems]
      by (auto simp: expired_def time_Now_def run_bind run_store assms(2) Let_def split: sum.splits bool.splits)
  qed
qed

lemma broadcastPastStreams_ok: "healthy w \<Longrightarrow> \<exists>h. run (broadcastPastStreams cs) w = ((), w\<lparr>hubs := h\<rparr>)"
  by (auto simp: broadcastPastStreams_def run_bind query_ok GetPastStreams_def sql_query_ok broadcast_def)

lemma prune_channel_ok:
  assumes "healthy w" "\<And>p s. st_StreamExists (Storage app) p s = (probe p, s)"
  shows "\<exists>h. run (prune_channel app cs) w =
    ((), (set_db (without_streams (pruned_from {Key cs} (clock w) probe (streams (world_db w))) (world_db w)) w)\<lparr>hubs := h\<rparr>)"
proof -
  let ?ss = "sel_streams (Key cs) (world_db w)"
  let ?ids = "map StreamID (filter (expired (clock w) probe (Key cs)) ?ss)"
  let ?w = "set_db (fold (cascade (Key cs)) ?ids (world_db w)) w"
  have k: "(\<lambda>i. (Key cs, i)) ` set ?ids = pruned_from {Key cs} (clock w) probe (streams (world_db w))"
    by (auto simp: pruned_from_def stream_key_def sel_streams_mem image_iff)
  obtain h where h: "run (broadcastPastStreams cs) ?w = ((), ?w\<lparr>hubs := h\<rparr>)"
    using broadcastPastStreams_ok [of ?w] assms(1) by auto
  have "\<exists>h. run (prune_channel app cs) w = ((), ?w\<lparr>hubs := h\<rparr>)"
  proof (cases "?ids = []")
    case True
    then show ?thesis
      using assms by (intro exI [of _ "hubs w"])
        (auto simp: prune_channel_def run_bind query_ok prune_streams_ok [where probe = probe] Let_def)
  next
    case False
    then show ?thesis
      using assms h by (intro exI [of _ h])
        (auto simp: prune_channel_def run_bind query_ok prune_streams_ok [where probe = probe] Let_def)
  qed
  moreover have "fold (cascade (Key cs)) ?ids (world_db w) =
      without_streams (pruned_from {Key cs} (clock w) probe (streams (world_db w))) (world_db w)"
    unfolding fold_cascade_without k ..
  ultimately show ?thesis by (simp only:)
qed

lemma pruned_insert:
  assumes "distinct (map stream_key ss)" "K = pruned_from {ch} now probe ss"
  shows "pruned_from chs now probe (filter (\<lambda>s. stream_key s \<notin> K) ss) \<union> K = pruned_from (insert ch chs) now probe ss"
proof -
  have "stream_key s \<in> K \<longleftrightarrow> ChannelID s = ch \<and> expired now probe ch s" if "s \<in> set ss" for s
    using assms that by (auto simp: pruned_from_def distinct_map inj_on_def)
  then show ?thesis by (auto simp: pruned_from_def assms(2))
qed

lemma prune_channels_ok:
  assumes "\<And>p s. st_StreamExists (Storage app) p s = (probe p, s)"
  shows "healthy w \<Longrightarrow> distinct (map stream_key (streams (world_db w))) \<Longrightarrow>
    \<exists>h. run (prune_channels app css) w = ((), (set_db (without_streams
      (pruned_from (Key ` set css) (clock w) probe (streams (world_db w))) (world_db w)) w)\<lparr>hubs := h\<rparr>)"
proof (induction css arbitrary: w)
  case Nil
  then show ?case by (intro exI [of _ "hubs w"]) (simp add: pruned_from_def)
next
  case (Cons cs css)
  let ?K = "pruned_from {Key cs} (clock w) probe (streams (world_db w))"
  obtain h where h: "run (prune_channel app cs) w = ((), (set_db (without_streams ?K (world_db w)) w)\<lparr>hubs := h\<rparr>)"
    using prune_channel_ok [OF Cons.prems(1) assms] by blast
  let ?w = "(set_db (without_streams ?K (world_db w)) w)\<lparr>hubs := h\<rparr>"
  have s: "streams (world_db ?w) = filter (\<lambda>s. stream_key s \<notin> ?K) (streams (world_db w))"
    by simp
  have "healthy ?w" using Cons.prems(1) by simp
  moreover have "distinct (map stream_key (streams (world_db ?w)))"
    unfolding s using Cons.prems(2) by (rule distinct_map_filter)
  ultimately obtain h2 where "run (prune_channels app css) ?w = ((), (set_db (without_streams
      (pruned_from (Key ` set css) (clock ?w) probe (streams (world_db ?w))) (world_db ?w)) ?w)\<lparr>hubs := h2\<rparr>)"
    using Cons.IH by blast
  then show ?case
    using pruned_insert [OF Cons.prems(2) refl, of "Key ` set css" "clock w" probe "Key cs"]
    by (intro exI [of _ h2]) (simp add: run_bind h without_union Un_commute)
qed

lemma not_too_young:
  "\<not> too_young now s \<longleftrightarrow>
     24 * 3600 * 1000000 \<le> now - ActivatedTime s \<and>
     (MediaType s = ''none'' \<longrightarrow> 7 * 24 * 3600 * 1000000 \<le> now - ActivatedTime s)"
  by (auto simp: too_young_def hour_def)

text \<open>
  C26. The sweep against remote storage prunes exactly the expired streams: on a healthy database, and
  for a storage that answers its existence probes, a stream of a configured channel loses its row and
  its transcript if and only if at least 24 hours have passed since its activation, and at least seven
  days when it never had media, and storage answers that nothing is left under its folder \<^verbatim>\<open>raw\<close>; a
  failed probe spares it. Nothing else in the database and no stored object changes.
\<close>

theorem prune_deletes_exactly_expired:
  assumes "healthy w" "schema_ok (world_db w)" "\<And>p s. st_StreamExists (Storage app) p s = (probe p, s)"
    and "run (pruneExpiredStreams app) w = ((), w1)"
  shows "set (streams (world_db w1)) = {s \<in> set (streams (world_db w)).
      \<not> (ChannelID s \<in> Key ` set (Channels app) \<and>
         24 * 3600 * 1000000 \<le> clock w - ActivatedTime s \<and>
         (MediaType s = ''none'' \<longrightarrow> 7 * 24 * 3600 * 1000000 \<le> clock w - ActivatedTime s) \<and>
         probe (ChannelID s @ ''/'' @ StreamID s @ ''/raw/'') = Inr False)} \<and>
    (\<forall>ch sid. sel_rows ch sid (world_db w1) =
      (if \<exists>s \<in> set (streams (world_db w)) - set (streams (world_db w1)). ChannelID s = ch \<and> StreamID s = sid
       then [] else sel_rows ch sid (world_db w))) \<and>
    worker_rows (world_db w1) = worker_rows (world_db w) \<and> incoming (world_db w1) = incoming (world_db w) \<and>
    restarts (world_db w1) = restarts (world_db w) \<and> stores w1 = stores w"
proof -
  let ?K = "pruned_from (Key ` set (Channels app)) (clock w) probe (streams (world_db w))"
  have u: "distinct (map stream_key (streams (world_db w)))" using assms(2) by (simp add: schema_ok_def)
  obtain h where w1: "w1 = (set_db (without_streams ?K (world_db w)) w)\<lparr>hubs := h\<rparr>"
    using prune_channels_ok [OF assms(3,1) u, of "Channels app"] assms(4) by (auto simp: pruneExpiredStreams_def)
  have K: "stream_key s \<in> ?K \<longleftrightarrow> ChannelID s \<in> Key ` set (Channels app) \<and> expired (clock w) probe (ChannelID s) s"
    if "s \<in> set (streams (world_db w))" for s
    using that u by (auto simp: pruned_from_def distinct_map inj_on_def)
  have db: "world_db w1 = without_streams ?K (world_db w)" "stores w1 = stores w" by (simp add: w1) (simp add: w1 set_db_def)
  have gone: "(ch, sid) \<in> ?K \<longleftrightarrow>
      (\<exists>s \<in> set (streams (world_db w)) - set (streams (world_db w1)). ChannelID s = ch \<and> StreamID s = sid)" for ch sid
    using u by (auto simp: db without_streams_def pruned_from_def stream_key_def)
  have rows: "sel_rows ch sid (world_db w1) = (if (ch, sid) \<in> ?K then [] else sel_rows ch sid (world_db w))" for ch sid
    by (auto simp: sel_rows_def db without_streams_def in_stream_def filter_empty_conv intro!: filter_cong)
  have e: "expired (clock w) probe ch s \<longleftrightarrow> 24 * 3600 * 1000000 \<le> clock w - ActivatedTime s \<and>
      (MediaType s = ''none'' \<longrightarrow> 7 * 24 * 3600 * 1000000 \<le> clock w - ActivatedTime s) \<and>
      probe (ch @ ''/'' @ StreamID s @ ''/raw/'') = Inr False" for ch s
    by (simp only: expired_def not_too_young RawPrefix_def conj_assoc)
  show ?thesis
    unfolding rows gone using K [unfolded e] by (auto simp: db without_streams_def)
qed

text \<open>
  Five ended streams, with what is left of them in storage: one whose raw media is still there, one of
  23 hours, one of 25 hours, and two without media, of three days and of eight.
\<close>

definition aged_streams :: "stream list" where
  "aged_streams =
     (let hours = (\<lambda>n. 1000000000000 - n * 3600 * 1000000)
      in [sample_stream ''a'' False (hours 200), sample_stream ''b'' False (hours 23), sample_stream ''c'' False (hours 25),
          (sample_stream ''d'' False (hours 72))\<lparr>MediaType := ''none''\<rparr>,
          (sample_stream ''e'' False (hours 192))\<lparr>MediaType := ''none''\<rparr>])"

definition bucket_of_a :: "string \<Rightarrow> bool res" where
  "bucket_of_a p = (if p = ''ch/a/raw/'' then Inr True else Inr False)"

definition remote_app :: "unit app" where
  "remote_app = sample_app\<lparr>Storage := (LocalStorage ''tmp'' [])
     \<lparr>st_StreamExists := (\<lambda>p s. (bucket_of_a p, s)), st_IsLocal := False\<rparr>\<rparr>"

definition days_later :: "unit world" where
  "days_later = (sample_world aged_streams)\<lparr>clock := 1000000000000\<rparr>"

theorem prune_deletes_exactly_expired_witness:
  "StreamID ` set (streams (world_db (snd (run (pruneExpiredStreams remote_app) days_later)))) = {''a'', ''b'', ''d''}"
proof -
  have ss: "streams (world_db days_later) = aged_streams" and f: "faults (conn days_later) = []"
    by (simp_all add: days_later_def world_db_def sample_world_def new_world_def)
  have h: "healthy days_later" using f by (simp add: healthy_def)
  have "schema_ok (world_db (sample_world aged_streams))" by code_simp
  then have sc: "schema_ok (world_db days_later)" by (simp add: days_later_def world_db_def)
  have p: "st_StreamExists (Storage remote_app) p s = (bucket_of_a p, s)" for p s
    by (simp add: remote_app_def)
  obtain w1 where r: "run (pruneExpiredStreams remote_app) days_later = ((), w1)" by (metis surj_pair old.unit.exhaust)
  have c: "clock days_later = 1000000000000" "Key ` set (Channels remote_app) = {''ch''}"
    by (simp_all add: days_later_def remote_app_def)
  have "set (streams (world_db w1)) = {s \<in> set aged_streams. \<not> (ChannelID s \<in> {''ch''} \<and>
      24 * 3600 * 1000000 \<le> 1000000000000 - ActivatedTime s \<and>
      (MediaType s = ''none'' \<longrightarrow> 7 * 24 * 3600 * 1000000 \<le> 1000000000000 - ActivatedTime s) \<and>
      bucket_of_a (ChannelID s @ ''/'' @ StreamID s @ ''/raw/'') = Inr False)}"
    using prune_deletes_exactly_expired [OF h sc p r, unfolded ss c] by blast
  also have "\<dots> = set (filter (\<lambda>s. \<not> (ChannelID s \<in> {''ch''} \<and>
      24 * 3600 * 1000000 \<le> 1000000000000 - ActivatedTime s \<and>
      (MediaType s = ''none'' \<longrightarrow> 7 * 24 * 3600 * 1000000 \<le> 1000000000000 - ActivatedTime s) \<and>
      bucket_of_a (ChannelID s @ ''/'' @ StreamID s @ ''/raw/'') = Inr False)) aged_streams)"
    by (simp only: set_filter)
  finally have "StreamID ` set (streams (world_db w1)) = {''a'', ''b'', ''d''}"
    by (simp add: aged_streams_def sample_stream_def bucket_of_a_def)
  then show ?thesis by (simp add: r)
qed

end
