(* ===== verification/Bot_Props.thy ===== *)
theory Bot_Props
  imports Routes_Props
begin

text \<open>
  The Discord bot over time: which alerts its watchdog sends, and what a posted message can queue.
\<close>

section \<open>The watchdog's alerts\<close>

datatype gateway_event = Tick int "int option" "unit res" | Connects int | Disconnects int

fun gateway_step :: "discord_client \<Rightarrow> gateway_event \<Rightarrow> bot_state \<times> discord_state \<Rightarrow> bot_state \<times> discord_state" where
  "gateway_step d (Tick now ack opened) sd = checkHealth d now ack opened sd"
| "gateway_step d (Connects now) sd = (onConnect now (fst sd), snd sd)"
| "gateway_step d (Disconnects now) sd = (onDisconnect now (fst sd), snd sd)"

text \<open>What each tick finds: whether the last heartbeat is older than the threshold.\<close>

fun found_stale :: "gateway_event list \<Rightarrow> bool list" where
  "found_stale [] = []"
| "found_stale (Tick now ack opened # es) = (\<not> since now ack \<le> heartbeatStaleThreshold) # found_stale es"
| "found_stale (_ # es) = found_stale es"

text \<open>The changes of a run of booleans, starting from \<open>b\<close>.\<close>

fun changes :: "bool \<Rightarrow> bool list \<Rightarrow> bool list" where
  "changes b [] = []"
| "changes b (x # xs) = (if x = b then changes b xs else x # changes x xs)"

lemma changes_nth: "i < length (changes b xs) \<Longrightarrow> changes b xs ! i = (if even i then \<not> b else b)"
proof (induction xs arbitrary: b i)
  case (Cons x xs)
  then show ?case by (cases i) (auto split: if_splits)
qed simp

definition alert_title :: "bool \<Rightarrow> string" where
  "alert_title down = (if down then ''Discord Bot Offline Alert'' else ''Discord Bot Recovered'')"

lemma gateway_trace:
  assumes "WebhookURL d \<noteq> []" "fold (gateway_step d) es (s, o_d) = (s1, o_d1)"
  shows "\<exists>ps. outbox o_d1 = outbox o_d @ ps \<and>
    map (\<lambda>p. e_title (post_embed p)) ps = map alert_title (changes (alerted s) (found_stale es)) \<and>
    alerted s1 = last (alerted s # found_stale es)"
  using assms(2)
proof (induction es arbitrary: s o_d)
  case Nil
  then show ?case by simp
next
  case (Cons ev es)
  obtain s2 o_d2 where st: "gateway_step d ev (s, o_d) = (s2, o_d2)" by fastforce
  with Cons.prems have f: "fold (gateway_step d) es (s2, o_d2) = (s1, o_d1)" by simp
  note IH = Cons.IH [OF f]
  show ?case
  proof (cases ev)
    case (Tick now ack opened)
    have s2: "alerted s2 = (\<not> since now ack \<le> heartbeatStaleThreshold)"
      using st Tick by (auto simp: checkHealth_def forceReconnect_def recordGatewayError_def split: if_splits sum.splits)
    have "\<exists>ps. outbox o_d2 = outbox o_d @ ps \<and>
        map (\<lambda>p. e_title (post_embed p)) ps = (if alerted s2 = alerted s then [] else [alert_title (alerted s2)])"
      using st Tick assms(1) unfolding s2
      by (auto simp: checkHealth_def NotifyDiscordBotRecovered_def NotifyDiscordBotOffline_def sendTo_def plain_embed_def
          alert_title_def split: if_splits)
    with IH show ?thesis by (auto simp: Tick s2)
  next
    case (Connects now)
    with st IH show ?thesis by (auto simp: onConnect_def)
  next
    case (Disconnects now)
    with st IH show ?thesis by (auto simp: onDisconnect_def)
  qed
qed

text \<open>
  C35. The watchdog alerts once per outage and announces each recovery once: over any sequence of health
  checks, interleaved with connects and disconnects, and whatever forced reconnects do, the alerts sent
  are exactly the changes in what the checks found, so that they alternate, starting with an outage on
  a fresh bot.
\<close>

theorem one_alert_per_outage:
  assumes "WebhookURL d \<noteq> []" "fold (gateway_step d) es (new_bot_state, o_d) = (s1, o_d1)"
  shows "\<exists>ps. outbox o_d1 = outbox o_d @ ps \<and>
    map (\<lambda>p. e_title (post_embed p)) ps = map alert_title (changes False (found_stale es)) \<and>
    (\<forall>i. Suc i < length ps \<longrightarrow> e_title (post_embed (ps ! i)) \<noteq> e_title (post_embed (ps ! Suc i))) \<and>
    (ps \<noteq> [] \<longrightarrow> e_title (post_embed (hd ps)) = ''Discord Bot Offline Alert'')"
proof -
  let ?t = "\<lambda>p. e_title (post_embed p)" and ?c = "changes False (found_stale es)"
  obtain ps where ps: "outbox o_d1 = outbox o_d @ ps" "map ?t ps = map alert_title ?c"
    using gateway_trace [OF assms] by (auto simp: new_bot_state_def)
  have len: "length ps = length ?c" using ps(2) by (metis length_map)
  have nth: "?t (ps ! i) = alert_title (?c ! i)" if "i < length ps" for i
    using that len ps(2) by (metis nth_map)
  have inj: "alert_title a = alert_title b \<longleftrightarrow> a = b" for a b by (simp add: alert_title_def)
  have "?t (ps ! i) \<noteq> ?t (ps ! Suc i)" if "Suc i < length ps" for i
    using that nth [of i] nth [of "Suc i"] len inj changes_nth [of i False] changes_nth [of "Suc i" False] by simp
  moreover have "?t (hd ps) = ''Discord Bot Offline Alert''" if "ps \<noteq> []"
  proof -
    have "changes False (found_stale es) \<noteq> []" using that len by force
    then show ?thesis using that nth [of 0] changes_nth [of 0 False] by (simp add: hd_conv_nth alert_title_def)
  qed
  ultimately show ?thesis using ps by blast
qed

theorem one_alert_per_outage_witness:
  "\<exists>ps. outbox (snd (fold (gateway_step sample_client)
       [Tick 400000000 None (Inl ErrDriver), Connects 410000000, Tick 500000000 (Some 1000000) (Inr ()),
        Tick 600000000 (Some 590000000) (Inr ())] (new_bot_state, \<lparr>outbox = [], last500 = None\<rparr>)))
     = ps \<and> map (\<lambda>p. e_title (post_embed p)) ps = [''Discord Bot Offline Alert'', ''Discord Bot Recovered'']"
proof -
  let ?es = "[Tick 400000000 None (Inl ErrDriver), Connects 410000000, Tick 500000000 (Some 1000000) (Inr ()),
    Tick 600000000 (Some 590000000) (Inr ())]"
  have u: "WebhookURL sample_client \<noteq> []" by (simp add: sample_client_def NewClient_def)
  show ?thesis
    using one_alert_per_outage [where d = sample_client and es = ?es and o_d = "\<lparr>outbox = [], last500 = None\<rparr>",
        OF u prod.collapse [symmetric]]
    by (auto simp: since_def heartbeatStaleThreshold_def alert_title_def)
qed

section \<open>Announcements\<close>

definition http_scheme :: "string \<Rightarrow> bool" where
  "http_scheme s \<longleftrightarrow> s = ''https://'' \<or> s = ''http://''"

lemma url_at_Some:
  assumes "url_at s = Some u"
  shows "\<exists>scheme rest b. s = scheme @ rest @ b \<and> u = scheme @ rest \<and> http_scheme scheme \<and> rest \<noteq> [] \<and> list_all url_char rest"
proof -
  obtain scheme where "(if has_prefix s ''https://'' then ''https://'' else ''http://'') = scheme" by blast
  with assms have sc: "http_scheme scheme" and p: "has_prefix s scheme"
    and u: "takeWhile url_char (drop (length scheme) s) \<noteq> []" "u = scheme @ takeWhile url_char (drop (length scheme) s)"
    by (auto simp: url_at_def Let_def http_scheme_def split: if_splits)
  from p obtain t where t: "s = scheme @ t" by (auto simp: has_prefix_append)
  have "list_all url_char (takeWhile url_char t)" by (auto simp: list_all_iff dest: set_takeWhileD)
  with sc u t show ?thesis
    by (intro exI [of _ scheme] exI [of _ "takeWhile url_char t"] exI [of _ "dropWhile url_char t"]) simp
qed

lemma find_url_at:
  "find_url s \<noteq> [] \<Longrightarrow> \<exists>a b scheme rest. s = a @ find_url s @ b \<and> http_scheme scheme \<and>
     find_url s = scheme @ rest \<and> rest \<noteq> [] \<and> list_all url_char rest"
proof (induction s)
  case (Cons c cs)
  show ?case
  proof (cases "url_at (c # cs)")
    case None
    then have f: "find_url (c # cs) = find_url cs" by simp
    have "find_url cs \<noteq> []" using Cons.prems unfolding f .
    from Cons.IH [OF this] have "\<exists>a b scheme rest. cs = a @ find_url cs @ b \<and> http_scheme scheme \<and>
        find_url cs = scheme @ rest \<and> rest \<noteq> [] \<and> list_all url_char rest" .
    then obtain a b scheme rest where "cs = a @ find_url cs @ b" "http_scheme scheme"
      "find_url cs = scheme @ rest" "rest \<noteq> []" "list_all url_char rest" by blast
    then show ?thesis
      unfolding f by (intro exI [of _ "c # a"] exI [of _ b] exI [of _ scheme] exI [of _ rest]) simp
  next
    case (Some u)
    then have "url_at (c # cs) = Some u" .
    from url_at_Some [OF this] obtain scheme rest b where "c # cs = scheme @ rest @ b" "u = scheme @ rest"
      "http_scheme scheme" "rest \<noteq> []" "list_all url_char rest" by blast
    moreover have "find_url (c # cs) = u" using Some by simp
    ultimately have "c # cs = [] @ find_url (c # cs) @ b" "find_url (c # cs) = scheme @ rest" "http_scheme scheme"
      "rest \<noteq> []" "list_all url_char rest" by simp_all
    then show ?thesis by blast
  qed
qed simp

lemma trim_url_scheme:
  assumes "http_scheme scheme"
  shows "\<exists>r c. trim_url (scheme @ rest) = scheme @ r \<and> rest = r @ c"
proof -
  define P where "P = (\<lambda>c. c \<in> set ''.,);]>'')"
  have t: "trim_url u = rev (dropWhile P (rev u))" for u by (simp add: trim_url_def P_def)
  have s: "dropWhile P (rev scheme) = rev scheme" using assms by (auto simp: http_scheme_def P_def)
  show ?thesis
  proof (cases "\<forall>x \<in> set rest. P x")
    case True
    then have "dropWhile P (rev rest @ rev scheme) = rev scheme"
      using s by (subst dropWhile_append2) auto
    then show ?thesis by (intro exI [of _ "[]"] exI [of _ rest]) (simp add: t)
  next
    case False
    then obtain x where "x \<in> set (rev rest)" "\<not> P x" by auto
    then have "dropWhile P (rev rest @ rev scheme) = dropWhile P (rev rest) @ rev scheme"
      by (rule dropWhile_append1)
    moreover have "rest = rev (dropWhile P (rev rest)) @ rev (takeWhile P (rev rest))"
      by (metis rev_append rev_rev_ident takeWhile_dropWhile_id)
    ultimately show ?thesis
      by (intro exI [of _ "rev (dropWhile P (rev rest))"] exI [of _ "rev (takeWhile P (rev rest))"]) (simp add: t)
  qed
qed

lemma parse_ping:
  assumes "parsePingcordMessage low text m names = Some (k, u)"
  obtains a b scheme rest n where "text = a @ u @ b" "u = scheme @ rest" "http_scheme scheme"
    "n \<in> set names" "n \<noteq> []" "str_contains (low text) (low n)" "map_of m n = Some k"
proof -
  have f: "find_url text \<noteq> []" and u: "u = trim_url (find_url text)"
    using assms by (auto simp: parsePingcordMessage_def Let_def split: if_splits list.splits)
  obtain n ns where n: "filter (\<lambda>n. n \<noteq> [] \<and> str_contains (low text) (low n)) names = n # ns" "map_of m n = Some k"
    using assms by (auto simp: parsePingcordMessage_def Let_def split: if_splits list.splits)
  then have "n \<in> set (filter (\<lambda>n. n \<noteq> [] \<and> str_contains (low text) (low n)) names)" by simp
  then have n2: "n \<in> set names" "n \<noteq> []" "str_contains (low text) (low n)" by simp_all
  obtain a b scheme rest where t: "text = a @ find_url text @ b" "http_scheme scheme"
    "find_url text = scheme @ rest" using find_url_at [OF f] by blast
  obtain r c where r: "trim_url (scheme @ rest) = scheme @ r" "rest = r @ c" using trim_url_scheme [OF t(2)] by blast
  have "text = a @ u @ (c @ b)" "u = scheme @ r" using t r u by simp_all
  with that t(2) n(2) n2 show ?thesis by blast
qed

text \<open>
  C36. A posted message can do no more than queue one link: it changes nothing unless it was posted in a
  watched Discord channel and contains an http(s) URL and one of the configured names; then at most one
  row of the incoming queue of the channel that name maps to is written, with a URL that stands in the
  message as it is, and only if that channel is configured.
\<close>

theorem announcement_queues_one_link:
  assumes "run (onMessage app b names channelID content) w = ((), w1)"
  shows "world_db w1 = world_db w \<or>
    (channelID \<in> set (bot_channelIDs b) \<and>
     (\<exists>k u pre post scheme rest n. content = pre @ u @ post \<and> u = scheme @ rest \<and> http_scheme scheme \<and>
        n \<noteq> [] \<and> str_contains (lower app content) (lower app n) \<and> map_of (bot_channelMap b) n = Some k \<and>
        k \<in> Key ` set (Channels app) \<and>
        world_db w1 = (world_db w)\<lparr>incoming := upsert_row incoming_key merge_incoming
          \<lparr>in_channel = k, in_url = u, in_received = clock w div 1000000\<rparr> (incoming (world_db w))\<rparr>))"
proof (cases "channelID \<in> set (bot_channelIDs b)")
  case False
  with assms show ?thesis by (simp add: onMessage_def)
next
  case True
  show ?thesis
  proof (cases "parsePingcordMessage (lower app) content (bot_channelMap b) names")
    case None
    with assms True show ?thesis by (simp add: onMessage_def)
  next
    case (Some p)
    obtain k u where p: "p = (k, u)" by fastforce
    obtain a z scheme rest n where P: "content = a @ u @ z" "u = scheme @ rest" "http_scheme scheme"
      "n \<in> set names" "n \<noteq> []" "str_contains (lower app content) (lower app n)" "map_of (bot_channelMap b) n = Some k"
      by (rule parse_ping [OF Some [unfolded p]])
    show ?thesis
    proof (cases "find_channel app k")
      case None
      with assms True Some p show ?thesis by (simp add: onMessage_def QueueIncomingStream_def run_bind)
    next
      case (Some cs)
      then have k: "k \<in> Key ` set (Channels app)" by (auto simp: find_channel_def find_Some_iff)
      obtain r w0 where q: "run (sql (UpsertIncomingStream k u (clock w div 1000000))) w = (r, w0)" by fastforce
      have bump: "world_db (snd (run (bumpAdminChange app k) w0)) = world_db w0"
        by (auto simp: bumpAdminChange_def split: option.splits)
      have "world_db w1 = world_db w0"
        using assms True \<open>parsePingcordMessage _ _ _ _ = _\<close> p Some q bump
        by (auto simp: onMessage_def QueueIncomingStream_def run_bind unix_Now_def split: sum.splits prod.splits)
      then have "world_db w1 = world_db w \<or> world_db w1 = (world_db w)\<lparr>incoming := upsert_row incoming_key merge_incoming
          \<lparr>in_channel = k, in_url = u, in_received = clock w div 1000000\<rparr> (incoming (world_db w))\<rparr>"
        using sql_exec_cases(1) [OF q [unfolded UpsertIncomingStream_def]] by (simp split: if_splits)
      with True P k show ?thesis by blast
    qed
  qed
qed

definition listener :: bot where
  "listener = \<lparr>bot_channelIDs = [''42''], bot_channelMap = [(''Duck'', ''ch'')]\<rparr>"

definition announcement :: string where "announcement = ''duck is live https://x.y/z.''"

theorem announcement_queues_one_link_witness:
  "worker_rows (world_db (snd (run (onMessage sample_app listener [''Duck''] ''42'' announcement) three_streams)))
     = worker_rows (world_db three_streams)"
proof -
  obtain w1 where r: "run (onMessage sample_app listener [''Duck''] ''42'' announcement) three_streams = ((), w1)"
    by (metis surj_pair old.unit.exhaust)
  from announcement_queues_one_link [OF r]
  have "worker_rows (world_db w1) = worker_rows (world_db three_streams)" by auto
  then show ?thesis by (simp add: r)
qed

end
