(* ===== verification/R2_Storage.thy ===== *)
theory R2_Storage
  imports Config LocalStorage
begin

text \<open>
  \<^verbatim>\<open>internal/storage/r2.go\<close>: the Cloudflare R2 backend, method by method. The S3 client of the AWS SDK
  is a record of functions over the state of the remote bucket; the locale \<open>s3_service\<close> states the
  documented behaviour the methods rely on, and the backend keeps the storage contract for every
  such client. An in-memory service with pages and failing calls satisfies the locale.
\<close>

section \<open>The client\<close>

text \<open>
  \<open>s3_DeleteObjects\<close> returns, in quiet mode, the keys that could not be deleted. \<open>'p\<close> is the paginator
  of \<^verbatim>\<open>ListObjectsV2\<close>.
\<close>

record ('b, 'p) s3_client =
  s3_PutObject :: "string \<Rightarrow> string \<Rightarrow> string \<Rightarrow> string \<Rightarrow> int \<Rightarrow> 'b \<Rightarrow> unit res \<times> 'b"
  s3_GetObject :: "string \<Rightarrow> string \<Rightarrow> 'b \<Rightarrow> string res \<times> 'b"
  s3_ListObjectsV2 :: "string \<Rightarrow> string \<Rightarrow> nat \<Rightarrow> 'b \<Rightarrow> string list res \<times> 'b"
  s3_NewPaginator :: "string \<Rightarrow> string \<Rightarrow> 'p"
  s3_HasMorePages :: "'p \<Rightarrow> bool"
  s3_NextPage :: "'p \<Rightarrow> 'b \<Rightarrow> string list res \<times> 'p \<times> 'b"
  s3_DeleteObjects :: "string \<Rightarrow> string list \<Rightarrow> 'b \<Rightarrow> string list res \<times> 'b"

record ('b, 'p) r2 =
  Client :: "('b, 'p) s3_client"
  Bucket :: string
  PublicURL :: string

text \<open>\<open>loaded\<close> is the result of \<^verbatim>\<open>config.LoadDefaultConfig\<close>, \<open>client\<close> is \<^verbatim>\<open>s3.NewFromConfig\<close>.\<close>

definition r2_endpoint :: "string \<Rightarrow> string" where
  "r2_endpoint accountId = ''https://'' @ accountId @ ''.r2.cloudflarestorage.com''"

text \<open>\<^verbatim>\<open>fmt.Errorf\<close> with \<^verbatim>\<open>%w\<close>: the wrapped error stays recognizable as a cancellation.\<close>

definition wrap_err :: "string \<Rightarrow> gerr \<Rightarrow> gerr" where
  "wrap_err msg e = (if e = ErrCanceled \<or> e = ErrDeadlineExceeded then e else ErrOther (msg @ '': '' @ err_text e))"

definition NewR2Storage ::
  "'c res \<Rightarrow> ('c \<Rightarrow> string \<Rightarrow> ('b, 'p) s3_client) \<Rightarrow> string \<Rightarrow> string \<Rightarrow> string \<Rightarrow> ('b, 'p) r2 res" where
  "NewR2Storage loaded client accountId bkt publicUrl =
     (case loaded of
        Inl e \<Rightarrow> Inl (wrap_err ''unable to load SDK config'' e)
      | Inr cfg \<Rightarrow> Inr \<lparr>Client = client cfg (r2_endpoint accountId), Bucket = bkt, PublicURL = publicUrl\<rparr>)"

section \<open>Methods\<close>

definition r2_GetURL :: "('b, 'p) r2 \<Rightarrow> string \<Rightarrow> string" where
  "r2_GetURL s key = (if PublicURL s = [] then key else PublicURL s @ ''/'' @ key)"

definition r2_Save :: "(string \<Rightarrow> string) \<Rightarrow> ('b, 'p) r2 \<Rightarrow> string \<Rightarrow> string \<Rightarrow> 'b \<Rightarrow> string res \<times> 'b" where
  "r2_Save mime s key data b =
     (case s3_PutObject (Client s) (Bucket s) key data (getContentType mime key) (int (length data)) b of
        (Inl e, b1) \<Rightarrow> (Inl (wrap_err ''failed to upload to R2'' e), b1)
      | (Inr _, b1) \<Rightarrow> (Inr (r2_GetURL s key), b1))"

definition r2_Get :: "('b, 'p) r2 \<Rightarrow> string \<Rightarrow> 'b \<Rightarrow> string res \<times> 'b" where
  "r2_Get s key b =
     (case s3_GetObject (Client s) (Bucket s) key b of
        (Inl e, b1) \<Rightarrow> (Inl (wrap_err ''failed to download from R2'' e), b1)
      | (Inr x, b1) \<Rightarrow> (Inr x, b1))"

definition list_failed :: "gerr \<Rightarrow> gerr" where
  "list_failed e = wrap_err ''failed to list objects in R2'' e"

text \<open>
  The paging loops run under a context that lives for \<open>n\<close> page requests; the next one finds it
  cancelled. No bound is put on \<open>n\<close>.
\<close>

fun r2_delete_pages :: "nat \<Rightarrow> ('b, 'p) r2 \<Rightarrow> string \<Rightarrow> 'p \<Rightarrow> 'b \<Rightarrow> unit res \<times> 'b" where
  "r2_delete_pages 0 s pre pg b =
     (if s3_HasMorePages (Client s) pg then (Inl (list_failed ErrCanceled), b) else (Inr (), b))"
| "r2_delete_pages (Suc n) s pre pg b =
     (if \<not> s3_HasMorePages (Client s) pg then (Inr (), b)
      else (case s3_NextPage (Client s) pg b of
          (Inl e, pg1, b1) \<Rightarrow> (Inl (list_failed e), b1)
        | (Inr ks, pg1, b1) \<Rightarrow>
           (if ks = [] then r2_delete_pages n s pre pg1 b1
            else (case s3_DeleteObjects (Client s) (Bucket s) ks b1 of
                (Inl e, b2) \<Rightarrow> (Inl (wrap_err ''failed to delete batch from R2'' e), b2)
              | (Inr errs, b2) \<Rightarrow>
                 (if errs \<noteq> []
                  then (Inl (ErrOther (''failed to delete '' @ nat_digits (length errs) @ '' object(s) under prefix ''
                         @ pre @ '' from R2'')), b2)
                  else r2_delete_pages n s pre pg1 b2)))))"

definition r2_DeleteFolder :: "nat \<Rightarrow> ('b, 'p) r2 \<Rightarrow> string \<Rightarrow> 'b \<Rightarrow> unit res \<times> 'b" where
  "r2_DeleteFolder n s key b =
     (let pre = ensureTrailingSlash key
      in r2_delete_pages n s pre (s3_NewPaginator (Client s) (Bucket s) pre) b)"

fun r2_list_pages :: "nat \<Rightarrow> ('b, 'p) r2 \<Rightarrow> 'p \<Rightarrow> string list \<Rightarrow> 'b \<Rightarrow> string list res \<times> 'b" where
  "r2_list_pages 0 s pg keys b =
     (if s3_HasMorePages (Client s) pg then (Inl (list_failed ErrCanceled), b) else (Inr keys, b))"
| "r2_list_pages (Suc n) s pg keys b =
     (if \<not> s3_HasMorePages (Client s) pg then (Inr keys, b)
      else (case s3_NextPage (Client s) pg b of
          (Inl e, pg1, b1) \<Rightarrow> (Inl (list_failed e), b1)
        | (Inr ks, pg1, b1) \<Rightarrow> r2_list_pages n s pg1 (keys @ ks) b1))"

definition r2_List :: "nat \<Rightarrow> ('b, 'p) r2 \<Rightarrow> string \<Rightarrow> 'b \<Rightarrow> string list res \<times> 'b" where
  "r2_List n s pre b =
     r2_list_pages n s (s3_NewPaginator (Client s) (Bucket s) (ensureTrailingSlash pre)) [] b"

definition r2_StreamExists :: "('b, 'p) r2 \<Rightarrow> string \<Rightarrow> 'b \<Rightarrow> bool res \<times> 'b" where
  "r2_StreamExists s key b =
     (case s3_ListObjectsV2 (Client s) (Bucket s) (ensureTrailingSlash key) 1 b of
        (Inl e, b1) \<Rightarrow> (Inl (list_failed e), b1)
      | (Inr ks, b1) \<Rightarrow> (Inr (ks \<noteq> []), b1))"

definition on_bucket :: "('b \<Rightarrow> 'a \<times> 'b) \<Rightarrow> 'b stores \<Rightarrow> 'a \<times> 'b stores" where
  "on_bucket f s = (case f (bucket s) of (r, b) \<Rightarrow> (r, s\<lparr>bucket := b\<rparr>))"

definition R2Storage :: "(string \<Rightarrow> string) \<Rightarrow> nat \<Rightarrow> ('b, 'p) r2 \<Rightarrow> 'b stores storage" where
  "R2Storage mime n s =
     \<lparr>st_Save = (\<lambda>k x. on_bucket (r2_Save mime s k x)),
      st_Get = (\<lambda>k. on_bucket (r2_Get s k)),
      st_GetURL = r2_GetURL s,
      st_DeleteFolder = (\<lambda>k. on_bucket (r2_DeleteFolder n s k)),
      st_StreamExists = (\<lambda>k. on_bucket (r2_StreamExists s k)),
      st_List = (\<lambda>k. on_bucket (r2_List n s k)),
      st_IsLocal = False\<rparr>"

lemma on_bucketE:
  assumes "on_bucket f s = (r, s')"
  obtains b where "f (bucket s) = (r, b)" "s' = s\<lparr>bucket := b\<rparr>"
  using assms by (auto simp: on_bucket_def split: prod.splits)

section \<open>What the service promises\<close>

text \<open>
  \<open>pending pg k\<close>: the paginator has not passed the key \<open>k\<close> yet. A call that fails may still have taken
  effect, but objects are never partial and only the named keys change. Listings are strongly
  consistent.
\<close>

locale s3_service =
  fixes cl :: "('b, 'p) s3_client" and bkt :: string and obj :: "'b \<Rightarrow> string \<Rightarrow> string option"
    and ok :: "'b \<Rightarrow> bool" and pending :: "'p \<Rightarrow> string \<Rightarrow> bool"
  assumes put: "ok b \<Longrightarrow> s3_PutObject cl bkt k x ct (int (length x)) b = (pr, b') \<Longrightarrow>
      ok b' \<and> (\<forall>j. j \<noteq> k \<longrightarrow> obj b' j = obj b j) \<and> obj b' k \<in> {obj b k, Some x} \<and>
      (pr = Inr () \<longrightarrow> obj b' k = Some x)"
    and get: "ok b \<Longrightarrow> s3_GetObject cl bkt k b = (gr, b') \<Longrightarrow>
      ok b' \<and> obj b' = obj b \<and> (\<forall>x. gr = Inr x \<longrightarrow> obj b k = Some x)"
    and listing: "ok b \<Longrightarrow> 0 < m \<Longrightarrow> s3_ListObjectsV2 cl bkt p m b = (lr, b') \<Longrightarrow>
      ok b' \<and> obj b' = obj b \<and> (lr = Inr [] \<longrightarrow> (\<forall>k. has_prefix k p \<longrightarrow> obj b k = None))"
    and first_page: "pending (s3_NewPaginator cl bkt p) k \<longleftrightarrow> has_prefix k p"
    and last_page: "\<not> s3_HasMorePages cl pg \<Longrightarrow> \<not> pending pg k"
    and next_page: "ok b \<Longrightarrow> s3_HasMorePages cl pg \<Longrightarrow> s3_NextPage cl pg b = (nr, pg', b') \<Longrightarrow>
      ok b' \<and> obj b' = obj b \<and>
      (\<forall>ks. nr = Inr ks \<longrightarrow> (\<forall>k \<in> set ks. pending pg k \<and> obj b k \<noteq> None) \<and>
         (\<forall>k. pending pg' k \<longrightarrow> pending pg k) \<and>
         (\<forall>k. pending pg k \<longrightarrow> obj b k \<noteq> None \<longrightarrow> k \<in> set ks \<or> pending pg' k))"
    and delete: "ok b \<Longrightarrow> s3_DeleteObjects cl bkt ks b = (dr, b') \<Longrightarrow>
      ok b' \<and> (\<forall>j. j \<notin> set ks \<longrightarrow> obj b' j = obj b j) \<and> (\<forall>j. obj b' j = None \<or> obj b' j = obj b j) \<and>
      (\<forall>errs. dr = Inr errs \<longrightarrow> (\<forall>j \<in> set ks. j \<notin> set errs \<longrightarrow> obj b' j = None))"
begin

lemma delete_pages:
  assumes "r2_delete_pages n s pre pg b = (r, b')" "Client s = cl" "Bucket s = bkt" "ok b"
  shows "ok b' \<and> (\<forall>k. \<not> pending pg k \<longrightarrow> obj b' k = obj b k) \<and> (\<forall>k. obj b' k = None \<or> obj b' k = obj b k) \<and>
    (r = Inr () \<longrightarrow> (\<forall>k. pending pg k \<longrightarrow> obj b' k = None))"
  using assms
proof (induction n arbitrary: pg b)
  case 0
  then show ?case using last_page [of pg] by (auto split: if_splits)
next
  case (Suc n)
  show ?case
  proof (cases "s3_HasMorePages cl pg")
    case False
    with Suc.prems last_page [OF False] show ?thesis by auto
  next
    case True
    obtain nr pg1 b1 where np: "s3_NextPage cl pg b = (nr, pg1, b1)" by (metis prod_cases3)
    note N = next_page [OF Suc.prems(4) True np]
    show ?thesis
    proof (cases nr)
      case (Inl e)
      with Suc.prems True np N show ?thesis by auto
    next
      case (Inr ks)
      show ?thesis
      proof (cases "ks = []")
        case ks: True
        from Suc.IH [of pg1 b1] Suc.prems True np N Inr ks
        have "ok b' \<and> (\<forall>k. \<not> pending pg1 k \<longrightarrow> obj b' k = obj b1 k) \<and> (\<forall>k. obj b' k = None \<or> obj b' k = obj b1 k) \<and>
            (r = Inr () \<longrightarrow> (\<forall>k. pending pg1 k \<longrightarrow> obj b' k = None))" by simp
        with N Inr ks show ?thesis by (metis empty_iff list.set(1))
      next
        case ks: False
        obtain dr b2 where d: "s3_DeleteObjects cl bkt ks b1 = (dr, b2)" by fastforce
        have "ok b1" using N by simp
        note D = delete [OF this d]
        have pend: "\<forall>k \<in> set ks. pending pg k" and o1: "obj b1 = obj b" using N Inr by simp_all
        show ?thesis
        proof (cases "dr = Inr []")
          case True2: False
          then have "b' = b2" "\<exists>e. r = Inl e" using Suc.prems True np Inr ks d by (auto split: sum.splits if_splits)
          moreover have "obj b2 k = obj b k" if "\<not> pending pg k" for k using D pend o1 that by metis
          ultimately show ?thesis using D o1 by (auto simp del: not_None_eq)
        next
          case dr: True
          from Suc.IH [of pg1 b2] Suc.prems True np N Inr ks d dr D
          have IH: "ok b' \<and> (\<forall>k. \<not> pending pg1 k \<longrightarrow> obj b' k = obj b2 k) \<and> (\<forall>k. obj b' k = None \<or> obj b' k = obj b2 k) \<and>
              (r = Inr () \<longrightarrow> (\<forall>k. pending pg1 k \<longrightarrow> obj b' k = None))" by simp
          have gone: "\<forall>k \<in> set ks. obj b2 k = None" using D dr by simp
          have "obj b' k = obj b k" if "\<not> pending pg k" for k
            using IH D N Inr that o1 pend by metis
          moreover have "obj b' k = None \<or> obj b' k = obj b k" for k using IH D o1 by metis
          moreover have "obj b' k = None" if "r = Inr ()" "pending pg k" for k
          proof (cases "obj b k = None")
            case True
            then show ?thesis using IH D o1 by metis
          next
            case False
            then have "k \<in> set ks \<or> pending pg1 k" using N Inr that by blast
            then show ?thesis using IH gone that by metis
          qed
          ultimately show ?thesis using IH by blast
        qed
      qed
    qed
  qed
qed

lemma list_pages:
  assumes "r2_list_pages n s pg keys b = (r, b')" "Client s = cl" "Bucket s = bkt" "ok b"
  shows "ok b' \<and> obj b' = obj b \<and> (\<forall>ks. r = Inr ks \<longrightarrow>
    (\<forall>k \<in> set ks. k \<in> set keys \<or> pending pg k \<and> obj b k \<noteq> None) \<and>
    (\<forall>k. k \<in> set keys \<or> pending pg k \<and> obj b k \<noteq> None \<longrightarrow> k \<in> set ks))"
  using assms
proof (induction n arbitrary: pg keys b)
  case 0
  then show ?case using last_page [of pg] by (auto split: if_splits)
next
  case (Suc n)
  show ?case
  proof (cases "s3_HasMorePages cl pg")
    case False
    with Suc.prems last_page [OF False] show ?thesis by auto
  next
    case True
    obtain nr pg1 b1 where np: "s3_NextPage cl pg b = (nr, pg1, b1)" by (metis prod_cases3)
    note N = next_page [OF Suc.prems(4) True np]
    show ?thesis
    proof (cases nr)
      case (Inl e)
      with Suc.prems True np N show ?thesis by auto
    next
      case (Inr ks)
      have "ok b' \<and> obj b' = obj b1 \<and> (\<forall>x. r = Inr x \<longrightarrow>
          (\<forall>k \<in> set x. k \<in> set (keys @ ks) \<or> pending pg1 k \<and> obj b1 k \<noteq> None) \<and>
          (\<forall>k. k \<in> set (keys @ ks) \<or> pending pg1 k \<and> obj b1 k \<noteq> None \<longrightarrow> k \<in> set x))"
        using Suc.IH [of pg1 "keys @ ks" b1] Suc.prems True np N Inr by simp
      with N Inr show ?thesis by simp (blast dest: spec)
    qed
  qed
qed

end

sublocale s3_service \<subseteq> r2: media_store
  "R2Storage mime n \<lparr>Client = cl, Bucket = bkt, PublicURL = url\<rparr>" "\<lambda>s. obj (bucket s)" "\<lambda>s. ok (bucket s)"
  for mime n url
proof
  let ?st = "R2Storage mime n \<lparr>Client = cl, Bucket = bkt, PublicURL = url\<rparr>"
  fix s :: "'b stores" and k x r s'
  assume "ok (bucket s)" "st_Save ?st k x s = (r, s')"
  then show "ok (bucket s') \<and> (\<forall>j. media_key j \<longrightarrow> j \<noteq> k \<longrightarrow> obj (bucket s') j = obj (bucket s) j) \<and>
      obj (bucket s') k \<in> {obj (bucket s) k, Some x} \<and> (\<forall>u. r = Inr u \<longrightarrow> obj (bucket s') k = Some x)"
    using put [of "bucket s" k x "getContentType mime k"]
    by (auto simp: R2Storage_def r2_Save_def elim!: on_bucketE split: prod.splits sum.splits)
next
  let ?st = "R2Storage mime n \<lparr>Client = cl, Bucket = bkt, PublicURL = url\<rparr>"
  fix s :: "'b stores" and k r s'
  assume "ok (bucket s)" "st_Get ?st k s = (r, s')"
  then show "ok (bucket s') \<and> obj (bucket s') = obj (bucket s) \<and> (\<forall>x. r = Inr x \<longrightarrow> obj (bucket s) k = Some x)"
    using get [of "bucket s" k]
    by (auto simp: R2Storage_def r2_Get_def elim!: on_bucketE split: prod.splits sum.splits)
next
  let ?st = "R2Storage mime n \<lparr>Client = cl, Bucket = bkt, PublicURL = url\<rparr>"
  fix s :: "'b stores" and p r s'
  assume ok: "ok (bucket s)" and p: "media_prefix p" and "st_DeleteFolder ?st p s = (r, s')"
  then obtain b where b: "r2_DeleteFolder n \<lparr>Client = cl, Bucket = bkt, PublicURL = url\<rparr> p (bucket s) = (r, b)"
    "s' = s\<lparr>bucket := b\<rparr>" by (auto simp: R2Storage_def elim: on_bucketE)
  have "ensureTrailingSlash p = p"
    using p by (elim media_prefixE) (simp add: ensureTrailingSlash_def)
  with delete_pages [OF b(1) [unfolded r2_DeleteFolder_def Let_def] _ _ ok] b(2) first_page [of p]
  show "ok (bucket s') \<and> (\<forall>j. media_key j \<longrightarrow> \<not> has_prefix j p \<longrightarrow> obj (bucket s') j = obj (bucket s) j) \<and>
      (\<forall>j. media_key j \<longrightarrow> obj (bucket s') j = None \<or> obj (bucket s') j = obj (bucket s) j) \<and>
      (r = Inr () \<longrightarrow> (\<forall>j. media_key j \<longrightarrow> has_prefix j p \<longrightarrow> obj (bucket s') j = None))"
    by simp
next
  let ?st = "R2Storage mime n \<lparr>Client = cl, Bucket = bkt, PublicURL = url\<rparr>"
  fix s :: "'b stores" and p r s'
  assume "ok (bucket s)" and p: "media_prefix p" and "st_StreamExists ?st p s = (r, s')"
  moreover have "ensureTrailingSlash p = p"
    using p by (elim media_prefixE) (simp add: ensureTrailingSlash_def)
  ultimately show "ok (bucket s') \<and> obj (bucket s') = obj (bucket s) \<and>
      (r = Inr False \<longrightarrow> (\<forall>j. media_key j \<longrightarrow> has_prefix j p \<longrightarrow> obj (bucket s) j = None))"
    using listing [of "bucket s" 1 p]
    by (auto simp: R2Storage_def r2_StreamExists_def elim!: on_bucketE split: prod.splits sum.splits)
next
  let ?st = "R2Storage mime n \<lparr>Client = cl, Bucket = bkt, PublicURL = url\<rparr>"
  fix s :: "'b stores" and p r s'
  assume ok: "ok (bucket s)" and p: "media_prefix p" and "st_List ?st p s = (r, s')"
  then obtain b where b: "r2_List n \<lparr>Client = cl, Bucket = bkt, PublicURL = url\<rparr> p (bucket s) = (r, b)"
    "s' = s\<lparr>bucket := b\<rparr>" by (auto simp: R2Storage_def elim: on_bucketE)
  have et: "ensureTrailingSlash p = p"
    using p by (elim media_prefixE) (simp add: ensureTrailingSlash_def)
  have L: "ok b \<and> obj b = obj (bucket s) \<and> (\<forall>ks. r = Inr ks \<longrightarrow>
      (\<forall>k \<in> set ks. has_prefix k p \<and> obj (bucket s) k \<noteq> None) \<and>
      (\<forall>k. has_prefix k p \<and> obj (bucket s) k \<noteq> None \<longrightarrow> k \<in> set ks))"
    using list_pages [OF b(1) [unfolded r2_List_def et] r2.select_convs(1,2) ok]
    by (simp only: r2.select_convs first_page list.set empty_iff simp_thms) blast
  have pf: "has_prefix (p @ f) p" for f by (auto simp: has_prefix_append)
  show "ok (bucket s') \<and> obj (bucket s') = obj (bucket s) \<and>
      (\<forall>ks. r = Inr ks \<longrightarrow> (\<forall>k \<in> set ks. media_key k \<longrightarrow> has_prefix k p \<and> obj (bucket s) k \<noteq> None) \<and>
        (\<forall>f. media_key (p @ f) \<longrightarrow> CHR ''/'' \<notin> set f \<longrightarrow> obj (bucket s) (p @ f) \<noteq> None \<longrightarrow> p @ f \<in> set ks))"
  proof (intro conjI allI impI ballI)
    show "ok (bucket s')" "obj (bucket s') = obj (bucket s)" using L b(2) by simp_all
  next
    fix ks k assume "r = Inr ks" "k \<in> set ks"
    with L show "has_prefix k p" "obj (bucket s) k \<noteq> None" by blast+
  next
    fix ks f assume "r = Inr ks" "obj (bucket s) (p @ f) \<noteq> None"
    with L pf show "p @ f \<in> set ks" by blast
  qed
qed

context s3_service
begin

lemma folder_deleted:
  assumes "ok (bucket s)" "isValidID c" "isValidID sid"
    and "st_DeleteFolder (R2Storage mime n \<lparr>Client = cl, Bucket = bkt, PublicURL = url\<rparr>) (StreamPrefix c sid) s = (r, s')"
    and "isValidID c'" "isValidID sid'" "isValidID f" "kind_ok k"
  shows "disk s' = disk s \<and>
    (if (c', sid') = (c, sid)
     then (r = Inr () \<longrightarrow> obj (bucket s') (key_of k c' sid' f) = None)
     else obj (bucket s') (key_of k c' sid' f) = obj (bucket s) (key_of k c' sid' f))"
proof -
  have "obj (bucket s') (key_of k c sid f) = None" if "r = Inr ()"
    using r2.delete_stream_all [OF assms(1-3) assms(4) [unfolded that] assms(7,8)] .
  moreover have "disk s' = disk s"
    using assms(4) by (auto simp: R2Storage_def elim: on_bucketE)
  ultimately show ?thesis using r2.delete_stream_only [OF assms] by auto
qed

lemma folder_listed:
  assumes "ok (bucket s)"
    and "st_List (R2Storage mime n \<lparr>Client = cl, Bucket = bkt, PublicURL = url\<rparr>) (VodPrefix c sid) s = (Inr ks, s')"
  shows "set ks = {k. has_prefix k (VodPrefix c sid) \<and> obj (bucket s) k \<noteq> None} \<and> obj (bucket s') = obj (bucket s)"
proof -
  obtain b where b: "r2_List n \<lparr>Client = cl, Bucket = bkt, PublicURL = url\<rparr> (VodPrefix c sid) (bucket s) = (Inr ks, b)"
    "s' = s\<lparr>bucket := b\<rparr>" using assms(2) by (auto simp: R2Storage_def elim: on_bucketE)
  define r where "r = (Inr ks :: string list res)"
  with b(1) have "r2_List n \<lparr>Client = cl, Bucket = bkt, PublicURL = url\<rparr> (VodPrefix c sid) (bucket s) = (r, b)" by simp
  note list_pages [OF this [unfolded r2_List_def ensureTrailingSlash_prefix] r2.select_convs(1,2) assms(1)]
  then have "ok b \<and> obj b = obj (bucket s) \<and> (\<forall>ks. r = Inr ks \<longrightarrow>
      (\<forall>k \<in> set ks. has_prefix k (VodPrefix c sid) \<and> obj (bucket s) k \<noteq> None) \<and>
      (\<forall>k. has_prefix k (VodPrefix c sid) \<and> obj (bucket s) k \<noteq> None \<longrightarrow> k \<in> set ks))"
    by (simp only: r2.select_convs first_page list.set empty_iff simp_thms) blast
  then have "set ks = {k. has_prefix k (VodPrefix c sid) \<and> obj (bucket s) k \<noteq> None}" "obj b = obj (bucket s)"
    unfolding r_def by blast+
  moreover have "bucket s' = b" by (simp add: b(2))
  ultimately show ?thesis by (simp only: simp_thms)
qed

end

section \<open>An in-memory service\<close>

text \<open>
  A bucket as an association list, listed in key order in pages of one more than \<open>page_size\<close> keys. Each call takes the
  next verdict: fail before doing anything, fail after the change was made, or go through; a deletion
  can also leave its keys behind.
\<close>

datatype verdict = Goes | Fails_before | Fails_after | Leaves

record s3_bucket =
  contents :: "(string \<times> string) list"
  verdicts :: "verdict list"

type_synonym s3_position = "string \<times> string option \<times> bool"

definition judge :: "s3_bucket \<Rightarrow> verdict \<times> s3_bucket" where
  "judge b = (case verdicts b of [] \<Rightarrow> (Goes, b) | v # vs \<Rightarrow> (v, b\<lparr>verdicts := vs\<rparr>))"

definition mem_put :: "string \<Rightarrow> string \<Rightarrow> s3_bucket \<Rightarrow> unit res \<times> s3_bucket" where
  "mem_put k x b =
     (case judge b of (v, b1) \<Rightarrow>
        (if v = Fails_before then (Inl ErrDriver, b1)
         else (if v = Fails_after then Inl ErrDriver else Inr (), b1\<lparr>contents := AList.update k x (contents b1)\<rparr>)))"

definition mem_get :: "string \<Rightarrow> s3_bucket \<Rightarrow> string res \<times> s3_bucket" where
  "mem_get k b =
     (case judge b of (v, b1) \<Rightarrow>
        (if v \<noteq> Goes then (Inl ErrDriver, b1)
         else (case map_of (contents b1) k of None \<Rightarrow> (Inl ErrNotFound, b1) | Some x \<Rightarrow> (Inr x, b1))))"

definition keys_from :: "string \<Rightarrow> string option \<Rightarrow> s3_bucket \<Rightarrow> string list" where
  "keys_from p after b =
     filter (\<lambda>k. has_prefix k p \<and> (case after of None \<Rightarrow> True | Some l \<Rightarrow> l < k)) (sort (map fst (contents b)))"

definition mem_list :: "string \<Rightarrow> nat \<Rightarrow> s3_bucket \<Rightarrow> string list res \<times> s3_bucket" where
  "mem_list p m b =
     (case judge b of (v, b1) \<Rightarrow> if v \<noteq> Goes then (Inl ErrDriver, b1) else (Inr (take m (keys_from p None b1)), b1))"

definition mem_page :: "nat \<Rightarrow> s3_position \<Rightarrow> s3_bucket \<Rightarrow> string list res \<times> s3_position \<times> s3_bucket" where
  "mem_page page_size pg b =
     (case judge b of (v, b1) \<Rightarrow>
        (if v \<noteq> Goes then (Inl ErrDriver, pg, b1)
         else (let all = keys_from (fst pg) (fst (snd pg)) b1; page = take (Suc page_size) all
               in (Inr page, (fst pg, if page = [] then fst (snd pg) else Some (last page),
                              snd (snd pg) \<and> Suc page_size < length all), b1))))"

definition mem_delete :: "string list \<Rightarrow> s3_bucket \<Rightarrow> string list res \<times> s3_bucket" where
  "mem_delete ks b =
     (case judge b of (v, b1) \<Rightarrow>
        (if v = Fails_before then (Inl ErrDriver, b1)
         else if v = Leaves then (Inr ks, b1)
         else (if v = Fails_after then Inl ErrDriver else Inr [],
               b1\<lparr>contents := filter (\<lambda>kx. fst kx \<notin> set ks) (contents b1)\<rparr>)))"

definition memory_s3 :: "nat \<Rightarrow> (s3_bucket, s3_position) s3_client" where
  "memory_s3 page_size =
     \<lparr>s3_PutObject = (\<lambda>_ k x _ _. mem_put k x), s3_GetObject = (\<lambda>_. mem_get),
      s3_ListObjectsV2 = (\<lambda>_. mem_list), s3_NewPaginator = (\<lambda>_ p. (p, None, True)),
      s3_HasMorePages = (\<lambda>pg. snd (snd pg)), s3_NextPage = mem_page page_size,
      s3_DeleteObjects = (\<lambda>_. mem_delete)\<rparr>"

definition mem_pending :: "s3_position \<Rightarrow> string \<Rightarrow> bool" where
  "mem_pending pg k \<longleftrightarrow> snd (snd pg) \<and> has_prefix k (fst pg) \<and>
     (case fst (snd pg) of None \<Rightarrow> True | Some l \<Rightarrow> l < k)"

lemma judge_contents: "judge b = (v, b1) \<Longrightarrow> contents b1 = contents b"
  by (auto simp: judge_def split: list.splits)

lemma set_keys_from:
  "k \<in> set (keys_from p after b) \<longleftrightarrow>
     map_of (contents b) k \<noteq> None \<and> has_prefix k p \<and> (case after of None \<Rightarrow> True | Some l \<Rightarrow> l < k)"
  by (auto simp: keys_from_def map_of_eq_None_iff)

lemma sorted_keys_from: "sorted (keys_from p after b)"
  by (simp add: keys_from_def sorted_wrt_filter)

text \<open>What a page of a sorted list leaves out lies beyond its last key.\<close>

lemma sorted_take_rest:
  assumes "sorted xs" "k \<in> set xs" "k \<notin> set (take (Suc n) xs)"
  shows "last (take (Suc n) xs) < k" and "Suc n < length xs" and "take (Suc n) xs \<noteq> []"
proof -
  have kd: "k \<in> set (drop (Suc n) xs)"
    using assms(2,3) by (metis Un_iff append_take_drop_id set_append)
  then show len: "Suc n < length xs" by (metis drop_eq_Nil2 empty_iff list.set(1) not_le_imp_less)
  then show ne: "take (Suc n) xs \<noteq> []" by auto
  have "sorted (take (Suc n) xs @ drop (Suc n) xs)" using assms(1) by simp
  then have "last (take (Suc n) xs) \<le> k"
    using kd last_in_set [OF ne] by (simp only: sorted_append)
  moreover have "last (take (Suc n) xs) \<noteq> k" using assms(3) last_in_set [OF ne] by metis
  ultimately show "last (take (Suc n) xs) < k" by simp
qed

lemma map_of_filter_key: "map_of (filter (\<lambda>kx. fst kx \<notin> S) xs) k = (if k \<in> S then None else map_of xs k)"
  by (induction xs) auto

lemma mem_page_effect:
  assumes "mem_page page_size pg b = (nr, pg', b')" "snd (snd pg)"
  shows "map_of (contents b') = map_of (contents b)"
    and "nr = Inr ks \<Longrightarrow> k \<in> set ks \<Longrightarrow> mem_pending pg k \<and> map_of (contents b) k \<noteq> None"
    and "nr = Inr ks \<Longrightarrow> mem_pending pg' k \<Longrightarrow> mem_pending pg k"
    and "nr = Inr ks \<Longrightarrow> mem_pending pg k \<Longrightarrow> map_of (contents b) k \<noteq> None \<Longrightarrow> k \<in> set ks \<or> mem_pending pg' k"
proof -
  obtain v b1 where j: "judge b = (v, b1)" by fastforce
  note c = judge_contents [OF j]
  let ?all = "keys_from (fst pg) (fst (snd pg)) b1"
  have ks: "ks = take (Suc page_size) ?all" and pg': "pg' = (fst pg, if ks = [] then fst (snd pg) else Some (last ks),
      snd (snd pg) \<and> Suc page_size < length ?all)" if "nr = Inr ks"
    using assms(1) j that by (auto simp: mem_page_def Let_def split: if_splits)
  show "map_of (contents b') = map_of (contents b)"
    using assms(1) j c by (auto simp: mem_page_def Let_def split: if_splits)
  have pend: "k \<in> set ?all \<longleftrightarrow> mem_pending pg k \<and> map_of (contents b) k \<noteq> None" for k
    using assms(2) by (auto simp: set_keys_from mem_pending_def c)
  show "mem_pending pg k \<and> map_of (contents b) k \<noteq> None" if "nr = Inr ks" "k \<in> set ks"
    using pend [of k] ks [OF that(1)] that(2) in_set_takeD by fast
  show "mem_pending pg k" if "nr = Inr ks" "mem_pending pg' k"
  proof (cases "ks = []")
    case True
    with that pg' [OF that(1)] assms(2) show ?thesis by (auto simp: mem_pending_def)
  next
    case False
    have "last ks \<in> set ?all" using ks [OF that(1)] last_in_set [OF False] in_set_takeD by fast
    then have "case fst (snd pg) of None \<Rightarrow> True | Some l \<Rightarrow> l < last ks" by (simp add: set_keys_from)
    with that pg' [OF that(1)] assms(2) False show ?thesis
      by (auto simp: mem_pending_def split: option.splits)
  qed
  show "k \<in> set ks \<or> mem_pending pg' k" if r: "nr = Inr ks" and p: "mem_pending pg k" "map_of (contents b) k \<noteq> None"
  proof (cases "k \<in> set ks")
    case False
    have "k \<in> set ?all" using pend [of k] p by simp
    from sorted_take_rest [OF sorted_keys_from this] False ks [OF r]
    have "last ks < k" "Suc page_size < length ?all" "ks \<noteq> []" by simp_all
    with pg' [OF r] assms(2) p(1) show ?thesis by (simp add: mem_pending_def)
  qed simp
qed

interpretation mem: s3_service "memory_s3 page_size" bkt "\<lambda>b. map_of (contents b)" "\<lambda>_. True" mem_pending
  for page_size bkt
proof
  fix b b' k x ct pr
  assume "s3_PutObject (memory_s3 page_size) bkt k x ct (int (length x)) b = (pr, b')"
  then show "True \<and> (\<forall>j. j \<noteq> k \<longrightarrow> map_of (contents b') j = map_of (contents b) j) \<and>
      map_of (contents b') k \<in> {map_of (contents b) k, Some x} \<and> (pr = Inr () \<longrightarrow> map_of (contents b') k = Some x)"
    by (auto simp: memory_s3_def mem_put_def update_conv' split: prod.splits if_splits dest!: judge_contents)
next
  fix b b' k gr
  assume "s3_GetObject (memory_s3 page_size) bkt k b = (gr, b')"
  then show "True \<and> (\<lambda>x. map_of (contents b') x) = (\<lambda>x. map_of (contents b) x) \<and>
      (\<forall>x. gr = Inr x \<longrightarrow> map_of (contents b) k = Some x)"
    by (auto simp: memory_s3_def mem_get_def split: prod.splits if_splits option.splits dest!: judge_contents)
next
  fix b b' p m lr
  assume m: "0 < m" and "s3_ListObjectsV2 (memory_s3 page_size) bkt p m b = (lr, b')"
  then obtain v b1 where j: "judge b = (v, b1)" "b' = b1" "v \<noteq> Goes \<and> lr = Inl ErrDriver \<or> lr = Inr (take m (keys_from p None b1))"
    by (auto simp: memory_s3_def mem_list_def split: prod.splits if_splits)
  have "map_of (contents b) k = None" if "lr = Inr []" "has_prefix k p" for k
    using j(3) that m set_keys_from [of k p None b1] judge_contents [OF j(1)] by auto
  then show "True \<and> (\<lambda>x. map_of (contents b') x) = (\<lambda>x. map_of (contents b) x) \<and>
      (lr = Inr [] \<longrightarrow> (\<forall>k. has_prefix k p \<longrightarrow> map_of (contents b) k = None))"
    using judge_contents [OF j(1)] j(2) by simp
next
  fix p k show "mem_pending (s3_NewPaginator (memory_s3 page_size) bkt p) k = has_prefix k p"
    by (simp add: memory_s3_def mem_pending_def)
next
  fix pg k assume "\<not> s3_HasMorePages (memory_s3 page_size) pg"
  then show "\<not> mem_pending pg k" by (simp add: memory_s3_def mem_pending_def)
next
  fix b b' pg pg' nr
  assume "s3_HasMorePages (memory_s3 page_size) pg" and "s3_NextPage (memory_s3 page_size) pg b = (nr, pg', b')"
  then show "True \<and> (\<lambda>x. map_of (contents b') x) = (\<lambda>x. map_of (contents b) x) \<and>
    (\<forall>ks. nr = Inr ks \<longrightarrow> (\<forall>k \<in> set ks. mem_pending pg k \<and> map_of (contents b) k \<noteq> None) \<and>
       (\<forall>k. mem_pending pg' k \<longrightarrow> mem_pending pg k) \<and>
       (\<forall>k. mem_pending pg k \<longrightarrow> map_of (contents b) k \<noteq> None \<longrightarrow> k \<in> set ks \<or> mem_pending pg' k))"
    using mem_page_effect [of page_size pg b nr pg' b'] by (simp add: memory_s3_def)
next
  fix b b' ks dr
  assume "s3_DeleteObjects (memory_s3 page_size) bkt ks b = (dr, b')"
  then show "True \<and> (\<forall>j. j \<notin> set ks \<longrightarrow> map_of (contents b') j = map_of (contents b) j) \<and>
      (\<forall>j. map_of (contents b') j = None \<or> map_of (contents b') j = map_of (contents b) j) \<and>
      (\<forall>errs. dr = Inr errs \<longrightarrow> (\<forall>j \<in> set ks. j \<notin> set errs \<longrightarrow> map_of (contents b') j = None))"
    by (auto simp: memory_s3_def mem_delete_def map_of_filter_key split: prod.splits if_splits dest!: judge_contents)
qed

section \<open>Paging comes to an end\<close>

text \<open>How many page requests a position can still ask for.\<close>

definition pages_left :: "s3_position \<Rightarrow> s3_bucket \<Rightarrow> nat" where
  "pages_left pg b = (if snd (snd pg) then Suc (length (keys_from (fst pg) (fst (snd pg)) b)) else 0)"

lemma length_keys_from:
  "length (keys_from p after b) = length (filter (\<lambda>k. has_prefix k p \<and> (case after of None \<Rightarrow> True | Some l \<Rightarrow> l < k))
     (map fst (contents b)))"
  unfolding keys_from_def by (metis (no_types, lifting) filter_sort length_sort)

lemma keys_from_mono:
  assumes "contents b' = filter P (contents b)"
  shows "length (keys_from p after b') \<le> length (keys_from p after b)"
proof -
  have "length (filter Q (map fst (filter P xs))) \<le> length (filter Q (map fst xs))" for Q and xs :: "(string \<times> string) list"
    by (induction xs) auto
  then show ?thesis unfolding length_keys_from assms .
qed

lemma keys_from_contents: "contents b' = contents b \<Longrightarrow> keys_from p after b' = keys_from p after b"
  by (simp add: keys_from_def)

lemma pages_left_mono: "contents b' = filter P (contents b) \<Longrightarrow> pages_left pg b' \<le> pages_left pg b"
  by (simp add: pages_left_def keys_from_mono)

lemma page_progress:
  assumes "mem_page page_size pg b = (Inr ks, pg', b')" "snd (snd pg)"
  shows "pages_left pg' b' < pages_left pg b"
proof -
  obtain v b1 where j: "judge b = (v, b1)" by fastforce
  note c = judge_contents [OF j]
  let ?all = "keys_from (fst pg) (fst (snd pg)) b1"
  have r: "b' = b1" "ks = take (Suc page_size) ?all" "fst pg' = fst pg"
      "fst (snd pg') = (if ks = [] then fst (snd pg) else Some (last ks))"
      "snd (snd pg') \<longleftrightarrow> Suc page_size < length ?all"
    using assms j by (auto simp: mem_page_def Let_def split: if_splits)
  have "length (keys_from (fst pg) (Some (last ks)) b1) < length ?all" if "snd (snd pg')"
  proof -
    have ne: "ks \<noteq> []" using r(2,5) that by auto
    have l: "last ks \<in> set ?all" using r(2) last_in_set [OF ne] in_set_takeD by fast
    have "keys_from (fst pg) (Some (last ks)) b1 = filter (\<lambda>k. last ks < k) ?all"
      using l by (auto simp: keys_from_def intro!: filter_cong split: option.splits)
    with l length_filter_less [of "last ks" ?all "\<lambda>k. last ks < k"] show ?thesis by simp
  qed
  moreover have "snd (snd pg') \<Longrightarrow> ks \<noteq> []" using r(2,5) by auto
  ultimately show ?thesis
    using assms(2) keys_from_contents [OF c] by (auto simp: pages_left_def r)
qed

lemma judge_calm: "verdicts b = [] \<Longrightarrow> judge b = (Goes, b)"
  by (simp add: judge_def)

section \<open>Properties\<close>

text \<open>
  C21. On remote storage, deleting a stream's folder pages through the whole listing: when it reports
  success every object of the stream is gone, however many pages there are, and no object of another
  stream or channel is touched, whatever call fails. The disk is not involved.
\<close>

theorem r2_delete_exact:
  assumes "s3_service cl bkt obj ok pending" "ok (bucket s)" "isValidID c" "isValidID sid"
    and "st_DeleteFolder (R2Storage mime n \<lparr>Client = cl, Bucket = bkt, PublicURL = url\<rparr>) (StreamPrefix c sid) s = (r, s')"
    and "isValidID c'" "isValidID sid'" "isValidID f" "kind_ok k"
  shows "disk s' = disk s \<and>
    (if (c', sid') = (c, sid)
     then (r = Inr () \<longrightarrow> obj (bucket s') (key_of k c' sid' f) = None)
     else obj (bucket s') (key_of k c' sid' f) = obj (bucket s) (key_of k c' sid' f))"
  by (rule s3_service.folder_deleted [OF assms])

text \<open>
  A listing that succeeds is complete and exact over all its pages: listing a stream's build
  folder yields exactly the builds the bucket holds, and changes nothing.
\<close>

theorem r2_list_exact:
  assumes "s3_service cl bkt obj ok pending" "ok (bucket s)"
    and "st_List (R2Storage mime n \<lparr>Client = cl, Bucket = bkt, PublicURL = url\<rparr>) (VodPrefix c sid) s = (Inr ks, s')"
  shows "set ks = {k. has_prefix k (VodPrefix c sid) \<and> obj (bucket s) k \<noteq> None} \<and> obj (bucket s') = obj (bucket s)"
  by (rule s3_service.folder_listed [OF assms])

text \<open>Two streams, one with three objects, served in pages of one key.\<close>

definition paged :: "s3_bucket stores" where
  "paged = \<lparr>disk = \<lparr>files = [], dirs = [''tmp''], os_faults = [], serial = 0\<rparr>,
     bucket = \<lparr>contents = [(RawKey ''ch'' ''s1'' ''g'', ''2''), (RawKey ''ch'' ''s1'' ''f'', ''1''),
       (VodKey ''ch'' ''s1'' ''v'' ''.mp4'', ''3''), (RawKey ''ch'' ''s10'' ''f'', ''4'')], verdicts = []\<rparr>\<rparr>"

definition paged_storage :: "s3_bucket stores storage" where
  "paged_storage = R2Storage (\<lambda>_. []) 9 \<lparr>Client = memory_s3 0, Bucket = ''b'', PublicURL = []\<rparr>"

theorem r2_delete_exact_witness:
  "map_of (contents (bucket (snd (st_DeleteFolder paged_storage (StreamPrefix ''ch'' ''s1'') paged))))
     (key_of Raw ''ch'' ''s1'' ''f'') = None \<and>
   map_of (contents (bucket (snd (st_DeleteFolder paged_storage (StreamPrefix ''ch'' ''s1'') paged))))
     (key_of Raw ''ch'' ''s10'' ''f'') = Some ''4''"
proof -
  let ?d = "st_DeleteFolder paged_storage (StreamPrefix ''ch'' ''s1'') paged"
  have v: "isValidID ''ch''" "isValidID ''s1''" "isValidID ''s10''" "isValidID ''f''" "kind_ok Raw" by code_simp+
  have d: "?d = (Inr (), snd ?d)" by code_simp
  have o: "map_of (contents (bucket paged)) (key_of Raw ''ch'' ''s10'' ''f'') = Some ''4''" by code_simp
  note E = r2_delete_exact [OF mem.s3_service_axioms TrueI v(1,2) d [unfolded paged_storage_def], folded paged_storage_def]
  show ?thesis using E [OF v(1,2,4,5)] E [OF v(1,3,4,5)] o by simp
qed

theorem r2_list_exact_witness:
  "fst (st_List paged_storage (VodPrefix ''ch'' ''s1'') paged) = Inr [VodKey ''ch'' ''s1'' ''v'' ''.mp4''] \<and>
   {k. has_prefix k (VodPrefix ''ch'' ''s1'') \<and> map_of (contents (bucket paged)) k \<noteq> None} = {VodKey ''ch'' ''s1'' ''v'' ''.mp4''}"
proof -
  let ?l = "st_List paged_storage (VodPrefix ''ch'' ''s1'') paged"
  have l: "fst ?l = Inr [VodKey ''ch'' ''s1'' ''v'' ''.mp4'']" by code_simp
  then have "?l = (Inr [VodKey ''ch'' ''s1'' ''v'' ''.mp4''], snd ?l)" by (metis prod.collapse)
  from r2_list_exact [OF mem.s3_service_axioms TrueI this [unfolded paged_storage_def]] l
  show ?thesis by simp
qed

text \<open>
  Deleting a folder comes to an end: on a service that serves its pages and never fails, a context
  that lives for more page requests than the bucket has objects is enough for the deletion to succeed.
\<close>

theorem r2_delete_completes:
  assumes "verdicts (bucket s) = []" "length (contents (bucket s)) < n" "Client st = memory_s3 page_size"
  shows "fst (st_DeleteFolder (R2Storage mime n st) p s) = Inr ()"
proof -
  have "verdicts b = [] \<Longrightarrow> pages_left pg b \<le> n \<Longrightarrow> fst (r2_delete_pages n st pre pg b) = Inr ()" for n pre pg b
  proof (induction n arbitrary: pg b)
    case 0
    then show ?case by (simp add: assms(3) memory_s3_def pages_left_def split: if_splits)
  next
    case (Suc n)
    show ?case
    proof (cases "snd (snd pg)")
      case False
      then show ?thesis by (simp add: assms(3) memory_s3_def)
    next
      case True
      obtain ks pg1 where pg1: "mem_page page_size pg b = (Inr ks, pg1, b)"
        using judge_calm [OF Suc.prems(1)] by (simp add: mem_page_def Let_def)
      let ?b2 = "b\<lparr>contents := filter (\<lambda>kx. fst kx \<notin> set ks) (contents b)\<rparr>"
      have less: "pages_left pg1 b \<le> n" using page_progress [OF pg1 True] Suc.prems(2) by simp
      have "pages_left pg1 ?b2 \<le> n"
        using pages_left_mono [of ?b2 "\<lambda>kx. fst kx \<notin> set ks" b pg1] less by simp
      then have "fst (r2_delete_pages n st pre pg1 ?b2) = Inr ()" using Suc.IH [of ?b2 pg1] Suc.prems(1) by simp
      moreover have "mem_delete ks b = (Inr [], ?b2)" using judge_calm [OF Suc.prems(1)] by (simp add: mem_delete_def)
      ultimately show ?thesis
        using True pg1 Suc.IH [OF Suc.prems(1) less] by (simp add: assms(3) memory_s3_def)
    qed
  qed
  moreover have "pages_left (pre, None, True) (bucket s) \<le> n" for pre
    using assms(2) by (simp add: pages_left_def length_keys_from) (meson Suc_leI le_less_trans length_filter_le length_map)
  ultimately show ?thesis
    using assms(1) by (simp add: R2Storage_def on_bucket_def r2_DeleteFolder_def Let_def assms(3) memory_s3_def
        split: prod.splits) (metis fst_conv)
qed

theorem r2_delete_completes_witness: "fst (st_DeleteFolder paged_storage (StreamPrefix ''ch'' ''s1'') paged) = Inr ()"
  using r2_delete_completes [of paged 9 "\<lparr>Client = memory_s3 0, Bucket = ''b'', PublicURL = []\<rparr>" 0]
  by (simp add: paged_storage_def) (simp add: paged_def)

end
