(* ===== verification/R2_Cleanup.thy ===== *)
theory R2_Cleanup
  imports R2_Storage
begin

text \<open>
  \<^verbatim>\<open>cmd/r2-cleanup/main.go\<close>: deleting every object under a raw key prefix. The tool runs under the
  background context, so nothing bounds its loop: the model is given a number of page requests and
  returns \<^const>\<open>None\<close> while it is still running after them.
\<close>

datatype cleanup_end = Cleanup_Usage | Cleanup_Fatal string | Cleanup_Done nat

definition cleanup_prefix :: "string \<Rightarrow> string" where
  "cleanup_prefix arg = (if arg = ''*'' \<or> arg = ''/'' then [] else arg)"

fun cleanup_pages :: "nat \<Rightarrow> ('b, 'p) r2 \<Rightarrow> 'p \<Rightarrow> nat \<Rightarrow> 'b \<Rightarrow> cleanup_end option \<times> 'b" where
  "cleanup_pages 0 s pg deleted b =
     (if s3_HasMorePages (Client s) pg then (None, b) else (Some (Cleanup_Done deleted), b))"
| "cleanup_pages (Suc n) s pg deleted b =
     (if \<not> s3_HasMorePages (Client s) pg then (Some (Cleanup_Done deleted), b)
      else (case s3_NextPage (Client s) pg b of
          (Inl e, pg1, b1) \<Rightarrow> (Some (Cleanup_Fatal (''Failed to list objects: '' @ err_text e)), b1)
        | (Inr ks, pg1, b1) \<Rightarrow>
           (if ks = [] then cleanup_pages n s pg1 deleted b1
            else (case s3_DeleteObjects (Client s) (Bucket s) ks b1 of
                (Inl e, b2) \<Rightarrow> cleanup_pages n s pg1 deleted b2
              | (Inr errs, b2) \<Rightarrow> cleanup_pages n s pg1 (deleted + length ks) b2))))"

text \<open>\<open>client\<close> is \<^verbatim>\<open>storage.NewR2Storage\<close> of the configuration.\<close>

definition cleanup_main ::
  "nat \<Rightarrow> string \<Rightarrow> config res \<Rightarrow> (r2_config \<Rightarrow> ('b, 'p) r2 res) \<Rightarrow> 'b \<Rightarrow> cleanup_end option \<times> 'b" where
  "cleanup_main n arg loaded client b =
     (if arg = [] then (Some Cleanup_Usage, b)
      else (case loaded of
          Inl e \<Rightarrow> (Some (Cleanup_Fatal (''Failed to load config: '' @ err_text e)), b)
        | Inr cfg \<Rightarrow>
           (let c = cfg_R2 cfg in
            if cfg_StorageType cfg \<noteq> ''r2''
            then (Some (Cleanup_Fatal (''Config storage type is not r2. It is '' @ cfg_StorageType cfg)), b)
            else if r2_AccountId c = [] \<or> r2_AccessKeyId c = [] \<or> r2_SecretAccessKey c = [] \<or> r2_Bucket c = []
            then (Some (Cleanup_Fatal ''Missing R2 configuration in config file.''), b)
            else (case client c of
                Inl e \<Rightarrow> (Some (Cleanup_Fatal (''Unable to initialize R2 client: '' @ err_text e)), b)
              | Inr s \<Rightarrow> cleanup_pages n s (s3_NewPaginator (Client s) (Bucket s) (cleanup_prefix arg)) 0 b))))"

section \<open>Only keys with the prefix go\<close>

context s3_service
begin

lemma cleanup_pages_effect:
  assumes "cleanup_pages n s pg deleted b = (r, b')" "Client s = cl" "Bucket s = bkt" "ok b"
  shows "ok b' \<and> (\<forall>k. \<not> pending pg k \<longrightarrow> obj b' k = obj b k) \<and> (\<forall>k. obj b' k = None \<or> obj b' k = obj b k)"
  using assms
proof (induction n arbitrary: pg deleted b)
  case 0
  then show ?case by (auto split: if_splits)
next
  case (Suc n)
  show ?case
  proof (cases "s3_HasMorePages cl pg")
    case False
    with Suc.prems show ?thesis by auto
  next
    case True
    obtain nr pg1 b1 where np: "s3_NextPage cl pg b = (nr, pg1, b1)" by (metis prod_cases3)
    note N = next_page [OF Suc.prems(4) True np]
    show ?thesis
    proof (cases nr)
      case (Inl e)
      with Suc.prems True np N show ?thesis by auto
    next
      case (Inr ks)
      obtain dr b2 where d: "s3_DeleteObjects cl bkt ks b1 = (dr, b2)" by fastforce
      have D: "ok b2" "\<forall>j. j \<notin> set ks \<longrightarrow> obj b2 j = obj b j" "\<forall>j. obj b2 j = None \<or> obj b2 j = obj b j"
        using delete [OF _ d] N by simp_all
      obtain deleted' b3 where b3: "cleanup_pages n s pg1 deleted' b3 = (r, b')" "b3 = b1 \<or> b3 = b2"
        using Suc.prems True np Inr d by (auto split: if_splits sum.splits)
      have o3: "ok b3" "\<forall>j. j \<notin> set ks \<longrightarrow> obj b3 j = obj b j" "\<forall>j. obj b3 j = None \<or> obj b3 j = obj b j"
        using b3(2) D N by auto
      from Suc.IH [OF b3(1) Suc.prems(2,3) o3(1)]
      have I: "ok b'" "\<forall>k. \<not> pending pg1 k \<longrightarrow> obj b' k = obj b3 k" "\<forall>k. obj b' k = None \<or> obj b' k = obj b3 k" by auto
      have "obj b' k = obj b k" if "\<not> pending pg k" for k
        using I(2) o3(2) N Inr that by metis
      moreover have "obj b' k = None \<or> obj b' k = obj b k" for k using I(3) o3(3) by metis
      ultimately show ?thesis using I(1) by blast
    qed
  qed
qed

end

section \<open>The loop ends and its report\<close>

text \<open>
  What ends the loop is the listing: \<open>pages\<close> bounds the page requests that are left, each page that is
  served takes one off, and deletions add none. The service promises it while nothing else writes to
  the bucket.
\<close>

locale paged_service = s3_service cl bkt obj ok pending
  for cl :: "('b, 'p) s3_client" and bkt and obj and ok and pending +
  fixes pages :: "'p \<Rightarrow> 'b \<Rightarrow> nat"
  assumes more_left: "s3_HasMorePages cl pg \<Longrightarrow> 0 < pages pg b"
    and page_served: "ok b \<Longrightarrow> s3_HasMorePages cl pg \<Longrightarrow> s3_NextPage cl pg b = (Inr ks, pg', b') \<Longrightarrow>
      pages pg' b' < pages pg b"
    and none_added: "ok b \<Longrightarrow> s3_DeleteObjects cl bkt ks b = (dr, b') \<Longrightarrow> pages pg b' \<le> pages pg b"
begin

lemma cleanup_pages_ends:
  assumes "Client s = cl" "Bucket s = bkt" "ok b" "pages pg b \<le> n"
  shows "fst (cleanup_pages n s pg deleted b) \<noteq> None"
  using assms(3,4)
proof (induction n arbitrary: pg deleted b)
  case 0
  then show ?case using more_left [of pg b] by (auto simp: assms(1))
next
  case (Suc n)
  show ?case
  proof (cases "s3_HasMorePages cl pg")
    case True
    obtain nr pg1 b1 where np: "s3_NextPage cl pg b = (nr, pg1, b1)" by (metis prod_cases3)
    show ?thesis
    proof (cases nr)
      case (Inl e)
      with np True show ?thesis by (simp add: assms(1))
    next
      case (Inr ks)
      have k1: "ok b1" using next_page [OF Suc.prems(1) True np] by simp
      have less: "pages pg1 b1 \<le> n" using page_served [OF Suc.prems(1) True np [unfolded Inr]] Suc.prems(2) by simp
      obtain dr b2 where d: "s3_DeleteObjects cl bkt ks b1 = (dr, b2)" by fastforce
      have k2: "ok b2" using delete [OF k1 d] by simp
      have "pages pg1 b2 \<le> n" using none_added [OF k1 d, of pg1] less by simp
      note IHs = Suc.IH [OF k1 less, of deleted] Suc.IH [OF k2 this, of deleted] Suc.IH [OF k2 this, of "deleted + length ks"]
      from np Inr True d IHs show ?thesis by (auto simp: assms(1,2) split: sum.splits)
    qed
  qed (simp add: assms(1))
qed

lemma cleanup_run:
  assumes "client (cfg_R2 cfg) = Inr s" "Client s = cl" "Bucket s = bkt" "ok b"
    and "pages (s3_NewPaginator cl bkt (cleanup_prefix arg)) b \<le> n"
    and "cleanup_main n arg (Inr cfg) client b = (r, b')"
  shows "r \<noteq> None \<and> (\<forall>k. \<not> has_prefix k (cleanup_prefix arg) \<longrightarrow> obj b' k = obj b k) \<and>
    (\<forall>k. obj b' k = None \<or> obj b' k = obj b k)"
proof (cases "cleanup_main n arg (Inr cfg) client b =
    cleanup_pages n s (s3_NewPaginator cl bkt (cleanup_prefix arg)) 0 b")
  case True
  then have c: "cleanup_pages n s (s3_NewPaginator cl bkt (cleanup_prefix arg)) 0 b = (r, b')" using assms(6) by simp
  from cleanup_pages_ends [OF assms(2-5), of 0] cleanup_pages_effect [OF c assms(2-4)] show ?thesis
    by (simp add: c first_page)
next
  case False
  then show ?thesis using assms(1-3,6) by (auto simp: cleanup_main_def Let_def split: if_splits)
qed

end

interpretation mem: paged_service "memory_s3 page_size" bkt "\<lambda>b. map_of (contents b)" "\<lambda>_. True" mem_pending pages_left
  for page_size bkt
proof
  fix b b' pg pg' ks
  assume "s3_HasMorePages (memory_s3 page_size) pg" "s3_NextPage (memory_s3 page_size) pg b = (Inr ks, pg', b')"
  then show "pages_left pg' b' < pages_left pg b" by (intro page_progress) (simp_all add: memory_s3_def)
next
  fix b b' ks dr pg
  assume "s3_DeleteObjects (memory_s3 page_size) bkt ks b = (dr, b')"
  then have "contents b' = filter (\<lambda>_. True) (contents b) \<or> contents b' = filter (\<lambda>kx. fst kx \<notin> set ks) (contents b)"
    by (auto simp: memory_s3_def mem_delete_def split: prod.splits if_splits dest!: judge_contents)
  then show "pages_left pg b' \<le> pages_left pg b" using pages_left_mono by blast
qed (simp add: memory_s3_def pages_left_def)

text \<open>
  C39. The cleanup tool deletes only keys under the prefix it is given (all keys for \<^verbatim>\<open>*\<close> and \<^verbatim>\<open>/\<close>), whatever
  calls fail, and it never changes an object it does not delete. It ends: on any service whose listing
  runs out, it has stopped after at most as many page requests as the listing of its prefix has pages
  when it starts, even when deletions fail.
\<close>

theorem cleanup_ends_within_prefix:
  assumes "paged_service cl bkt obj ok pending pages"
    and "client (cfg_R2 cfg) = Inr \<lparr>Client = cl, Bucket = bkt, PublicURL = url\<rparr>" "ok b"
    and "pages (s3_NewPaginator cl bkt (if arg = ''*'' \<or> arg = ''/'' then [] else arg)) b \<le> n"
    and "cleanup_main n arg (Inr cfg) client b = (r, b')"
  shows "r \<noteq> None \<and>
    (\<forall>k. arg \<noteq> ''*'' \<longrightarrow> arg \<noteq> ''/'' \<longrightarrow> \<not> has_prefix k arg \<longrightarrow> obj b' k = obj b k) \<and>
    (\<forall>k. obj b' k = None \<or> obj b' k = obj b k)"
  using paged_service.cleanup_run [OF assms(1,2) _ _ assms(3) assms(4) [folded cleanup_prefix_def] assms(5)]
  by (simp add: cleanup_prefix_def)

definition cleanup_config :: config where
  "cleanup_config = \<lparr>cfg_ApiKey = [], cfg_ArchiveURL = [], cfg_ArchiveKey = [], cfg_StorageType = ''r2'',
     cfg_R2 = \<lparr>r2_AccountId = ''a'', r2_AccessKeyId = ''i'', r2_SecretAccessKey = ''s'', r2_Bucket = ''b'', r2_PublicUrl = []\<rparr>,
     cfg_Channels = [], cfg_Discord = \<lparr>dc_WebhookURL = [], dc_AdminWebhookURL = [], dc_NotifyUserID = [],
       dc_NotifyRoleID = [], dc_TranscriptBaseURL = [], dc_Bot = \<lparr>bot_Token = [], bot_ChannelIDs = [],
       bot_ChannelMap = [], bot_StreamTTLMinutes = 0\<rparr>\<rparr>\<rparr>"

definition cleanup_client :: "r2_config \<Rightarrow> (s3_bucket, s3_position) r2 res" where
  "cleanup_client c = Inr \<lparr>Client = memory_s3 0, Bucket = ''b'', PublicURL = []\<rparr>"

theorem cleanup_ends_within_prefix_witness:
  "\<exists>r b'. cleanup_main 5 ''ch/s10'' (Inr cleanup_config) cleanup_client (bucket paged) = (r, b') \<and> r \<noteq> None \<and>
     map_of (contents b') (RawKey ''ch'' ''s1'' ''f'') = Some ''1''"
proof -
  obtain r b' where r: "cleanup_main 5 ''ch/s10'' (Inr cleanup_config) cleanup_client (bucket paged) = (r, b')" by fastforce
  have p: "pages_left (s3_NewPaginator (memory_s3 0) ''b'' (if ''ch/s10'' = ''*'' \<or> ''ch/s10'' = ''/'' then [] else ''ch/s10''))
      (bucket paged) \<le> 5" by code_simp
  have "\<not> has_prefix (RawKey ''ch'' ''s1'' ''f'') ''ch/s10''" by code_simp
  moreover have "map_of (contents (bucket paged)) (RawKey ''ch'' ''s1'' ''f'') = Some ''1''" by code_simp
  ultimately show ?thesis
    using cleanup_ends_within_prefix [OF mem.paged_service_axioms cleanup_client_def TrueI p r] r by simp
qed

text \<open>
  The tool counts what it asked to delete, not what was deleted: when the service refuses an object
  without failing the call, the object stays and is still reported as deleted. (\<open>DeleteFolder\<close> of the
  server reports the same answer as an error.)
\<close>

theorem cleanup_counts_refused_objects:
  "let b = (bucket paged)\<lparr>contents := [(''ch/x'', ''1'')], verdicts := [Goes, Leaves]\<rparr> in
     fst (cleanup_main 5 ''ch/'' (Inr cleanup_config) cleanup_client b) = Some (Cleanup_Done 1) \<and>
     contents (snd (cleanup_main 5 ''ch/'' (Inr cleanup_config) cleanup_client b)) = contents b"
  by code_simp

end
