(* ===== verification/FFmpeg.thy ===== *)
theory FFmpeg
  imports World
begin

text \<open>
  \<^verbatim>\<open>internal/media/processor.go\<close>: the \<^verbatim>\<open>FFmpeg\<close> implementation of the media processor, as the command
  lines it runs. \<open>exec\<close> is \<^verbatim>\<open>exec.Command(..).CombinedOutput\<close>: what the program does to the disk, its
  error and its output. Times are finite float64 values in units of the smallest subnormal
  (2^-1074), so every one is an integer; negative zero is the integer 0.
\<close>

section \<open>Float64 arithmetic on the times\<close>

fun bit_length :: "nat \<Rightarrow> nat" where
  "bit_length n = (if n = 0 then 0 else Suc (bit_length (n div 2)))"

declare bit_length.simps [simp del]

text \<open>Division rounded to the nearest integer, ties to even.\<close>

definition div_even :: "nat \<Rightarrow> nat \<Rightarrow> nat" where
  "div_even a b =
     (let q = a div b; r = a mod b
      in if 2 * r < b \<or> (2 * r = b \<and> even q) then q else q + 1)"

text \<open>An exact magnitude rounded to 53 significant bits.\<close>

definition round53 :: "nat \<Rightarrow> nat" where
  "round53 n = (let e = bit_length n - 53 in div_even n (2 ^ e) * 2 ^ e)"

datatype f64 = Finite int | Infinite bool \<comment> \<open>\<^const>\<open>True\<close> is +Inf\<close>

definition f64_of_units :: "int \<Rightarrow> f64" where
  "f64_of_units x =
     (let m = round53 (nat \<bar>x\<bar>)
      in if 2 ^ (1024 + 1074) \<le> m then Infinite (0 < x) else Finite (sgn x * int m))"

definition f64_sub :: "int \<Rightarrow> int \<Rightarrow> f64" where
  "f64_sub a b = f64_of_units (a - b)"

definition f64_nonpos :: "f64 \<Rightarrow> bool" where
  "f64_nonpos x = (case x of Finite n \<Rightarrow> n \<le> 0 | Infinite pos \<Rightarrow> \<not> pos)"

text \<open>\<^verbatim>\<open>%f\<close>: six decimals of the exact value, ties to even.\<close>

definition pad6 :: "string \<Rightarrow> string" where
  "pad6 s = replicate (6 - length s) CHR ''0'' @ s"

definition format_f :: "f64 \<Rightarrow> string" where
  "format_f x =
     (case x of
        Infinite pos \<Rightarrow> (if pos then ''+Inf'' else ''-Inf'')
      | Finite n \<Rightarrow>
          (let micros = div_even (nat \<bar>n\<bar> * 10 ^ 6) (2 ^ 1074)
           in (if n < 0 then ''-'' else []) @ nat_digits (micros div 10 ^ 6) @ ''.'' @ pad6 (nat_digits (micros mod 10 ^ 6))))"

section \<open>The commands\<close>

type_synonym exec = "string list \<Rightarrow> disk \<Rightarrow> (gerr option \<times> string) \<times> disk"

definition run_ffmpeg :: "exec \<Rightarrow> string \<Rightarrow> string list \<Rightarrow> disk \<Rightarrow> unit res \<times> disk" where
  "run_ffmpeg exec what args d =
     (case exec (''ffmpeg'' # args) d of
        ((None, out), d1) \<Rightarrow> (Inr (), d1)
      | ((Some e, out), d1) \<Rightarrow>
          (Inl (ErrOther (''ffmpeg '' @ what @ '' failed: '' @ err_text e @ '', output: '' @ out)), d1))"

definition ff_Remux :: "exec \<Rightarrow> string \<Rightarrow> string \<Rightarrow> disk \<Rightarrow> unit res \<times> disk" where
  "ff_Remux exec inp out =
     run_ffmpeg exec ''conversion'' [''-i'', inp, ''-c'', ''copy'', ''-movflags'', ''+faststart'', ''-y'', out]"

definition ff_Convert :: "exec \<Rightarrow> string \<Rightarrow> string \<Rightarrow> disk \<Rightarrow> unit res \<times> disk" where
  "ff_Convert exec inp out =
     run_ffmpeg exec ''conversion'' [''-i'', inp, ''-vn'', ''-movflags'', ''+faststart'', ''-y'', out]"

definition ff_ExtractFrame :: "exec \<Rightarrow> string \<Rightarrow> string \<Rightarrow> int \<Rightarrow> disk \<Rightarrow> unit res \<times> disk" where
  "ff_ExtractFrame exec inp out height =
     run_ffmpeg exec ''frame extraction''
       [''-i'', inp, ''-vframes'', ''1'', ''-vf'', ''scale=-1:'' @ format_int height, ''-q:v'', ''5'', ''-y'', out]"

definition ff_Trim :: "exec \<Rightarrow> string \<Rightarrow> string \<Rightarrow> int \<Rightarrow> int \<Rightarrow> disk \<Rightarrow> unit res \<times> disk" where
  "ff_Trim exec inp out start stop d =
     (let duration = f64_sub stop start
      in if f64_nonpos duration
         then (Inl (ErrOther (''invalid duration: '' @ format_f duration)), d)
         else run_ffmpeg exec ''trim''
           [''-ss'', format_f (Finite start), ''-i'', inp, ''-t'', format_f duration, ''-c'', ''copy'',
            ''-avoid_negative_ts'', ''make_zero'', ''-movflags'', ''+faststart'', ''-y'', out] d)"

definition FFmpeg_processor :: "exec \<Rightarrow> processor" where
  "FFmpeg_processor exec =
     \<lparr>p_Convert = ff_Convert exec, p_Remux = ff_Remux exec, p_Trim = ff_Trim exec,
      p_ExtractFrame = ff_ExtractFrame exec\<rparr>"

section \<open>Trimming\<close>

lemma bit_length_bounds: "0 < n \<Longrightarrow> 2 ^ (bit_length n - 1) \<le> n \<and> n < 2 ^ bit_length n \<and> 0 < bit_length n"
proof (induction n rule: bit_length.induct)
  case (1 n)
  show ?case
  proof (cases "n div 2 = 0")
    case True
    with 1 have "n = 1" by (simp add: div_eq_0_iff)
    then show ?thesis by (simp add: bit_length.simps)
  next
    case False
    with 1 have IH: "2 ^ (bit_length (n div 2) - 1) \<le> n div 2" "n div 2 < 2 ^ bit_length (n div 2)"
      "0 < bit_length (n div 2)" by simp_all
    have b: "bit_length n = Suc (bit_length (n div 2))" using 1 by (simp add: bit_length.simps [of n])
    obtain k where k: "bit_length (n div 2) = Suc k" using IH(3) by (cases "bit_length (n div 2)") auto
    show ?thesis using IH(1,2) b k by simp linarith
  qed
qed

lemma div_even_pos: "b \<le> a \<Longrightarrow> 0 < b \<Longrightarrow> 0 < div_even a b"
  by (simp add: div_even_def Let_def div_greater_zero_iff)

lemma div_even_mono_bound: "a \<le> c * b \<Longrightarrow> 0 < b \<Longrightarrow> div_even a b \<le> c"
proof (cases "a = c * b")
  case True
  assume "0 < b"
  with True show ?thesis by (simp add: div_even_def)
next
  case False
  assume "a \<le> c * b" "0 < b"
  with False have "a div b < c" by (simp add: div_less_iff_less_mult)
  then show ?thesis by (auto simp: div_even_def Let_def)
qed

text \<open>Rounding never loses a positive magnitude, and a bound by a power of two survives it.\<close>

lemma round53_pos: "0 < n \<Longrightarrow> 0 < round53 n"
proof -
  assume n: "0 < n"
  have "2 ^ (bit_length n - 53) \<le> (2::nat) ^ (bit_length n - 1)" by (intro power_increasing) auto
  with bit_length_bounds [OF n] have "2 ^ (bit_length n - 53) \<le> n" by linarith
  then show "0 < round53 n" by (simp add: round53_def Let_def div_even_pos)
qed

lemma div_even_exact [simp]: "0 < b \<Longrightarrow> div_even (c * b) b = c"
  by (simp add: div_even_def)

lemma round53_le_float:
  assumes "n \<le> c * 2 ^ k" "c < 2 ^ 53"
  shows "round53 n \<le> c * 2 ^ k"
proof (cases "bit_length n - 53 \<le> k")
  case True
  let ?e = "bit_length n - 53"
  have pw: "2 ^ (k - ?e) * 2 ^ ?e = (2::nat) ^ k" using True by (simp add: power_add [symmetric])
  then have "n \<le> (c * 2 ^ (k - ?e)) * 2 ^ ?e" using assms(1) by (simp add: mult.assoc)
  then have "div_even n (2 ^ ?e) \<le> c * 2 ^ (k - ?e)" by (intro div_even_mono_bound) auto
  then have "div_even n (2 ^ ?e) * 2 ^ ?e \<le> c * 2 ^ (k - ?e) * 2 ^ ?e" by simp
  then show ?thesis by (simp add: round53_def Let_def mult.assoc pw)
next
  case False
  then have e: "k + 53 < bit_length n" by simp
  then have n: "0 < n" by (auto simp: bit_length.simps intro: gr0I)
  have "c * 2 ^ k < 2 ^ 53 * 2 ^ k" using assms(2) by simp
  also have "\<dots> = 2 ^ (53 + k)" by (simp add: power_add)
  also have "(2::nat) ^ (53 + k) \<le> 2 ^ (bit_length n - 1)" using e by (intro power_increasing) auto
  finally have "c * 2 ^ k < n" using bit_length_bounds [OF n] by linarith
  with assms(1) show ?thesis by simp
qed

text \<open>A finite float64: 53 significant bits and an exponent that does not overflow.\<close>

definition is_f64 :: "int \<Rightarrow> bool" where
  "is_f64 x \<longleftrightarrow> round53 (nat \<bar>x\<bar>) = nat \<bar>x\<bar> \<and> nat \<bar>x\<bar> < 2 ^ (1024 + 1074)"

lemma f64_shape:
  assumes "round53 m = m"
  obtains c k where "m = c * 2 ^ k" "c < 2 ^ 53"
proof -
  let ?e = "bit_length m - 53"
  have m: "m = div_even m (2 ^ ?e) * 2 ^ ?e" using assms by (simp add: round53_def Let_def)
  show ?thesis
  proof (cases "m = 0")
    case True
    with that [of 0 0] show ?thesis by simp
  next
    case False
    then have "m < 2 ^ bit_length m" using bit_length_bounds by simp
    also have "(2::nat) ^ bit_length m \<le> 2 ^ (53 + ?e)" by (intro power_increasing) auto
    finally have "div_even m (2 ^ ?e) * 2 ^ ?e < 2 ^ 53 * 2 ^ ?e" using m by (simp add: power_add)
    then have "div_even m (2 ^ ?e) < 2 ^ 53" by (simp add: mult_less_cancel2)
    with m that show ?thesis by blast
  qed
qed

lemma round53_float:
  assumes "c < 2 ^ 53"
  shows "round53 (c * 2 ^ k) = c * 2 ^ k"
proof (cases "bit_length (c * 2 ^ k) - 53 \<le> k")
  case True
  let ?e = "bit_length (c * 2 ^ k) - 53"
  have pw: "c * 2 ^ k = (c * 2 ^ (k - ?e)) * 2 ^ ?e" using True by (simp add: mult.assoc power_add [symmetric])
  have "div_even ((c * 2 ^ (k - ?e)) * 2 ^ ?e) (2 ^ ?e) = c * 2 ^ (k - ?e)" by (rule div_even_exact) simp
  then have "div_even (c * 2 ^ k) (2 ^ ?e) = c * 2 ^ (k - ?e)" by (simp only: pw [symmetric])
  then show ?thesis by (simp only: round53_def Let_def pw [symmetric])
next
  case False
  then have e: "53 + k \<le> bit_length (c * 2 ^ k) - 1" by simp
  then have n: "0 < c * 2 ^ k" by (cases "c * 2 ^ k = 0") (auto simp: bit_length.simps [of 0])
  have "c * 2 ^ k < 2 ^ (53 + k)" using assms by (simp add: power_add)
  also have "(2::nat) ^ (53 + k) \<le> 2 ^ (bit_length (c * 2 ^ k) - 1)" using e by (intro power_increasing) auto
  finally show ?thesis using bit_length_bounds [OF n] by linarith
qed

lemma round53_le: "n \<le> m \<Longrightarrow> round53 m = m \<Longrightarrow> round53 n \<le> m"
  using round53_le_float by (metis f64_shape)

text \<open>
  C38. A trim request the server accepts (0 <= start < end) always reaches \<^verbatim>\<open>ffmpeg\<close>: the span computed
  in float64 never rounds to zero or overflows and is at most the end time, so the processor's own
  check cannot refuse it.
\<close>

theorem accepted_trim_reaches_ffmpeg:
  assumes "0 \<le> start" "start < stop" "is_f64 stop"
  shows "\<exists>t. f64_sub stop start = Finite t \<and> 0 < t \<and> t \<le> stop \<and>
    p_Trim (FFmpeg_processor exec) inp out start stop d = run_ffmpeg exec ''trim''
      [''-ss'', format_f (Finite start), ''-i'', inp, ''-t'', format_f (Finite t), ''-c'', ''copy'',
       ''-avoid_negative_ts'', ''make_zero'', ''-movflags'', ''+faststart'', ''-y'', out] d"
proof -
  let ?n = "nat (stop - start)" and ?m = "nat stop"
  have n: "0 < ?n" "?n \<le> ?m" using assms by auto
  have r: "0 < round53 ?n" "round53 ?n \<le> ?m" "?m < 2 ^ (1024 + 1074)"
    using round53_pos [OF n(1)] round53_le [OF n(2)] assms by (simp_all add: is_f64_def)
  then have "f64_sub stop start = Finite (int (round53 ?n))"
    using assms by (simp add: f64_sub_def f64_of_units_def Let_def)
  moreover have "0 < int (round53 ?n)" "int (round53 ?n) \<le> stop" using r assms by linarith+
  ultimately show ?thesis
    by (simp add: FFmpeg_processor_def ff_Trim_def f64_nonpos_def)
qed

theorem accepted_trim_reaches_ffmpeg_witness:
  "\<exists>t. f64_sub (3 * 2 ^ 1074) (2 ^ 1074) = Finite t \<and> 0 < t \<and> t \<le> 3 * 2 ^ 1074"
proof -
  have "is_f64 (3 * 2 ^ 1074)" using round53_float [of 3 1074] by (simp add: is_f64_def)
  from accepted_trim_reaches_ffmpeg [OF _ _ this, of "2 ^ 1074"]
  show ?thesis by (simp del: power_numeral) blast
qed

end
