(* ===== verification/Migration.thy ===== *)
theory Migration
  imports Maintenance
begin

text \<open>
  \<^verbatim>\<open>cmd/migrate/main.go\<close>: copying an old database into a new one. The old database is outside the
  schema of the server: what a query on it yields is a cursor, the rows with the outcome of their
  \<^verbatim>\<open>Scan\<close> and the error, if any, that ended the iteration.
\<close>

section \<open>Reading the old database\<close>

record 'r cursor =
  cur_rows :: "'r res list"
  cur_Err :: "gerr option"

record old_stream =
  ost_channel :: string
  ost_id :: string
  ost_title :: string
  ost_start :: string
  ost_live :: bool
  ost_media :: string

record old_line =
  oln_channel :: string
  oln_stream :: string
  oln_id :: int
  oln_file :: string
  oln_timestamp :: int
  oln_segments :: string
  oln_available :: bool

record old_worker =
  owk_key :: string
  owk_version :: string
  owk_build :: string
  owk_seen :: int

text \<open>\<^verbatim>\<open>for rows.Next()\<close> with \<^verbatim>\<open>rows.Scan\<close> and \<^verbatim>\<open>stmt.Exec\<close>; the loop just ends when the cursor fails.\<close>

fun copy_rows :: "('r \<Rightarrow> 'd \<Rightarrow> 'd res) \<Rightarrow> 'r res list \<Rightarrow> 'd \<Rightarrow> 'd conn \<Rightarrow> 'd res \<times> 'd conn" where
  "copy_rows ins [] tx c = (Inr tx, c)"
| "copy_rows ins (Inl e # rs) tx c = (Inl e, c)"
| "copy_rows ins (Inr r # rs) tx c =
     (case tx_exec (ins r) tx c of
        (Inl e, c1) \<Rightarrow> (Inl e, c1)
      | (Inr tx1, c1) \<Rightarrow> copy_rows ins rs tx1 c1)"

text \<open>The shape the three copies share; \<open>relabel\<close> is what is done to the error of the query.\<close>

definition copy_table :: "(gerr \<Rightarrow> gerr) \<Rightarrow> ('r \<Rightarrow> 'd \<Rightarrow> 'd res) \<Rightarrow> 'r cursor res \<Rightarrow> 'd conn \<Rightarrow> unit res \<times> 'd conn" where
  "copy_table relabel ins old c =
     (case old of
        Inl e \<Rightarrow> (Inl (relabel e), c)
      | Inr cur \<Rightarrow> (case begin_tx c of
          (Inl e, c1) \<Rightarrow> (Inl e, c1)
        | (Inr tx, c1) \<Rightarrow> (case tx_prepare c1 of
            (Inl e, c2) \<Rightarrow> (Inl e, c2)
          | (Inr _, c2) \<Rightarrow> (case copy_rows ins (cur_rows cur) tx c2 of
              (Inl e, c3) \<Rightarrow> (Inl e, c3)
            | (Inr tx1, c3) \<Rightarrow> tx_commit tx1 c3))))"

section \<open>The three copies\<close>

definition ins_stream :: "old_stream \<Rightarrow> db \<Rightarrow> db res" where
  "ins_stream o_s d =
     (let activated = (case parse_int (ost_start o_s) of Some t \<Rightarrow> t | None \<Rightarrow> 0);
          s = \<lparr>ChannelID = ost_channel o_s, StreamID = ost_id o_s, StreamTitle = ost_title o_s,
               StartTime = ost_start o_s, IsLive = ost_live o_s, MediaType = ost_media o_s,
               ActivatedTime = activated\<rparr>
      in (case insert_row stream_key s (streams d) of Inl e \<Rightarrow> Inl e | Inr ss \<Rightarrow> Inr (d\<lparr>streams := ss\<rparr>)))"

definition migrateStreams :: "old_stream cursor res \<Rightarrow> dbconn \<Rightarrow> unit res \<times> dbconn" where
  "migrateStreams = copy_table (\<lambda>e. ErrOther (''query streams: '' @ err_text e)) ins_stream"

text \<open>The column \<^verbatim>\<open>vod_accurate\<close> is not mentioned by the statement and takes its default.\<close>

definition migrated_line :: "old_line \<Rightarrow> line" where
  "migrated_line o_l =
     \<lparr>LineID = oln_id o_l, FileID = oln_file o_l, Timestamp = oln_timestamp o_l, Segments = oln_segments o_l,
      MediaAvailable = oln_available o_l, VodAccurate = False\<rparr>"

definition ins_old_line :: "old_line \<Rightarrow> db \<Rightarrow> db res" where
  "ins_old_line o_l = ins_line (oln_channel o_l) (oln_stream o_l) (migrated_line o_l)"

definition migrateTranscripts :: "old_line cursor res \<Rightarrow> dbconn \<Rightarrow> unit res \<times> dbconn" where
  "migrateTranscripts = copy_table (\<lambda>e. ErrOther (''query transcripts: '' @ err_text e)) ins_old_line"

definition ins_worker :: "old_worker \<Rightarrow> db \<Rightarrow> db res" where
  "ins_worker o_w d =
     (case insert_row ChannelKey \<lparr>ChannelKey = owk_key o_w, WorkerVersion = owk_version o_w,
          WorkerBuildTime = owk_build o_w, LastSeen = owk_seen o_w, IsActive = False\<rparr> (worker_rows d) of
        Inl e \<Rightarrow> Inl e | Inr ws \<Rightarrow> Inr (d\<lparr>worker_rows := ws\<rparr>))"

definition migrateWorkerStatus :: "old_worker cursor res \<Rightarrow> dbconn \<Rightarrow> unit res \<times> dbconn" where
  "migrateWorkerStatus = copy_table (\<lambda>e. e) ins_worker"

section \<open>The tool\<close>

text \<open>
  \<^verbatim>\<open>EnsureSchema\<close> of the store: one \<^verbatim>\<open>CREATE TABLE IF NOT EXISTS\<close> per table, each of which may fail.
  The tables of the model always exist.
\<close>

fun create_tables :: "string list \<Rightarrow> dbconn \<Rightarrow> unit res \<times> dbconn" where
  "create_tables [] c = (Inr (), c)"
| "create_tables (t # ts) c =
     (case db_exec (\<lambda>d. Inr (d, ())) c of
        (Inl e, c1) \<Rightarrow> (Inl (ErrOther (''error creating '' @ t @ '' table: '' @ err_text e)), c1)
      | (Inr _, c1) \<Rightarrow> create_tables ts c1)"

definition EnsureSchema :: "dbconn \<Rightarrow> unit res \<times> dbconn" where
  "EnsureSchema = create_tables
     [''streams'', ''transcripts'', ''worker_status'', ''incoming_streams'', ''worker_restart_requests'']"

record old_db =
  old_streams :: "old_stream cursor res"
  old_lines :: "old_line cursor res"
  old_workers :: "old_worker cursor res"

datatype migration = Usage | Fatal string | Completed "gerr option" \<comment> \<open>the warning about the workers\<close>

text \<open>
  \<open>exists_old\<close> is the result of \<^verbatim>\<open>os.Stat\<close> on the old file; \<open>opened_new\<close> and \<open>opened_old\<close> are those of
  \<^verbatim>\<open>sql.Open\<close>.
\<close>

definition migrate_main ::
  "string \<Rightarrow> string \<Rightarrow> unit res \<Rightarrow> unit res \<Rightarrow> old_db res \<Rightarrow> dbconn \<Rightarrow> migration \<times> dbconn" where
  "migrate_main oldPath newPath exists_old opened_new opened_old c =
     (if oldPath = [] \<or> newPath = [] then (Usage, c)
      else if exists_old = Inl ErrNotExist then (Fatal (''Old database file does not exist: '' @ oldPath), c)
      else (case opened_new of
          Inl e \<Rightarrow> (Fatal (''Failed to open new database: '' @ err_text e), c)
        | Inr _ \<Rightarrow> (case EnsureSchema c of
            (Inl e, c1) \<Rightarrow> (Fatal (''Failed to initialize new database schema: '' @ err_text e), c1)
          | (Inr _, c1) \<Rightarrow> (case opened_old of
              Inl e \<Rightarrow> (Fatal (''Failed to open old database: '' @ err_text e), c1)
            | Inr old \<Rightarrow> (case migrateStreams (old_streams old) c1 of
                (Inl e, c2) \<Rightarrow> (Fatal (''Failed to migrate streams: '' @ err_text e), c2)
              | (Inr _, c2) \<Rightarrow> (case migrateTranscripts (old_lines old) c2 of
                  (Inl e, c3) \<Rightarrow> (Fatal (''Failed to migrate transcripts: '' @ err_text e), c3)
                | (Inr _, c3) \<Rightarrow> (case migrateWorkerStatus (old_workers old) c3 of
                    (Inl e, c4) \<Rightarrow> (Completed (Some e), c4)
                  | (Inr _, c4) \<Rightarrow> (Completed None, c4))))))))"

section \<open>Copies are all or nothing\<close>

lemma copy_rows_db: "copy_rows ins rs tx c = (r, c1) \<Longrightarrow> conn_db c1 = conn_db c"
  by (induction ins rs tx c rule: copy_rows.induct) (auto dest: tx_exec_db split: prod.splits sum.splits)

lemma copy_rows_Inr:
  "copy_rows ins rs tx c = (Inr tx1, c1) \<Longrightarrow> \<exists>xs. rs = map Inr xs \<and> run_each ins xs tx = Inr tx1"
proof (induction ins rs tx c rule: copy_rows.induct)
  case (3 ins r rs tx c)
  then obtain tx2 c2 where x: "tx_exec (ins r) tx c = (Inr tx2, c2)" "copy_rows ins rs tx2 c2 = (Inr tx1, c1)"
    by (auto split: prod.splits sum.splits)
  from 3(1) [OF x(1) [symmetric] refl x(2)] obtain xs where "rs = map Inr xs" "run_each ins xs tx2 = Inr tx1" by auto
  with tx_exec_Inr [OF x(1)] show ?case by (intro exI [of _ "r # xs"]) simp
qed auto

lemma copy_table_cases:
  assumes "copy_table relabel ins old c = (r, c')"
  obtains (failed) e where "r = Inl e" "conn_db c' = conn_db c"
    | (copied) cur xs where "r = Inr ()" "old = Inr cur" "cur_rows cur = map Inr xs"
        "run_each ins xs (conn_db c) = Inr (conn_db c')"
proof (cases r)
  case (Inl e)
  have "conn_db c' = conn_db c"
    using assms Inl
    by (auto simp: copy_table_def dest!: begin_tx_db tx_prepare_db copy_rows_db dest: tx_commit_Inl
        split: sum.splits prod.splits)
  with Inl failed show ?thesis by blast
next
  case (Inr u)
  then obtain cur tx c1 c2 tx1 c3 where s: "old = Inr cur" "begin_tx c = (Inr tx, c1)" "tx_prepare c1 = (Inr (), c2)"
    "copy_rows ins (cur_rows cur) tx c2 = (Inr tx1, c3)" "tx_commit tx1 c3 = (Inr (), c')"
    using assms by (auto simp: copy_table_def split: sum.splits prod.splits)
  from copy_rows_Inr [OF s(4)] obtain xs where xs: "cur_rows cur = map Inr xs" "run_each ins xs tx = Inr tx1" by auto
  have "run_each ins xs (conn_db c) = Inr (conn_db c')"
    using xs(2) begin_tx_Inr [OF s(2)] tx_commit_Inr [OF s(5)] by simp
  with Inr s(1) xs(1) copied show ?thesis by simp
qed

lemma copy_rows_ok: "faults c = [] \<Longrightarrow> copy_rows ins (map Inr xs) tx c = (run_each ins xs tx, c)"
  by (induction xs arbitrary: tx) (auto simp: tx_exec_def split: sum.splits)

text \<open>What a list of inserted lines leaves in each stream.\<close>

lemma run_ins_old_lines:
  "run_each ins_old_line xs d = Inr d' \<Longrightarrow>
     d' = d\<lparr>transcripts := transcripts d @ map (\<lambda>x. row_of_line (oln_channel x) (oln_stream x) (migrated_line x)) xs\<rparr>"
proof (induction xs arbitrary: d)
  case (Cons x xs)
  then obtain d1 where d1: "ins_old_line x d = Inr d1" "run_each ins_old_line xs d1 = Inr d'"
    by (auto split: sum.splits)
  have "d1 = d\<lparr>transcripts := transcripts d @ [row_of_line (oln_channel x) (oln_stream x) (migrated_line x)]\<rparr>"
    using d1(1) by (auto simp: ins_old_line_def ins_line_def insert_row_def split: if_splits)
  with Cons.IH [OF d1(2)] show ?case by simp
qed simp

definition old_lines_of :: "string \<Rightarrow> string \<Rightarrow> old_line list \<Rightarrow> old_line list" where
  "old_lines_of ch sid xs = filter (\<lambda>x. oln_channel x = ch \<and> oln_stream x = sid) xs"

lemma sel_rows_migrated:
  "sel_rows ch sid (d\<lparr>transcripts := transcripts d @ map (\<lambda>x. row_of_line (oln_channel x) (oln_stream x) (migrated_line x)) xs\<rparr>)
     = sel_rows ch sid d @ map (\<lambda>x. row_of_line ch sid (migrated_line x)) (old_lines_of ch sid xs)"
  by (induction xs) (auto simp: sel_rows_def old_lines_of_def)

text \<open>
  C37. Migrating transcripts into a database that has none copies every line that was read, as it was:
  asked for a stream, the server reads back exactly the old lines of that channel and stream, in line
  order, each with its identifier, media file, timestamp, segments and media flag unchanged; the new
  flag \<^verbatim>\<open>vod_accurate\<close>, which the old table lacks, is off. A migration that reports an error changed
  nothing.
\<close>

theorem migrated_transcripts_read_back:
  assumes "migrateTranscripts (Inr cur) c = (r, c')" "transcripts (conn_db c) = []"
  shows "(\<exists>e. r = Inl e) \<and> conn_db c' = conn_db c \<or>
    r = Inr () \<and> (\<exists>xs. cur_rows cur = map Inr xs \<and>
      (\<forall>ch sid. \<exists>ls. fst (GetTranscript ch sid (c'\<lparr>faults := []\<rparr>)) = Inr ls \<and>
        map (\<lambda>l. (LineID l, FileID l, Timestamp l, Segments l, MediaAvailable l, VodAccurate l)) ls =
        sort_key fst (map (\<lambda>x. (oln_id x, oln_file x, oln_timestamp x, oln_segments x, oln_available x, False))
          (filter (\<lambda>x. oln_channel x = ch \<and> oln_stream x = sid) xs))))"
  using assms(1) unfolding migrateTranscripts_def
proof (cases rule: copy_table_cases)
  case (copied cur' xs)
  have "fst (GetTranscript ch sid (c'\<lparr>faults := []\<rparr>)) = Inr (transcript ch sid (conn_db c'))" for ch sid
    by (simp add: GetTranscript_def transcript_def)
  moreover have "transcript ch sid (conn_db c') = order_asc LineID (map migrated_line (old_lines_of ch sid xs))" for ch sid
    unfolding run_ins_old_lines [OF copied(4)] transcript_def sel_rows_migrated
    by (simp add: sel_rows_def assms(2) order_asc_map o_def)
  moreover have "map (\<lambda>l. (LineID l, FileID l, Timestamp l, Segments l, MediaAvailable l, VodAccurate l))
      (order_asc LineID (map migrated_line ys)) =
    sort_key fst (map (\<lambda>x. (oln_id x, oln_file x, oln_timestamp x, oln_segments x, oln_available x, False)) ys)" for ys
    unfolding order_asc_map order_asc_def [of fst, symmetric] by (simp add: migrated_line_def)
  ultimately show ?thesis using copied by (auto simp: old_lines_of_def)
qed simp

definition old_line_at :: "int \<Rightarrow> old_line" where
  "old_line_at n = \<lparr>oln_channel = ''ch'', oln_stream = ''s'', oln_id = n, oln_file = ''f'', oln_timestamp = 7,
     oln_segments = ''[]'', oln_available = True\<rparr>"

definition empty_conn :: dbconn where
  "empty_conn = \<lparr>conn_db = createSchema, faults = []\<rparr>"

lemma two_lines_migrate:
  "migrateTranscripts (Inr \<lparr>cur_rows = [Inr (old_line_at 1), Inr (old_line_at 0)], cur_Err = e\<rparr>) empty_conn
     = (Inr (), empty_conn\<lparr>conn_db := createSchema\<lparr>transcripts :=
         [row_of_line ''ch'' ''s'' (migrated_line (old_line_at 1)), row_of_line ''ch'' ''s'' (migrated_line (old_line_at 0))]\<rparr>\<rparr>)"
  by (simp add: migrateTranscripts_def copy_table_def sql_defs empty_conn_def createSchema_def ins_old_line_def
      ins_line_def insert_row_def old_line_at_def migrated_line_def row_key_def row_of_line_def)

definition old_lines_sample :: "old_line list" where
  "old_lines_sample =
     [\<lparr>oln_channel = ''ch'', oln_stream = ''s'', oln_id = 1, oln_file = ''f'', oln_timestamp = 7, oln_segments = ''[]'',
       oln_available = True\<rparr>,
      \<lparr>oln_channel = ''other'', oln_stream = ''s'', oln_id = 0, oln_file = ''g'', oln_timestamp = 8, oln_segments = ''[2]'',
       oln_available = True\<rparr>,
      \<lparr>oln_channel = ''ch'', oln_stream = ''s'', oln_id = 0, oln_file = ''h'', oln_timestamp = 9, oln_segments = ''[3]'',
       oln_available = False\<rparr>]"

theorem migrated_transcripts_read_back_witness:
  "\<exists>c' ls. migrateTranscripts (Inr \<lparr>cur_rows = map Inr old_lines_sample, cur_Err = None\<rparr>) empty_conn = (Inr (), c') \<and>
     fst (GetTranscript ''ch'' ''s'' (c'\<lparr>faults := []\<rparr>)) = Inr ls \<and>
     map (\<lambda>l. (LineID l, FileID l, Timestamp l, Segments l, MediaAvailable l, VodAccurate l)) ls =
       [(0, ''h'', 9, ''[3]'', False, False), (1, ''f'', 7, ''[]'', True, False)]"
proof -
  have e: "transcripts (conn_db empty_conn) = []" by (simp add: empty_conn_def createSchema_def)
  obtain c' where m: "migrateTranscripts (Inr \<lparr>cur_rows = map Inr old_lines_sample, cur_Err = None\<rparr>) empty_conn
      = (Inr (), c')"
    by (simp add: migrateTranscripts_def copy_table_def sql_defs empty_conn_def createSchema_def ins_old_line_def
        ins_line_def insert_row_def old_lines_sample_def migrated_line_def row_key_def row_of_line_def)
  have xs: "map Inr old_lines_sample = map Inr xs \<longleftrightarrow> xs = old_lines_sample" for xs
    by (auto simp: inj_map_eq_map)
  obtain ls where l: "fst (GetTranscript ''ch'' ''s'' (c'\<lparr>faults := []\<rparr>)) = Inr ls"
    "map (\<lambda>l. (LineID l, FileID l, Timestamp l, Segments l, MediaAvailable l, VodAccurate l)) ls =
     sort_key fst (map (\<lambda>x. (oln_id x, oln_file x, oln_timestamp x, oln_segments x, oln_available x, False))
       (filter (\<lambda>x. oln_channel x = ''ch'' \<and> oln_stream x = ''s'') old_lines_sample))"
    using migrated_transcripts_read_back [OF m e] unfolding cursor.simps xs by blast
  have "map (\<lambda>l. (LineID l, FileID l, Timestamp l, Segments l, MediaAvailable l, VodAccurate l)) ls =
      [(0, ''h'', 9, ''[3]'', False, False), (1, ''f'', 7, ''[]'', True, False)]"
    unfolding l(2) by (simp add: old_lines_sample_def)
  with l(1) show ?thesis by (intro exI conjI) (rule m)
qed

text \<open>
  None of the copies asks why the rows ended: when reading the old database breaks off after any
  number of rows, the tool commits what it has and reports a completed migration.
\<close>

theorem truncated_migration_completes:
  "migrate_main ''old.db'' ''new.db'' (Inr ()) (Inr ())
     (Inr \<lparr>old_streams = Inr \<lparr>cur_rows = [], cur_Err = Some ErrDriver\<rparr>,
           old_lines = Inr \<lparr>cur_rows = [Inr (old_line_at 1), Inr (old_line_at 0)], cur_Err = Some ErrDriver\<rparr>,
           old_workers = Inr \<lparr>cur_rows = [], cur_Err = Some ErrDriver\<rparr>\<rparr>) empty_conn
   = (Completed None, empty_conn\<lparr>conn_db := createSchema\<lparr>transcripts :=
       [row_of_line ''ch'' ''s'' (migrated_line (old_line_at 1)), row_of_line ''ch'' ''s'' (migrated_line (old_line_at 0))]\<rparr>\<rparr>)"
proof -
  have "EnsureSchema empty_conn = (Inr (), empty_conn)"
    by (simp add: EnsureSchema_def empty_conn_def)
  moreover have "migrateStreams (Inr \<lparr>cur_rows = [], cur_Err = e\<rparr>) empty_conn = (Inr (), empty_conn)" for e
    by (simp add: migrateStreams_def copy_table_def sql_defs empty_conn_def)
  moreover have "migrateWorkerStatus (Inr \<lparr>cur_rows = [], cur_Err = e\<rparr>) (empty_conn\<lparr>conn_db := d\<rparr>)
      = (Inr (), empty_conn\<lparr>conn_db := d\<rparr>)" for e d
    by (simp add: migrateWorkerStatus_def copy_table_def sql_defs empty_conn_def)
  ultimately show ?thesis by (simp add: migrate_main_def two_lines_migrate)
qed

text \<open>
  The tool writes the start time in seconds into a column the server reads in microseconds, so a
  migrated stream is never young: the pruning sweep gives no grace period to a stream that started an
  hour before it was migrated.
\<close>

theorem migrated_streams_look_old:
  assumes "ins_stream o_s createSchema = Inr d" "parse_int (ost_start o_s) = Some t"
    and "0 \<le> t" "t \<le> now div 1000000" "30 * 24 * hour \<le> now"
  shows "\<exists>s. streams d = [s] \<and> StreamID s = ost_id o_s \<and> \<not> too_young now s"
proof -
  let ?s = "\<lparr>ChannelID = ost_channel o_s, StreamID = ost_id o_s, StreamTitle = ost_title o_s,
     StartTime = ost_start o_s, IsLive = ost_live o_s, MediaType = ost_media o_s, ActivatedTime = t\<rparr>"
  have "streams d = [?s]"
    using assms(1,2) by (auto simp: ins_stream_def Let_def insert_row_def createSchema_def)
  moreover have "\<not> too_young now ?s"
    using assms(3-5) by (auto simp: too_young_def hour_def)
  ultimately show ?thesis by simp
qed

definition old_stream_sample :: old_stream where
  "old_stream_sample = \<lparr>ost_channel = ''ch'', ost_id = ''s'', ost_title = ''t'', ost_start = ''1700000000'',
     ost_live = False, ost_media = ''audio''\<rparr>"

theorem migrated_streams_look_old_witness:
  "\<exists>d s. ins_stream old_stream_sample createSchema = Inr d \<and> streams d = [s] \<and> \<not> too_young 1700003600000000 s"
proof -
  obtain d where d: "ins_stream old_stream_sample createSchema = Inr d"
    by (simp add: ins_stream_def Let_def insert_row_def createSchema_def)
  have "parse_int (ost_start old_stream_sample) = Some 1700000000"
    by (simp add: old_stream_sample_def parse_int_def parse_nat_def digit_of_def Let_def has_prefix_def int64_range_def)
  from migrated_streams_look_old [OF d this, of 1700003600000000] d show ?thesis by (auto simp: hour_def)
qed

end
