(* ===== verification/Server_Process.thy ===== *)
theory Server_Process
  imports Routes_Props
begin

text \<open>
  Starting and stopping the server: \<^verbatim>\<open>config.Load\<close>, \<^verbatim>\<open>store.Open\<close> and \<^verbatim>\<open>cmd/web/main.go\<close>. Reading a
  file, decoding YAML, opening a database with a connection string and the gateway of the bot are
  parameters; what is modelled is what the program does with their results, in its order.
\<close>

section \<open>Loading the configuration\<close>

definition config_Load :: "string \<Rightarrow> string res \<Rightarrow> (string \<Rightarrow> config res) \<Rightarrow> config res" where
  "config_Load path data unmarshal =
     (case data of
        Inl e \<Rightarrow> Inl (ErrOther (''unable to read config file '' @ path @ '': '' @ err_text e))
      | Inr bytes \<Rightarrow> (case unmarshal bytes of
          Inl e \<Rightarrow> Inl (ErrOther (''unable to unmarshal '' @ path @ '': '' @ err_text e))
        | Inr cfg \<Rightarrow> (case Validate cfg of
            Some e \<Rightarrow> Inl (ErrOther (''invalid config '' @ path @ '': '' @ err_text e))
          | None \<Rightarrow> Inr cfg)))"

section \<open>Opening the database\<close>

record db_config =
  db_JournalMode :: string
  db_BusyTimeoutMS :: int
  db_Synchronous :: string
  db_CacheSizeKB :: int
  db_TempStore :: string
  db_MmapSizeBytes :: int
  db_SkipWarmup :: bool

definition db_defaults :: "db_config \<Rightarrow> db_config" where
  "db_defaults c = c\<lparr>
     db_JournalMode := (if db_JournalMode c = [] then ''WAL'' else db_JournalMode c),
     db_BusyTimeoutMS := (if db_BusyTimeoutMS c = 0 then 5000 else db_BusyTimeoutMS c),
     db_Synchronous := (if db_Synchronous c = [] then ''NORMAL'' else db_Synchronous c),
     db_CacheSizeKB := (if db_CacheSizeKB c = 0 then 200000 else db_CacheSizeKB c),
     db_TempStore := (if db_TempStore c = [] then ''MEMORY'' else db_TempStore c),
     db_MmapSizeBytes := (if db_MmapSizeBytes c = 0 then 500000000 else db_MmapSizeBytes c)\<rparr>"

text \<open>The connection string: \<^verbatim>\<open>url.Values.Encode\<close> sorts by key; \<open>escape\<close> is \<^verbatim>\<open>url.QueryEscape\<close>.\<close>

definition dsn_params :: "db_config \<Rightarrow> (string \<times> string) list" where
  "dsn_params c =
     [(''_busy_timeout'', format_int (db_BusyTimeoutMS c)), (''_cache_size'', format_int (wrap64 (- db_CacheSizeKB c))),
      (''_foreign_keys'', ''on''), (''_journal_mode'', db_JournalMode c), (''_synchronous'', db_Synchronous c),
      (''_txlock'', ''immediate'')]"

fun encode_params :: "(string \<Rightarrow> string) \<Rightarrow> (string \<times> string) list \<Rightarrow> string" where
  "encode_params escape [] = []"
| "encode_params escape [(k, v)] = escape k @ ''='' @ escape v"
| "encode_params escape ((k, v) # ps) = escape k @ ''='' @ escape v @ ''&'' @ encode_params escape ps"

record open_plan =
  pl_dsn :: string
  pl_pragmas :: "string list" \<comment> \<open>run on every new connection\<close>
  pl_max_conns :: nat
  pl_lifetime :: "int option" \<comment> \<open>microseconds\<close>
  pl_warmup :: bool

definition plan_Open :: "(string \<Rightarrow> string) \<Rightarrow> string \<Rightarrow> db_config \<Rightarrow> open_plan" where
  "plan_Open escape path cfg =
     (let c = db_defaults cfg; memory = (path = '':memory:'')
      in \<lparr>pl_dsn = path @ ''?'' @ encode_params escape (dsn_params c),
          pl_pragmas = [''PRAGMA temp_store='' @ db_TempStore c @ '';'',
                        ''PRAGMA mmap_size='' @ format_int (db_MmapSizeBytes c) @ '';''],
          pl_max_conns = (if memory then 1 else 25),
          pl_lifetime = (if memory then None else Some (5 * 60 * 1000000)),
          pl_warmup = (\<not> db_SkipWarmup c \<and> db_JournalMode c \<noteq> ''MEMORY'' \<and> \<not> memory)\<rparr>)"

text \<open>\<open>connect\<close> is the driver: what it opens for a plan, and the result of creating the schema on it.\<close>

definition store_Open ::
  "(string \<Rightarrow> string) \<Rightarrow> (open_plan \<Rightarrow> dbconn \<times> unit res) \<Rightarrow> string \<Rightarrow> db_config \<Rightarrow> (dbconn \<times> open_plan) res" where
  "store_Open escape connect path cfg =
     (let plan = plan_Open escape path cfg
      in case connect plan of (c, schema) \<Rightarrow>
           (case schema of Inl e \<Rightarrow> Inl e | Inr _ \<Rightarrow> Inr (c, plan)))"

section \<open>The process\<close>

text \<open>
  The world around the process: the environment variables, the file and its decoding, the driver, the
  objects \<^verbatim>\<open>NewApp\<close> builds on, the bot's gateway, and the clock.
\<close>

record 'b launch =
  ln_VERSION :: string
  ln_BUILD_TIME :: string
  ln_config :: "config res"
  ln_database :: db_config
  ln_connect :: "open_plan \<Rightarrow> dbconn \<times> unit res"
  ln_env :: "'b app"
  ln_local :: "'b stores storage"
  ln_remote :: "'b stores storage"
  ln_stores :: "'b stores"
  ln_clock :: int
  ln_bot :: "bot option"
  ln_opened :: "unit res" \<comment> \<open>of the gateway session\<close>

record 'b process =
  pr_app :: "'b app"
  pr_world :: "'b world"
  pr_plan :: open_plan
  pr_bot :: bot_state
  pr_sweeps :: "(sweep \<times> int \<times> bool) list"

datatype 'b started = Exit string | Running "'b process"

text \<open>The bot's start is attempted when one is configured; its failure is only recorded.\<close>

definition start_bot :: "'b launch \<Rightarrow> 'b app \<Rightarrow> bot_state \<times> discord_state \<Rightarrow> bot_state \<times> discord_state" where
  "start_bot l app sd =
     (case ln_bot l of None \<Rightarrow> sd | Some b \<Rightarrow> snd (Start (Discord app) (ln_clock l) (ln_opened l) sd))"

definition web_main :: "'b launch \<Rightarrow> 'b started" where
  "web_main l =
     (let version = (if ln_VERSION l \<noteq> [] then ln_VERSION l else ''local'');
          build_time = (if ln_BUILD_TIME l \<noteq> [] then ln_BUILD_TIME l else ''unknown'')
      in case ln_config l of
           Inl e \<Rightarrow> Exit ''unable to read in config''
         | Inr cfg \<Rightarrow>
            (if cfg_ApiKey cfg = []
             then Exit ''refusing to start: credentials.apiKey is empty; worker endpoints would be unauthenticated''
             else (case store_Open (QueryEscape (ln_env l)) (ln_connect l) (path_join [''tmp'', ''server.db'']) (ln_database l) of
               Inl e \<Rightarrow> Exit ''unable to initialize database''
             | Inr (c, plan) \<Rightarrow>
                (case NewApp (ln_env l) (ln_local l) (ln_remote l) cfg ''tmp'' version build_time of
                   Inl e \<Rightarrow> Exit ''unable to construct app''
                 | Inr app \<Rightarrow>
                    (case run (Init app) (new_world app c (ln_stores l) (ln_clock l)) of
                       (Inl e, w) \<Rightarrow> Exit ''unable to initialize app environment''
                     | (Inr _, w) \<Rightarrow>
                        (case start_bot l app (new_bot_state, discord w) of (b, o_d) \<Rightarrow>
                           Running \<lparr>pr_app = app, pr_world = w\<lparr>discord := o_d\<rparr>, pr_plan = plan, pr_bot = b,
                             pr_sweeps = sweeps app\<rparr>))))))"

text \<open>The endpoints the process adds to the mux. \<open>collectors\<close> is the handler of the metrics library.\<close>

definition healthcheckHandler :: response where
  "healthcheckHandler = reply 200 (Text (''{'' @ [CHR 0x22] @ ''alive'' @ [CHR 0x22] @ '': true}''))"

definition quoted :: "string \<Rightarrow> string" where "quoted s = [CHR 0x22] @ s @ [CHR 0x22]"

definition versionHandler :: "'b app \<Rightarrow> response" where
  "versionHandler app = writeJSON (Text (''{'' @ quoted ''version'' @ '':'' @ quoted (AppVersion app) @ '',''
     @ quoted ''buildTime'' @ '':'' @ quoted (AppBuildTime app) @ ''}''))"

definition global_endpoint :: "'b app \<Rightarrow> response \<Rightarrow> string list \<Rightarrow> response option" where
  "global_endpoint app collectors segs =
     (if segs = [''healthcheck''] then Some healthcheckHandler
      else if segs = [''version''] then Some (versionHandler app)
      else if segs = [''metrics''] then Some collectors
      else None)"

definition serve_process :: "'b app \<Rightarrow> response \<Rightarrow> 'b surroundings \<Rightarrow> request \<Rightarrow> ('b, poll_answer) act" where
  "serve_process app collectors sr r =
     (case (if method_matches ''GET'' (r_Method r) then global_endpoint app collectors (path_segments (r_Path r)) else None) of
        Some resp \<Rightarrow> ret (with_cors (Answer resp))
      | None \<Rightarrow> ServeHTTP app sr r)"

text \<open>
  The shutdown sequence: parked polls are released first, then the server waits for its connections,
  the bot and the application are closed; a failing step is logged and the next one runs.
\<close>

datatype shutdown_step = ReleasePolls | ShutdownHTTP | CloseBot | CloseApp

definition shutdown_sequence :: "bool \<Rightarrow> shutdown_step list" where
  "shutdown_sequence has_bot = [ReleasePolls, ShutdownHTTP] @ (if has_bot then [CloseBot] else []) @ [CloseApp]"

definition shutdown_world :: "shutdown_step \<Rightarrow> 'b world \<Rightarrow> 'b world" where
  "shutdown_world st w = (if st = ReleasePolls then w\<lparr>notifier := Release (notifier w)\<rparr> else w)"

section \<open>A server that runs is ready\<close>

definition fresh_worker :: "string \<Rightarrow> int \<Rightarrow> channel \<Rightarrow> worker_status" where
  "fresh_worker bt now cs = \<lparr>ChannelKey = Key cs, WorkerVersion = ''N/A'', WorkerBuildTime = bt, LastSeen = now,
     IsActive = False\<rparr>"

lemma UpsertWorkerStatus_new:
  assumes "UpsertWorkerStatus k v bt now c = (Inr u, c1)" "k \<notin> ChannelKey ` set (worker_rows (conn_db c))"
  shows "conn_db c1 = (conn_db c)\<lparr>worker_rows := worker_rows (conn_db c) @
     [\<lparr>ChannelKey = k, WorkerVersion = v, WorkerBuildTime = bt, LastSeen = now, IsActive = False\<rparr>]\<rparr>"
  using db_exec_Inr [OF assms(1) [unfolded UpsertWorkerStatus_def]] assms(2)
  by (simp add: worker_table.upsert_new)

lemma seed_workers_Inr:
  "run (seed_workers bt now css) w = (Inr u, w1) \<Longrightarrow> distinct (map Key css) \<Longrightarrow>
   Key ` set css \<inter> ChannelKey ` set (worker_rows (world_db w)) = {} \<Longrightarrow>
   world_db w1 = (world_db w)\<lparr>worker_rows := worker_rows (world_db w) @ map (fresh_worker bt now) css\<rparr>"
proof (induction css arbitrary: w)
  case Nil
  then show ?case by simp
next
  case (Cons cs css)
  obtain x c where up: "UpsertWorkerStatus (Key cs) ''N/A'' bt now (conn w) = (x, c)" by fastforce
  with Cons.prems(1) have x: "x = Inr ()" "run (seed_workers bt now css) (w\<lparr>conn := c\<rparr>) = (Inr u, w1)"
    by (auto simp: run_bind run_sql split: sum.splits)
  have c: "conn_db c = (world_db w)\<lparr>worker_rows := worker_rows (world_db w) @ [fresh_worker bt now cs]\<rparr>"
    using UpsertWorkerStatus_new [OF up [unfolded x(1)]] Cons.prems(3) by (simp add: world_db_def fresh_worker_def)
  have "world_db w1 = (conn_db c)\<lparr>worker_rows := worker_rows (conn_db c) @ map (fresh_worker bt now) css\<rparr>"
    using Cons.IH [OF x(2)] Cons.prems(2,3) by (auto simp: world_db_def c fresh_worker_def)
  then show ?case by (simp add: c)
qed

lemma mkdirs_frame: "run (mkdirs css) w = (r, w1) \<Longrightarrow> world_db w1 = world_db w \<and> clock w1 = clock w"
proof (induction css arbitrary: w)
  case (Cons cs css)
  then show ?case by (fastforce simp: run_bind run_os split: sum.splits prod.splits)
qed simp

lemma Init_Inr:
  assumes "run (Init app) w = (Inr u, w1)" "distinct (map Key (Channels app))"
  shows "world_db w1 = (world_db w)\<lparr>worker_rows := map (fresh_worker (AppBuildTime app) (clock w div 1000000)) (Channels app)\<rparr>"
proof -
  obtain r0 w0 where m0: "run (os (os_MkdirAll (TempDir app))) w = (r0, w0)" by fastforce
  obtain r2 w2 where m2: "run (mkdirs (Channels app)) w0 = (r2, w2)" by fastforce
  obtain x c where rs: "ResetWorkerStatus (conn w2) = (x, c)" by fastforce
  have r: "r0 = Inr ()" "r2 = Inr ()" "x = Inr ()"
    "run (seed_workers (AppBuildTime app) (clock w2 div 1000000) (Channels app)) (w2\<lparr>conn := c\<rparr>) = (Inr u, w1)"
    using assms(1) m0 m2 rs by (auto simp: Init_def run_bind run_sql unix_Now_def split: sum.splits)
  have w0: "world_db w0 = world_db w" "clock w0 = clock w" using m0 by (auto simp: run_os split: prod.splits)
  note w2 = mkdirs_frame [OF m2]
  have c: "conn_db c = (world_db w2)\<lparr>worker_rows := []\<rparr>"
    using db_exec_Inr [OF rs [unfolded r(3) ResetWorkerStatus_def]] by (simp add: world_db_def)
  from seed_workers_Inr [OF r(4) assms(2)] w0 w2 show ?thesis
    by (simp add: world_db_def [of "w2\<lparr>conn := c\<rparr>"] c)
qed

definition worker_endpoints :: "endpoint_name list" where
  "worker_endpoints = [Activate, Deactivate, Sync, Line, MediaUpload, Statuscheck, Heartbeat, WorkerEvents,
     GetIncoming, DeleteIncoming, PostRestart, GetRestart, DeleteRestart]"

lemma worker_endpoint_forbidden:
  assumes "ApiKey app \<noteq> []" "r_Header r ''X-API-Key'' \<noteq> ApiKey app" "e \<in> set worker_endpoints"
  shows "run (serve_route app sr r e) w = (Answer (http_Error ''Forbidden'' 403), w)"
  using assms by (cases e) (simp_all add: serve_route_def worker_endpoint_def apiKeyMiddleware_def worker_endpoints_def)

text \<open>
  C29. The server fails closed: whatever the configuration file, the environment and the failures during
  start-up, if the process gets to serving then its worker key is not empty, so that every worker route
  refuses a request with another key, its channels have distinct non-empty names, and the worker table
  holds exactly one fresh row per channel while the rest of the database is as it was found.
\<close>

theorem started_server_is_ready:
  assumes "ln_config l = config_Load path data unmarshal" "web_main l = Running p"
  shows "ApiKey (pr_app p) \<noteq> [] \<and>
    (\<forall>sr r e w. e \<in> set worker_endpoints \<longrightarrow> r_Header r ''X-API-Key'' \<noteq> ApiKey (pr_app p) \<longrightarrow>
       run (serve_route (pr_app p) sr r e) w = (Answer (http_Error ''Forbidden'' 403), w)) \<and>
    distinct (map Key (Channels (pr_app p))) \<and> [] \<notin> Key ` set (Channels (pr_app p)) \<and>
    (\<exists>c. ln_connect l (pr_plan p) = (c, Inr ()) \<and> world_db (pr_world p) = (conn_db c)\<lparr>worker_rows :=
       map (fresh_worker (AppBuildTime (pr_app p)) (ln_clock l div 1000000)) (Channels (pr_app p))\<rparr>)"
proof -
  obtain cfg where cfg: "ln_config l = Inr cfg" "cfg_ApiKey cfg \<noteq> []"
    using assms(2) by (auto simp: web_main_def Let_def split: sum.splits if_splits)
  obtain c plan where op: "store_Open (QueryEscape (ln_env l)) (ln_connect l) (path_join [''tmp'', ''server.db'']) (ln_database l)
      = Inr (c, plan)"
    using assms(2) cfg by (auto simp: web_main_def Let_def split: sum.splits if_splits)
  obtain app where app: "NewApp (ln_env l) (ln_local l) (ln_remote l) cfg ''tmp''
      (if ln_VERSION l \<noteq> [] then ln_VERSION l else ''local'') (if ln_BUILD_TIME l \<noteq> [] then ln_BUILD_TIME l else ''unknown'') = Inr app"
    using assms(2) cfg op by (auto simp: web_main_def Let_def split: sum.splits if_splits)
  obtain r w where i: "run (Init app) (new_world app c (ln_stores l) (ln_clock l)) = (r, w)" by fastforce
  obtain b o_d where bo: "start_bot l app (new_bot_state, discord w) = (b, o_d)" by fastforce
  have r: "r = Inr ()" and p: "pr_app p = app" "pr_plan p = plan" "pr_world p = w\<lparr>discord := o_d\<rparr>"
    using assms(2) cfg op app i bo by (auto simp: web_main_def Let_def split: sum.splits)
  have val: "Validate cfg = None"
    using assms(1) cfg(1) by (auto simp: config_Load_def split: sum.splits option.splits)
  then have names: "distinct (map cc_Name (cfg_Channels cfg))" "[] \<notin> cc_Name ` set (cfg_Channels cfg)"
    by (auto simp: Validate_def check_channels_iff split: if_splits)
  have ch: "ApiKey app = cfg_ApiKey cfg" "Channels app = map (make_channel ''tmp'') (cfg_Channels cfg)"
    using app by (auto simp: NewApp_def Let_def split: sum.splits if_splits)
  have keys: "map Key (Channels app) = map cc_Name (cfg_Channels cfg)"
    by (simp add: ch(2) make_channel_def o_def)
  then have dist: "distinct (map Key (Channels app))" using names(1) by simp
  have nonempty: "[] \<notin> Key ` set (Channels app)" using names(2) keys by (metis image_set)
  have db: "world_db (pr_world p) = (conn_db c)\<lparr>worker_rows :=
      map (fresh_worker (AppBuildTime app) (ln_clock l div 1000000)) (Channels app)\<rparr>"
    using Init_Inr [OF i [unfolded r] dist] by (simp add: p world_db_def new_world_def)
  have con: "ln_connect l plan = (c, Inr ())"
    using op by (auto simp: store_Open_def Let_def split: prod.splits sum.splits)
  show ?thesis
    using cfg(2) ch(1) dist nonempty db con worker_endpoint_forbidden [of app] by (auto simp: p)
qed

definition launch_config :: config where
  "launch_config = \<lparr>cfg_ApiKey = ''key'', cfg_ArchiveURL = [], cfg_ArchiveKey = [], cfg_StorageType = [],
     cfg_R2 = \<lparr>r2_AccountId = [], r2_AccessKeyId = [], r2_SecretAccessKey = [], r2_Bucket = [], r2_PublicUrl = []\<rparr>,
     cfg_Channels = [\<lparr>cc_Name = ''ch'', cc_NumPastStreams = 1, cc_AdminKey = ''adm'', cc_MembersName = [],
       cc_DisplayName = [], cc_TwitchLogin = []\<rparr>],
     cfg_Discord = \<lparr>dc_WebhookURL = [], dc_AdminWebhookURL = [], dc_NotifyUserID = [],
       dc_NotifyRoleID = [], dc_TranscriptBaseURL = [], dc_Bot = \<lparr>bot_Token = [], bot_ChannelIDs = [],
       bot_ChannelMap = [], bot_StreamTTLMinutes = 0\<rparr>\<rparr>\<rparr>"

definition sample_launch :: "unit launch" where
  "sample_launch = \<lparr>ln_VERSION = [], ln_BUILD_TIME = [], ln_config = config_Load ''config.yaml'' (Inr []) (\<lambda>_. Inr launch_config),
     ln_database = \<lparr>db_JournalMode = [], db_BusyTimeoutMS = 0, db_Synchronous = [], db_CacheSizeKB = 0,
       db_TempStore = [], db_MmapSizeBytes = 0, db_SkipWarmup = False\<rparr>,
     ln_connect = (\<lambda>_. (\<lparr>conn_db = createSchema, faults = []\<rparr>, Inr ())), ln_env = sample_app,
     ln_local = LocalStorage ''tmp'' [], ln_remote = LocalStorage ''tmp'' [], ln_stores = empty_store,
     ln_clock = 5000000, ln_bot = None, ln_opened = Inr ()\<rparr>"

lemma sample_launch_app:
  "\<exists>p. web_main sample_launch = Running p \<and> MaxConn (pr_app p) = 10000 \<and>
     Channels (pr_app p) = [make_channel ''tmp'' (hd (cfg_Channels launch_config))]"
proof -
  obtain plan where op: "store_Open (QueryEscape sample_app) (\<lambda>_. (\<lparr>conn_db = createSchema, faults = []\<rparr>, Inr ()))
      (path_join [''tmp'', ''server.db'']) (ln_database sample_launch) = Inr (\<lparr>conn_db = createSchema, faults = []\<rparr>, plan)"
    by (simp add: store_Open_def Let_def)
  obtain app where app: "NewApp sample_app (LocalStorage ''tmp'' []) (LocalStorage ''tmp'' []) launch_config ''tmp'' ''local'' ''unknown''
      = Inr app" "TempDir app = ''tmp''" "Channels app = [make_channel ''tmp'' (hd (cfg_Channels launch_config))]"
    "MaxConn app = 10000"
    by (simp add: launch_config_def NewApp_def storage_New_def Let_def)
  have k: "BaseMediaFolder (make_channel ''tmp'' (hd (cfg_Channels launch_config))) = ''tmp/ch''" by code_simp
  have anc: "ancestors ''tmp/ch'' = [''tmp'']" "ancestors ''tmp'' = []" by code_simp+
  obtain w where i: "run (Init app) (new_world app \<lparr>conn_db = createSchema, faults = []\<rparr> empty_store 5000000) = (Inr (), w)"
    by (simp add: Init_def app(2,3) k anc run_bind run_os os_MkdirAll_def os_tick_def look_def empty_store_def run_sql
        ResetWorkerStatus_def UpsertWorkerStatus_def new_world_def unix_Now_def)
  obtain b o_d where bo: "start_bot sample_launch app (new_bot_state, discord w) = (b, o_d)" by fastforce
  have cfg: "ln_config sample_launch = Inr launch_config" "cfg_ApiKey launch_config \<noteq> []"
    by (simp_all add: sample_launch_def config_Load_def Validate_def launch_config_def)
  have sels: "ln_VERSION sample_launch = []" "ln_BUILD_TIME sample_launch = []" "ln_env sample_launch = sample_app"
    "ln_connect sample_launch = (\<lambda>_. (\<lparr>conn_db = createSchema, faults = []\<rparr>, Inr ()))" "ln_local sample_launch = LocalStorage ''tmp'' []"
    "ln_remote sample_launch = LocalStorage ''tmp'' []" "ln_stores sample_launch = empty_store" "ln_clock sample_launch = 5000000"
    by (simp_all add: sample_launch_def)
  show ?thesis using op app i bo cfg by (simp add: web_main_def sels)
qed

lemma sample_launch_runs: "\<exists>p. web_main sample_launch = Running p"
  using sample_launch_app by blast

theorem started_server_is_ready_witness:
  "\<exists>p. web_main sample_launch = Running p \<and> ApiKey (pr_app p) \<noteq> [] \<and> distinct (map Key (Channels (pr_app p))) \<and>
     map ChannelKey (worker_rows (world_db (pr_world p))) = map Key (Channels (pr_app p))"
proof -
  obtain p where p: "web_main sample_launch = Running p" using sample_launch_runs by blast
  have "ln_config sample_launch = config_Load ''config.yaml'' (Inr []) (\<lambda>_. Inr launch_config)"
    by (simp add: sample_launch_def)
  from started_server_is_ready [OF this p] p show ?thesis
    by (auto simp: fresh_worker_def o_def intro!: exI [of _ p])
qed

end
