(* ===== verification/Channel_Rows.thy ===== *)
theory Channel_Rows
  imports Store_Props
begin

text \<open>
  Which channels an operation of the store can touch: the rows of a channel in all five tables, and
  for every operation the set of channels whose rows it may change.
\<close>

definition channel_rows ::
  "string \<Rightarrow> db \<Rightarrow> stream list \<times> trow list \<times> incoming_row list \<times> worker_status list \<times> restart_row list" where
  "channel_rows ch d =
     (filter (\<lambda>s. ChannelID s = ch) (streams d), filter (\<lambda>r. row_channel r = ch) (transcripts d),
      filter (\<lambda>r. in_channel r = ch) (incoming d), filter (\<lambda>r. ChannelKey r = ch) (worker_rows d),
      filter (\<lambda>r. rs_channel r = ch) (restarts d))"

definition within :: "string set \<Rightarrow> (dbconn \<Rightarrow> 'a \<times> dbconn) \<Rightarrow> bool" where
  "within X f \<longleftrightarrow>
     (\<forall>c r c'. f c = (r, c') \<longrightarrow> (\<forall>ch. ch \<notin> X \<longrightarrow> channel_rows ch (conn_db c') = channel_rows ch (conn_db c)))"

lemma within_mono: "within X f \<Longrightarrow> X \<subseteq> Y \<Longrightarrow> within Y f"
  unfolding within_def by blast

lemma within_UNIV [simp]: "within UNIV f"
  by (simp add: within_def)

lemma within_query: "within X (db_query q)"
  by (auto simp: within_def dest: db_query_db)

lemma within_exec:
  "(\<And>d d' x ch. f d = Inr (d', x) \<Longrightarrow> ch \<notin> X \<Longrightarrow> channel_rows ch d' = channel_rows ch d) \<Longrightarrow> within X (db_exec f)"
  by (auto simp: within_def elim!: db_exec_cases)

lemma within_exec_rows:
  "(\<And>d d' x ch. f d = Inr (d', x) \<Longrightarrow> ch \<notin> X \<Longrightarrow> channel_rows ch d' = channel_rows ch d) \<Longrightarrow> within X (db_exec_rows f)"
  unfolding within_def by (metis db_exec_rows_effect)

text \<open>Row operations whose condition or key names another channel leave the rows of a channel alone.\<close>

lemma filter_delete_where: "(\<And>r. Q r \<Longrightarrow> \<not> P r) \<Longrightarrow> filter P (delete_where Q rows) = filter P rows"
  by (auto simp: delete_where_def intro!: filter_cong)

lemma filter_update_where:
  "(\<And>r. Q r \<Longrightarrow> \<not> P r \<and> \<not> P (f r)) \<Longrightarrow> filter P (update_where Q f rows) = filter P rows"
  by (induction rows) (auto simp: update_where_def)

lemma channel_rows_streams:
  "ch' \<noteq> ch \<Longrightarrow> channel_rows ch' (del_stream ch sid d) = channel_rows ch' d"
  "ch' \<noteq> ch \<Longrightarrow> channel_rows ch' (set_live ch sid b d) = channel_rows ch' d"
  "ch' \<noteq> ChannelID st \<Longrightarrow> channel_rows ch' (upsert_stream st d) = channel_rows ch' d"
  "ch' \<noteq> ch \<Longrightarrow> channel_rows ch' (d\<lparr>streams := update_where (of_stream ch sid) (apply_update u) (streams d)\<rparr>) = channel_rows ch' d"
  by (auto simp: channel_rows_def del_stream_def set_live_def upsert_stream_def of_stream_def apply_update_def set_opt_def
      stream_key_def merge_stream_def split: option.splits
      intro!: filter_delete_where filter_update_where stream_table.filter_upsert_other)

lemma channel_rows_lines:
  "ch' \<noteq> ch \<Longrightarrow> channel_rows ch' (del_lines ch sid d) = channel_rows ch' d"
  "ch' \<noteq> ch \<Longrightarrow> channel_rows ch' (mark_media ch sid lid f b d) = channel_rows ch' d"
  "ch' \<noteq> ch \<Longrightarrow> channel_rows ch' (d\<lparr>transcripts := transcripts d @ map (row_of_line ch sid) ls\<rparr>) = channel_rows ch' d"
  by (auto simp: channel_rows_def del_lines_def mark_media_def in_stream_def
      intro!: filter_delete_where filter_update_where)

lemma channel_rows_keyed:
  "ch' \<noteq> in_channel x \<Longrightarrow>
     channel_rows ch' (d\<lparr>incoming := upsert_row incoming_key merge_incoming x (incoming d)\<rparr>) = channel_rows ch' d"
  "ch' \<noteq> ChannelKey w \<Longrightarrow>
     channel_rows ch' (d\<lparr>worker_rows := upsert_row ChannelKey merge_worker w (worker_rows d)\<rparr>) = channel_rows ch' d"
  "ch' \<noteq> rs_channel y \<Longrightarrow>
     channel_rows ch' (d\<lparr>restarts := upsert_row rs_channel merge_restart y (restarts d)\<rparr>) = channel_rows ch' d"
  "(\<And>r. P r \<Longrightarrow> in_channel r \<noteq> ch') \<Longrightarrow> channel_rows ch' (d\<lparr>incoming := delete_where P (incoming d)\<rparr>) = channel_rows ch' d"
  "(\<And>r. Q r \<Longrightarrow> rs_channel r \<noteq> ch') \<Longrightarrow> channel_rows ch' (d\<lparr>restarts := delete_where Q (restarts d)\<rparr>) = channel_rows ch' d"
  by (auto simp: channel_rows_def incoming_key_def merge_incoming_def merge_worker_def merge_restart_def
      intro!: filter_delete_where incoming_table.filter_upsert_other worker_table.filter_upsert_other
        restart_table.filter_upsert_other)

lemma within_statements:
  "within {ch} (SetStreamLive ch sid b)" "within {ChannelID st} (UpsertStream st)"
  "within {ch} (UpsertIncomingStream ch url t)" "within {ch} (DeleteIncomingStream ch url)" "within {ch} (ClearIncomingStreams ch)"
  "within {ch} (UpsertWorkerStatus ch v bt t)" "within {ch} (UpsertRestartRequest ch t)" "within {ch} (DeleteRestartRequest ch)"
  unfolding SetStreamLive_def UpsertStream_def UpsertIncomingStream_def DeleteIncomingStream_def ClearIncomingStreams_def
    delete_incoming_def UpsertWorkerStatus_def UpsertRestartRequest_def DeleteRestartRequest_def
  by (auto intro!: within_exec within_exec_rows channel_rows_streams channel_rows_keyed)

lemma within_updates: "within {ch} (UpdateStream ch sid u)" "within {ch} (SetMediaAvailable ch sid lid f b)"
proof -
  have "within {ch} (db_exec_rows (\<lambda>d. Inr (d\<lparr>streams := update_where (of_stream ch sid) (apply_update u) (streams d)\<rparr>, n d)))"
    for n by (rule within_exec_rows) (auto intro: channel_rows_streams)
  then show "within {ch} (UpdateStream ch sid u)"
    unfolding within_def UpdateStream_def by (fastforce split: prod.splits sum.splits if_splits)
  have "within {ch} (db_exec_rows (\<lambda>d. Inr (mark_media ch sid lid f b d, n d)))" for n
    by (rule within_exec_rows) (auto intro: channel_rows_lines)
  then show "within {ch} (SetMediaAvailable ch sid lid f b)"
    unfolding within_def SetMediaAvailable_def mark_media_def by (fastforce split: prod.splits sum.splits if_splits)
qed

lemma within_transactions:
  "within {ch} (DeleteStreamCascade ch sid)" "within {ch} (ReplaceTranscript ch sid ls)" "within {ch} (InsertNextLine ch sid l)"
proof -
  have ins: "channel_rows ch' d' = channel_rows ch' d" if "run_each (ins_line ch sid) ls d = Inr d'" "ch' \<noteq> ch" for ch' ls d d'
    using run_ins_lines_Inr [OF that(1)] that(2) by (simp add: channel_rows_lines)
  show "within {ch} (DeleteStreamCascade ch sid)"
    unfolding within_def
  proof (intro allI impI)
    fix c r c' ch' assume "DeleteStreamCascade ch sid c = (r, c')" "ch' \<notin> {ch}"
    then show "channel_rows ch' (conn_db c') = channel_rows ch' (conn_db c)"
      by (cases r) (auto dest!: DeleteStreamCascade_Inl DeleteStreamCascade_Inr simp: channel_rows_streams channel_rows_lines)
  qed
  show "within {ch} (ReplaceTranscript ch sid ls)"
    unfolding within_def
  proof (intro allI impI)
    fix c r c' ch' assume "ReplaceTranscript ch sid ls c = (r, c')" "ch' \<notin> {ch}"
    then show "channel_rows ch' (conn_db c') = channel_rows ch' (conn_db c)"
      by (cases r) (auto dest!: ReplaceTranscript_Inl ReplaceTranscript_Inr dest: ins simp: channel_rows_lines)
  qed
  show "within {ch} (InsertNextLine ch sid l)"
    unfolding within_def
  proof (intro allI impI)
    fix c r c' ch' assume *: "InsertNextLine ch sid l c = (r, c')" "ch' \<notin> {ch}"
    show "channel_rows ch' (conn_db c') = channel_rows ch' (conn_db c)"
    proof (cases r)
      case (Inr u)
      with InsertNextLine_Inr(1) [of ch sid l c u c'] * have "run_each (ins_line ch sid) [l] (conn_db c) = Inr (conn_db c')"
        by simp
      from ins [OF this] * show ?thesis by simp
    qed (use * in \<open>auto dest: InsertNextLine_Inl\<close>)
  qed
qed

end
