(* ===== verification/Guarantee.thy ===== *)
theory Guarantee
  imports Routes_Props Maintenance Channel_Rows
begin

text \<open>
  What the actions of the server may do to its state, as a guarantee: a preorder \<open>G\<close> on worlds that
  contains every single move a component offers (a store operation, a hub move, a claim of the build
  registry) and every change of the parts no invariant speaks of. The locale \<open>guarantee\<close> derives from
  these moves, once for all such \<open>G\<close>, that each handler, each sweep and each build stays within \<open>G\<close>.
\<close>

definition obeys :: "('s \<Rightarrow> 's \<Rightarrow> bool) \<Rightarrow> ('s, 'a) state \<Rightarrow> bool" where
  "obeys G m \<longleftrightarrow> (\<forall>w. G w (snd (run m w)))"

lemma obeysD: "obeys G m \<Longrightarrow> G w (snd (run m w))"
  by (simp add: obeys_def)

named_theorems obeys_intro

lemma obeys_cases [obeys_intro]:
  "(b \<Longrightarrow> obeys G m) \<Longrightarrow> (\<not> b \<Longrightarrow> obeys G n) \<Longrightarrow> obeys G (if b then m else n)"
  "(\<And>x. obeys G (g x)) \<Longrightarrow> obeys G (let x = a in g x)"
  "(\<And>a. obeys G (g a)) \<Longrightarrow> (\<And>b. obeys G (h b)) \<Longrightarrow> obeys G (case s of Inl a \<Rightarrow> g a | Inr b \<Rightarrow> h b)"
  "obeys G k \<Longrightarrow> (\<And>b. obeys G (h b)) \<Longrightarrow> obeys G (case t of None \<Rightarrow> k | Some b \<Rightarrow> h b)"
  "(\<And>a b. obeys G (f a b)) \<Longrightarrow> obeys G (case p of (a, b) \<Rightarrow> f a b)"
  "obeys G k \<Longrightarrow> (\<And>y ys. obeys G (f' y ys)) \<Longrightarrow> obeys G (case l of [] \<Rightarrow> k | y # ys \<Rightarrow> f' y ys)"
  "obeys G k \<Longrightarrow> obeys G n \<Longrightarrow> obeys G (case c of True \<Rightarrow> k | False \<Rightarrow> n)"
  by (simp_all split: sum.split option.split prod.split list.split bool.split)

lemma obeys_payload [obeys_intro]:
  "obeys G a \<Longrightarrow> (\<And>x. obeys G (b x)) \<Longrightarrow> (\<And>x. obeys G (c x)) \<Longrightarrow> (\<And>x. obeys G (d x)) \<Longrightarrow> (\<And>x. obeys G (e x)) \<Longrightarrow>
   obeys G g \<Longrightarrow> (\<And>x. obeys G (h x)) \<Longrightarrow> (\<And>x. obeys G (i x)) \<Longrightarrow> (\<And>x. obeys G (j x)) \<Longrightarrow> (\<And>x. obeys G (k x)) \<Longrightarrow>
   obeys G (case_payload a b c d e g h i j k y)"
  by (cases y) simp_all

lemma obeys_gerr [obeys_intro]:
  "obeys G a \<Longrightarrow> (\<And>x y. obeys G (b x y)) \<Longrightarrow> obeys G c \<Longrightarrow> obeys G d \<Longrightarrow> obeys G e \<Longrightarrow> obeys G g \<Longrightarrow>
   obeys G h \<Longrightarrow> obeys G j \<Longrightarrow> (\<And>x. obeys G (i x)) \<Longrightarrow> obeys G (case_gerr a b c d e g h j i z)"
  by (cases z) simp_all

lemma obeys_map [obeys_intro]: "obeys G m \<Longrightarrow> obeys G (map_state g m)"
  by (auto simp: obeys_def run_map split: prod.splits) (metis snd_conv)

section \<open>The moves of the components\<close>

text \<open>
  A connection moves within a set of channels when an operation of the store ran on it that leaves the
  rows of every other channel alone, or a read, which changes no row.
\<close>

inductive store_move :: "string set \<Rightarrow> dbconn \<Rightarrow> dbconn \<Rightarrow> bool" for X :: "string set" where
  wrote: "store_step c c' \<Longrightarrow> (\<And>ch. ch \<notin> X \<Longrightarrow> channel_rows ch (conn_db c') = channel_rows ch (conn_db c)) \<Longrightarrow>
     store_move X c c'"
| read_only: "conn_db c' = conn_db c \<Longrightarrow> store_move X c c'"

text \<open>The hub moves that touch no reservation.\<close>

inductive hub_move :: "hub \<Rightarrow> hub \<Rightarrow> bool" where
  sent: "TrySend c m h = (ok, h') \<Longrightarrow> hub_move h h'"
| cast: "hub_move h (Broadcast m h)"
| left: "Remove c h = (b, h') \<Longrightarrow> hub_move h h'"
| pumped: "writePump c e h = Some (ms, going, h') \<Longrightarrow> hub_move h h'"

text \<open>A whole build: its job goes through phases and is finished.\<close>

inductive build_move :: "nat \<Rightarrow> vod_registry \<Rightarrow> vod_registry \<Rightarrow> bool" for j :: nat where
  build_phase: "build_move j (setPhase j p v) v' \<Longrightarrow> build_move j v v'"
| build_end: "build_move j v (job_finish j err now v)"

definition task_key :: "vod_task \<Rightarrow> string" where
  "task_key k = vodJobKey (Key (task_channel k)) (StreamID (tgt_stream (task_target k)))"

text \<open>
  \<open>runs_build j m\<close>: beside the storage, the outbox and the identifiers, the action \<open>m\<close> only carries out
  a whole build of job \<open>j\<close>.
\<close>

definition beside_build where
  "beside_build w = (conn w, clock w, hubs w, counters w, notifier w, gauge w, vods w, async_deletes w, pending_builds w, upgrading w)"

definition runs_build :: "nat \<Rightarrow> ('b, 'a) act \<Rightarrow> bool" where
  "runs_build j m \<longleftrightarrow>
     (\<forall>w. \<exists>v. build_move j (vods w) v \<and> beside_build (snd (run m w)) = beside_build (w\<lparr>vods := v\<rparr>))"

lemma beside_build_vods: "beside_build w1 = beside_build w \<Longrightarrow>
  vods w1 = vods w \<and> beside_build (w1\<lparr>vods := v\<rparr>) = beside_build (w\<lparr>vods := v\<rparr>)"
  by (simp add: beside_build_def)

lemma runs_after:
  fixes m :: "('b, 'a) act"
  assumes "keeps beside_build m" "\<And>x. runs_build j (k x)"
  shows "runs_build j (m \<bind> k)"
  unfolding runs_build_def
proof
  fix w :: "'b world"
  obtain x w1 where m: "run m w = (x, w1)" by fastforce
  obtain v where "build_move j (vods w1) v" "beside_build (snd (run (k x) w1)) = beside_build (w1\<lparr>vods := v\<rparr>)"
    using assms(2) [of x] unfolding runs_build_def by blast
  then show "\<exists>v. build_move j (vods w) v \<and> beside_build (snd (run (m \<bind> k) w)) = beside_build (w\<lparr>vods := v\<rparr>)"
    using beside_build_vods [OF keeps_run [OF assms(1) m]] by (auto simp: run_bind m)
qed

lemma runs_before: "runs_build j m \<Longrightarrow> (\<And>x. keeps beside_build (k x)) \<Longrightarrow> runs_build j (m \<bind> k)"
  unfolding runs_build_def run_bind by (auto split: prod.split) (metis keepsD snd_conv)

lemma runs_phase:
  fixes k :: "unit \<Rightarrow> ('b, 'a) act"
  assumes "\<And>x. runs_build j (k x)"
  shows "runs_build j (set_phase j p \<bind> k)"
  unfolding runs_build_def
proof
  fix w :: "'b world"
  let ?w = "w\<lparr>vods := setPhase j p (vods w)\<rparr>"
  obtain v where "build_move j (vods ?w) v" "beside_build (snd (run (k ()) ?w)) = beside_build (?w\<lparr>vods := v\<rparr>)"
    using assms unfolding runs_build_def by blast
  then show "\<exists>v. build_move j (vods w) v \<and> beside_build (snd (run (set_phase j p \<bind> k) w)) = beside_build (w\<lparr>vods := v\<rparr>)"
    by (auto simp: set_phase_def run_bind intro: build_move.build_phase)
qed

lemma runs_end: "runs_build j (finish_job j err)"
  unfolding runs_build_def finish_job_def run_bind by (auto simp: unix_Now_def intro: build_move.build_end)

lemma runs_sum: "(\<And>e. runs_build j (f e)) \<Longrightarrow> (\<And>x. runs_build j (g x)) \<Longrightarrow> runs_build j (case s of Inl e \<Rightarrow> f e | Inr x \<Rightarrow> g x)"
  by (cases s) simp_all

lemma keeps_beside_build:
  "keeps beside_build (os f)" "keeps beside_build (alert g)" "keeps beside_build (new_uuid app)"
  "keeps beside_build (uploadFile app key p)" "keeps beside_build (MergeRawAudio st t ch sid fs n)"
  by (intro keeps_intro; simp add: beside_build_def)+

lemma runs_failed: "task_job k = j \<Longrightarrow> runs_build j (build_failed app k err)"
  unfolding build_failed_def by (intro runs_before keeps_beside_build) (simp add: runs_end)

lemma runs_defer: "runs_build j m \<Longrightarrow> runs_build j (defer_Remove p m)"
  unfolding defer_Remove_def by (intro runs_before keeps_bind keeps_ret keeps_beside_build)

lemma runs_upload: "runs_build (task_job k) (upload_vod app took k out)"
  unfolding upload_vod_def Let_def
  by (intro runs_phase runs_after runs_sum runs_failed refl runs_before [OF runs_end] keeps_beside_build)

lemma runs_buildVod: "runs_build (task_job k) (buildVod app took k)"
  unfolding buildVod_def Let_def
  by (intro runs_after [OF keeps_beside_build(3)] runs_phase runs_after [OF keeps_beside_build(1)]
      runs_after [OF keeps_beside_build(5)] runs_sum runs_failed refl runs_defer runs_upload)

text \<open>What a request may touch: the channel its path names; a heartbeat touches the keys it lists.\<close>

definition request_within :: "string set \<Rightarrow> request \<Rightarrow> bool" where
  "request_within X r \<longleftrightarrow>
     (case find_route r of
        None \<Rightarrow> True
      | Some (e, vs) \<Rightarrow>
          (if e = PublicStatus \<or> e = WorkerEvents then True
           else if e = Heartbeat then (case r_Body r of HeartbeatPayload q \<Rightarrow> set (req_Keys q) \<subseteq> X | _ \<Rightarrow> True)
           else (case map_of vs ''channel'' of None \<Rightarrow> [] | Some x \<Rightarrow> x) \<in> X))"

definition opens_websocket :: "request \<Rightarrow> bool" where
  "opens_websocket r \<longleftrightarrow> (case find_route r of Some (Websocket, vs) \<Rightarrow> True | _ \<Rightarrow> False)"

locale guarantee =
  fixes G :: "'b world \<Rightarrow> 'b world \<Rightarrow> bool" and X :: "string set"
  assumes same: "G w w" and trans: "G w w1 \<Longrightarrow> G w1 w2 \<Longrightarrow> G w w2"
    and db_moves: "store_move X (conn w) c \<Longrightarrow> G w (w\<lparr>conn := c\<rparr>)"
    and hub_moves: "ch \<in> X \<Longrightarrow> hub_move (hubs w ch) h \<Longrightarrow> G w (w\<lparr>hubs := (hubs w)(ch := h)\<rparr>)"
    and reserves_slot: "ch \<in> X \<Longrightarrow> Reserve (hubs w ch) = (True, h) \<Longrightarrow>
      G w (w\<lparr>hubs := (hubs w)(ch := h), upgrading := (upgrading w)(ch := Suc (upgrading w ch))\<rparr>)"
    and frees_slot: "ch \<in> X \<Longrightarrow> upgrading w ch = Suc n \<Longrightarrow>
      G w (w\<lparr>hubs := (hubs w)(ch := Unreserve (hubs w ch)), upgrading := (upgrading w)(ch := n)\<rparr>)"
    and fills_slot: "ch \<in> X \<Longrightarrow> upgrading w ch = Suc n \<Longrightarrow> Add (hubs w ch) = (c', h) \<Longrightarrow>
      G w (w\<lparr>hubs := (hubs w)(ch := h), upgrading := (upgrading w)(ch := n)\<rparr>)"
    and joins_build: "vod_claim ch sid now (vods w) = ((j, False), v) \<Longrightarrow> G w (w\<lparr>vods := v\<rparr>)"
    and starts_build: "vod_claim (Key (task_channel k)) (StreamID (tgt_stream (task_target k))) now (vods w) = ((task_job k, True), v) \<Longrightarrow>
      G w (w\<lparr>vods := v, pending_builds := pending_builds w @ [k]\<rparr>)"
    and ends_build: "k \<in> set (pending_builds w) \<Longrightarrow> build_move (task_job k) (vods w) v \<Longrightarrow>
      G w (w\<lparr>vods := v, pending_builds := remove1 k (pending_builds w)\<rparr>)"
    and forgets_build: "G w (w\<lparr>vods := vod_forget ch sid (vods w)\<rparr>)"
    and frame_stores: "G w (w\<lparr>stores := s\<rparr>)"
    and frame_clock: "G w (w\<lparr>clock := t\<rparr>)"
    and frame_counters: "G w (w\<lparr>counters := x, notifier := y\<rparr>)"
    and frame_gauge: "G w (w\<lparr>gauge := g\<rparr>)"
    and frame_deletes: "G w (w\<lparr>async_deletes := ds\<rparr>)"
    and frame_discord: "G w (w\<lparr>discord := d\<rparr>)"
    and frame_uuid: "G w (w\<lparr>next_uuid := n\<rparr>)"
begin

lemma ret_obeys [obeys_intro]: "obeys G (ret x)"
  by (simp add: obeys_def same)

lemma bind_obeys [obeys_intro]: "obeys G m \<Longrightarrow> (\<And>x. obeys G (k x)) \<Longrightarrow> obeys G (m \<bind> k)"
  by (auto simp: obeys_def run_bind split: prod.splits) (metis snd_conv trans)

lemma gets_obeys [obeys_intro]: "obeys G (gets f)" "obeys G time_Now" "obeys G unix_Now"
  by (simp_all add: obeys_def time_Now_def unix_Now_def same)

lemma writes_obey [obeys_intro]:
  "obeys G (modify (\<lambda>w. w\<lparr>async_deletes := ds w\<rparr>))" "obeys G (alert f)"
  "obeys G (gauge_Set ch sid t v)" "obeys G (gauge_Delete ch sid t)" "obeys G (bumpAdminChange app ch)"
  "obeys G (new_uuid app)" "obeys G (modify (\<lambda>w. w\<lparr>vods := vod_forget ch sid (vods w)\<rparr>))"
  by (auto simp: obeys_def alert_def gauge_Set_def gauge_Delete_def new_uuid_def bumpAdminChange_def same frame_deletes
      frame_discord frame_gauge frame_counters frame_uuid forgets_build split: option.splits)

lemma store_obeys [obeys_intro]: "obeys G (store f)" "obeys G (os g)"
  by (simp_all add: obeys_def run_store os_def frame_stores split: prod.splits)

lemma sleep_obeys [obeys_intro]: "(\<And>w. G w (others w)) \<Longrightarrow> obeys G (time_Sleep others us)"
  by (simp add: obeys_def time_Sleep_def) (metis trans frame_clock)

lemma hub_obeys: "Key cs \<in> X \<Longrightarrow> (\<And>h x h'. f h = (x, h') \<Longrightarrow> hub_move h h') \<Longrightarrow> obeys G (hub_op cs f)"
  by (simp add: obeys_def run_hub_op hub_moves split: prod.splits)

lemma hub_ops_obey [obeys_intro]:
  "Key cs \<in> X \<Longrightarrow> obeys G (hub_op cs (TrySend c m))" "Key cs \<in> X \<Longrightarrow> obeys G (hub_op cs (Remove c))"
  by (rule hub_obeys, assumption, blast intro: hub_move.intros)+

lemma broadcast_obeys [obeys_intro]: "ch \<in> X \<Longrightarrow> obeys G (broadcast ch m)"
  by (simp add: obeys_def broadcast_def hub_moves hub_move.cast)

lemma read_loop_obeys [obeys_intro]:
  assumes "Key cs \<in> X"
  shows "obeys G (hub_op cs (ReadLoop c rs))"
proof -
  have "G w (w\<lparr>hubs := (hubs w)(Key cs := snd (ReadLoop c rs (hubs w (Key cs))))\<rparr>)" for w
  proof (induction rs arbitrary: w)
    case (Cons r rs)
    show ?case
    proof (cases r)
      case (Ping t)
      obtain ok h where ts: "TrySend c (EventPong t) (hubs w (Key cs)) = (ok, h)" by fastforce
      from trans [OF hub_moves [OF assms hub_move.sent [OF ts]] Cons.IH [of "w\<lparr>hubs := (hubs w)(Key cs := h)\<rparr>"]]
      show ?thesis by (simp add: Ping ts fun_upd_def [symmetric])
    next
      case (ReadErr e)
      then have "snd (ReadLoop c (r # rs) h) = h" for h by simp
      then show ?thesis by (simp add: same del: ReadLoop.simps fun_upd_apply)
    qed (use Cons.IH [of w] in simp_all)
  qed (simp add: same)
  then show ?thesis by (simp add: obeys_def run_hub_op split: prod.splits) (metis snd_conv)
qed

section \<open>Statements\<close>

lemma sql_obeys: "(\<And>c x c'. f c = (x, c') \<Longrightarrow> store_move X c c') \<Longrightarrow> obeys G (sql f)"
  by (simp add: obeys_def run_sql db_moves split: prod.splits)

lemma query_obeys: "obeys G (sql (db_query q))"
  by (rule sql_obeys) (metis db_query_db store_move.read_only)

lemma queries_obey [obeys_intro]:
  "obeys G (sql (GetRecentStream ch))" "obeys G (sql (GetStreamByID ch sid))" "obeys G (sql (GetAllStreams ch))"
  "obeys G (sql (GetPastStreams ch sid))" "obeys G (sql (StreamExists ch sid))" "obeys G (sql (GetTranscript ch sid))"
  "obeys G (sql (GetLastLine ch sid))" "obeys G (sql (GetLastAvailableMediaFiles ch sid n))"
  "obeys G (sql (GetFileIDsInRange ch sid a b))" "obeys G (sql (GetAllMediaFileIDs ch sid))"
  "obeys G (sql (CountTranscriptMedia ch sid))" "obeys G (sql (GetIncomingStreams ch))"
  "obeys G (sql (GetLatestIncomingTime ch))" "obeys G (sql (GetWorkerStatusByKey ch))"
  "obeys G (sql GetAllWorkerStatus)" "obeys G (sql (GetRestartRequest ch))"
  by (simp_all add: query_defs query_obeys)

lemma update_obeys: "(\<And>c x c'. f c = (x, c') \<Longrightarrow> store_step c c') \<Longrightarrow> within X f \<Longrightarrow> obeys G (sql f)"
  unfolding within_def by (rule sql_obeys, rule store_move.wrote) blast+

lemma updates_obey [obeys_intro]:
  "ch \<in> X \<Longrightarrow> obeys G (sql (DeleteStreamCascade ch sid))" "ChannelID st \<in> X \<Longrightarrow> obeys G (sql (UpsertStream st))"
  "ch \<in> X \<Longrightarrow> obeys G (sql (UpdateStream ch sid u))"
  "ch \<in> X \<Longrightarrow> obeys G (sql (SetStreamLive ch sid b))" "ch \<in> X \<Longrightarrow> obeys G (sql (ReplaceTranscript ch sid ls))"
  "ch \<in> X \<Longrightarrow> obeys G (sql (InsertNextLine ch sid l))" "ch \<in> X \<Longrightarrow> obeys G (sql (SetMediaAvailable ch sid lid f b))"
  "ch \<in> X \<Longrightarrow> obeys G (sql (UpsertIncomingStream ch url t))" "ch \<in> X \<Longrightarrow> obeys G (sql (DeleteIncomingStream ch url))"
  "ch \<in> X \<Longrightarrow> obeys G (sql (ClearIncomingStreams ch))" "ch \<in> X \<Longrightarrow> obeys G (sql (UpsertWorkerStatus ch v bt t))"
  "ch \<in> X \<Longrightarrow> obeys G (sql (UpsertRestartRequest ch t))" "ch \<in> X \<Longrightarrow> obeys G (sql (DeleteRestartRequest ch))"
  by (rule update_obeys, blast intro: store_step.intros, rule within_mono,
      rule within_statements within_updates within_transactions, simp)+

lemma sweeping_updates_obey [obeys_intro]:
  "X = UNIV \<Longrightarrow> obeys G (sql CleanupOrphanedTranscripts)" "X = UNIV \<Longrightarrow> obeys G (sql (CleanupExpiredIncomingStreams t))"
  "X = UNIV \<Longrightarrow> obeys G (sql ResetWorkerStatus)"
  by (rule update_obeys, blast intro: store_step.intros, simp)+

lemma own_rows [obeys_intro]:
  "Key cs \<in> X \<Longrightarrow> ChannelID (live_stream cs sid t st mt now) \<in> X" "Key cs \<in> X \<Longrightarrow> ChannelID (synced_stream cs d) \<in> X"
  by (simp_all add: live_stream_def synced_stream_def)

section \<open>Shared actions\<close>

lemma reports_obey [obeys_intro]:
  "obeys G (report500 app r e msg)" "obeys G (fail500 app r shown e msg)" "Key cs \<in> X \<Longrightarrow> obeys G (notifyAdminAction app r cs a fs)"
  "Key cs \<in> X \<Longrightarrow> obeys G (audited app r cs a fs)"
  "obeys G (bad_request m)" "obeys G (server_error m)" "obeys G archive_error"
  unfolding report500_def fail500_def notifyAdminAction_def audited_def bad_request_def server_error_def archive_error_def
  by (intro obeys_intro; assumption)+

lemma defer_obeys [obeys_intro]: "obeys G m \<Longrightarrow> obeys G (defer_Remove p m)"
  unfolding defer_Remove_def by (intro obeys_intro; assumption)

lemma upload_obeys [obeys_intro]: "obeys G (uploadFile app k p)"
  unfolding uploadFile_def by (intro obeys_intro; assumption)

lemma write_chunks_obey [obeys_intro]: "obeys G (write_chunks st dd ch sid m i fs)"
  by (induction fs arbitrary: i) (auto simp: downloadChunk_def append_chunk_def intro!: obeys_intro)

lemma merge_obeys [obeys_intro]: "obeys G (MergeRawAudio st t ch sid fs n)"
  unfolding MergeRawAudio_def by (intro obeys_intro; assumption)

lemma broadcasts_obey [obeys_intro]:
  "Key cs \<in> X \<Longrightarrow> obeys G (broadcastPastStreams cs)" "Key cs \<in> X \<Longrightarrow> obeys G (broadcastNewLine cs sid t l)" "Key cs \<in> X \<Longrightarrow> obeys G (broadcastNewMedia cs sid fs)"
  "obeys G (deleteStreamStorageAsync ch sid)" "Key cs \<in> X \<Longrightarrow> obeys G (announce app cs m)"
  unfolding broadcastPastStreams_def broadcastNewLine_def broadcastNewMedia_def deleteStreamStorageAsync_def announce_def
  by (intro obeys_intro; assumption)+

section \<open>The life of a stream\<close>

lemma retain_obeys [obeys_intro]: "Key cs \<in> X \<Longrightarrow> obeys G (retain_local cs a n ss)" "Key cs \<in> X \<Longrightarrow> obeys G (reconcile_remote app cs a ss)"
  by (induction ss arbitrary: n) (auto intro!: obeys_intro)

lemma lifecycle_obeys [obeys_intro]:
  "Key cs \<in> X \<Longrightarrow> obeys G (activateStream app cs sid title start mt)" "Key cs \<in> X \<Longrightarrow> obeys G (deactivateStream app cs sid)" "Key cs \<in> X \<Longrightarrow> obeys G (removeStream app cs s b)"
  unfolding activateStream_def start_stream_def applyRetention_def deactivateStream_def removeStream_def Let_def
  by (intro obeys_intro; assumption)+

section \<open>The worker's requests\<close>

lemma worker_obeys:
  "Key cs \<in> X \<Longrightarrow> obeys G (activateHandler app r cs)" "Key cs \<in> X \<Longrightarrow> obeys G (deactivateHandler app r cs)" "Key cs \<in> X \<Longrightarrow> obeys G (syncHandler app r cs)"
  "Key cs \<in> X \<Longrightarrow> obeys G (lineHandler app r cs)" "Key cs \<in> X \<Longrightarrow> obeys G (statuscheckHandler cs)" "Key cs \<in> X \<Longrightarrow> obeys G (getIncomingHandler app r cs)"
  "Key cs \<in> X \<Longrightarrow> obeys G (deleteIncomingHandler app r cs)" "Key cs \<in> X \<Longrightarrow> obeys G (postRestartHandler app r cs)"
  "Key cs \<in> X \<Longrightarrow> obeys G (getRestartHandler app r cs)" "Key cs \<in> X \<Longrightarrow> obeys G (deleteRestartHandler app r cs)"
  unfolding activateHandler_def deactivateHandler_def syncHandler_def lineHandler_def statuscheckHandler_def
    getIncomingHandler_def deleteIncomingHandler_def postRestartHandler_def getRestartHandler_def deleteRestartHandler_def
  by (intro obeys_intro; assumption)+

lemma media_obeys: "Key cs \<in> X \<Longrightarrow> (\<And>w. G w (others w)) \<Longrightarrow> obeys G (mediaHandler app others r cs)"
  unfolding mediaHandler_def process_media_def upload_frame_def mark_available_def
  by (intro obeys_intro; assumption)+

lemma heartbeats_obey [obeys_intro]: "set ks \<subseteq> X \<Longrightarrow> obeys G (upsert_heartbeats q t ks)"
  by (induction ks) (auto intro!: obeys_intro)

lemma heartbeat_obeys:
  assumes "\<And>q. r_Body r = HeartbeatPayload q \<Longrightarrow> set (req_Keys q) \<subseteq> X"
  shows "obeys G (workerStatusHandler r)"
  unfolding workerStatusHandler_def using assms by (cases "r_Body r") (auto intro!: obeys_intro)

lemma collect_obeys [obeys_intro]: "obeys G (collectWorkerEvents keys cursor)"
proof -
  have "obeys G (collect_events ks t cursor events)" for ks t cursor events
    by (induction ks arbitrary: cursor events) (auto simp: Let_def intro!: obeys_intro)
  then show ?thesis by (simp add: collectWorkerEvents_def)
qed

lemma events_obey: "obeys G (getEventsHandler app r now rounds)"
  unfolding getEventsHandler_def by (intro obeys_intro; assumption)

section \<open>Viewers\<close>

lemma public_obeys:
  "obeys G (getStatusHandler app)" "Key cs \<in> X \<Longrightarrow> obeys G (streamHandler app r cs)" "Key cs \<in> X \<Longrightarrow> obeys G (getFrameHandler app r cs)"
  "Key cs \<in> X \<Longrightarrow> obeys G (downloadHandler app r cs)" "Key cs \<in> X \<Longrightarrow> obeys G (getTranscriptHandler app r cs)" "obeys G adminUIHandler"
  unfolding getStatusHandler_def streamHandler_def getFrameHandler_def downloadHandler_def adminUIHandler_def
    getTranscriptHandler_def stat_and_serve_def observePastStreamAge_def
  by (intro obeys_intro; assumption)+

lemma clip_obeys: "Key cs \<in> X \<Longrightarrow> obeys G (postClipHandler app r cs)"
  unfolding postClipHandler_def make_clip_def render_clip_def convert_failed_def upload_clip_def
  by (intro obeys_intro; assumption)

lemma trim_obeys: "Key cs \<in> X \<Longrightarrow> obeys G (postTrimHandler app r cs)"
  unfolding postTrimHandler_def trim_source_def by (intro obeys_intro; assumption)

lemma sync_obeys [obeys_intro]: "Key cs \<in> X \<Longrightarrow> obeys G (syncClient app cs c)"
  unfolding syncClient_def send_or_remove_def Let_def by (intro obeys_intro; assumption)

text \<open>
  The steps of a connection. A handshake that ends uses up a reservation, so it is within the guarantee
  when there is one.
\<close>

lemma reserve_obeys [obeys_intro]:
  assumes "Key cs \<in> X"
  shows "obeys G (ws_reserve cs)"
  unfolding obeys_def
proof
  fix w :: "'b world"
  obtain ok h where r: "Reserve (hubs w (Key cs)) = (ok, h)" by fastforce
  show "G w (snd (run (ws_reserve cs) w))"
  proof (cases ok)
    case True
    with r reserves_slot [OF assms, of w h] show ?thesis by (simp add: ws_reserve_def run_bind run_hub_op)
  next
    case False
    with r have "h = hubs w (Key cs)" by (auto simp: Reserve_def split: if_splits)
    with False r show ?thesis by (simp add: ws_reserve_def run_bind run_hub_op same del: fun_upd_apply)
  qed
qed

lemma handshake_obeys:
  assumes "Key cs \<in> X" "0 < upgrading w (Key cs)"
  shows "G w (snd (run (ws_upgraded cs up) w))"
proof -
  obtain n where n: "upgrading w (Key cs) = Suc n" using assms(2) by (cases "upgrading w (Key cs)") simp_all
  obtain c h where a: "Add (hubs w (Key cs)) = (c, h)" by fastforce
  show ?thesis
    using frees_slot [OF assms(1) n] fills_slot [OF assms(1) n a] n a
    by (cases up) (simp_all add: ws_upgraded_def run_bind run_hub_op)
qed

lemma leave_obeys [obeys_intro]: "Key cs \<in> X \<Longrightarrow> obeys G (ws_leave cs c)"
  unfolding ws_leave_def by (intro obeys_intro)

lemma others_obeys: "(\<And>w. G w (others w)) \<Longrightarrow> obeys G (modify others)"
  by (simp add: obeys_def)

section \<open>Full builds\<close>

lemma start_obeys [obeys_intro]: "obeys G (start_build app r cs t fs)"
  unfolding obeys_def
proof
  fix w :: "'b world"
  obtain j started v where c: "vod_claim (Key cs) (StreamID (tgt_stream t)) (clock w div 1000000) (vods w) = ((j, started), v)"
    by (metis surj_pair)
  show "G w (snd (run (start_build app r cs t fs) w))"
  proof (cases started)
    case True
    let ?k = "\<lparr>task_job = j, task_channel = cs, task_target = t, task_files = fs\<rparr>"
    let ?w = "w\<lparr>vods := v, pending_builds := pending_builds w @ [?k]\<rparr>"
    have "G w ?w" using c True starts_build [of ?k "clock w div 1000000" w v] by simp
    moreover have "G ?w (snd (run (start_build app r cs t fs) w))"
      using c True by (simp add: start_build_def run_bind unix_Now_def notifyAdminAction_def alert_def frame_discord)
    ultimately show ?thesis by (rule trans)
  next
    case False
    with c joins_build show ?thesis by (simp add: start_build_def run_bind unix_Now_def)
  qed
qed

lemma build_obeys:
  assumes "k \<in> set (pending_builds w)"
  shows "G w (snd (run (run_build app took k) w))"
proof -
  let ?w = "w\<lparr>pending_builds := remove1 k (pending_builds w)\<rparr>" and ?w1 = "snd (run (run_build app took k) w)"
  obtain v where v: "build_move (task_job k) (vods w) v" "beside_build ?w1 = beside_build (?w\<lparr>vods := v\<rparr>)"
    using runs_buildVod [of k app took, unfolded runs_build_def, rule_format, of ?w]
    by (auto simp: run_build_def run_bind)
  let ?w2 = "w\<lparr>vods := v, pending_builds := remove1 k (pending_builds w)\<rparr>"
  have "G w ?w2" using assms v(1) by (rule ends_build)
  then have "G w (?w2\<lparr>stores := stores ?w1, discord := discord ?w1, next_uuid := next_uuid ?w1\<rparr>)"
    by (rule trans [OF trans [OF trans [OF _ frame_stores] frame_discord] frame_uuid])
  moreover have "?w1 = ?w2\<lparr>stores := stores ?w1, discord := discord ?w1, next_uuid := next_uuid ?w1\<rparr>"
    using v(2) by (intro world.equality) (simp_all add: beside_build_def)
  ultimately show ?thesis by simp
qed

section \<open>The admin page\<close>

lemma resolve_obeys [obeys_intro]: "Key cs \<in> X \<Longrightarrow> obeys G (resolveVodTarget r cs)" "Key cs \<in> X \<Longrightarrow> obeys G (vodResponse app cs t)"
  unfolding resolveVodTarget_def vodResponse_def findVodArtifact_def by (intro obeys_intro; assumption)+

lemma edit_obeys [obeys_intro]: "Key cs \<in> X \<Longrightarrow> obeys G (announceStreamEdit cs before after)"
  unfolding announceStreamEdit_def syncActivationMetric_def by (intro obeys_intro; assumption)

lemma admin_obeys:
  "Key cs \<in> X \<Longrightarrow> obeys G (getAdminInfoHandler app b cs)" "Key cs \<in> X \<Longrightarrow> obeys G (postAdminIncomingHandler app r cs)"
  "Key cs \<in> X \<Longrightarrow> obeys G (deleteAdminIncomingHandler app r cs)" "Key cs \<in> X \<Longrightarrow> obeys G (postAdminRestartHandler app r cs)"
  "Key cs \<in> X \<Longrightarrow> obeys G (deleteAdminRestartHandler app r cs)" "Key cs \<in> X \<Longrightarrow> obeys G (deleteAdminStreamHandler app r cs)"
  "Key cs \<in> X \<Longrightarrow> obeys G (postAdminStreamHandler app r cs)" "Key cs \<in> X \<Longrightarrow> obeys G (postAdminStopHandler app r cs)"
  "Key cs \<in> X \<Longrightarrow> obeys G (getAdminVodHandler app r cs)" "Key cs \<in> X \<Longrightarrow> obeys G (postAdminVodHandler app r cs)"
  "Key cs \<in> X \<Longrightarrow> obeys G (getAdminMembershipHandler app cs)" "Key cs \<in> X \<Longrightarrow> obeys G (postAdminMembershipHandler app r cs)"
  "Key cs \<in> X \<Longrightarrow> obeys G (deleteAdminMembershipHandler app r cs)"
  unfolding getAdminInfoHandler_def postAdminIncomingHandler_def deleteAdminIncomingHandler_def postAdminRestartHandler_def
    deleteAdminRestartHandler_def deleteAdminStreamHandler_def postAdminStreamHandler_def postAdminStopHandler_def
    getAdminVodHandler_def postAdminVodHandler_def getAdminMembershipHandler_def postAdminMembershipHandler_def
    deleteAdminMembershipHandler_def with_membership_def
  by (intro obeys_intro; assumption)+

section \<open>Every request and every sweep\<close>

text \<open>
  The channels a request can name: the one in its path, and for a heartbeat the keys in its body.
\<close>

lemma channel_obeys [obeys_intro]:
  assumes "r_PathValue r ''channel'' \<in> X" "\<And>cs. Key cs \<in> X \<Longrightarrow> obeys G (h cs)"
  shows "obeys G (withChannel app r h)"
proof -
  have "Key cs \<in> X" if "find_channel app (r_PathValue r ''channel'') = Some cs" for cs
    using that assms(1) by (auto simp: find_channel_def find_Some_iff)
  with assms(2) show ?thesis unfolding withChannel_def by (auto split: option.split intro: ret_obeys)
qed

lemma middleware_obeys [obeys_intro]:
  "obeys G m \<Longrightarrow> obeys G (apiKeyMiddleware app r m)"
  "r_PathValue r ''channel'' \<in> X \<Longrightarrow> (\<And>cs. Key cs \<in> X \<Longrightarrow> obeys G (h cs)) \<Longrightarrow> obeys G (withAdminChannel app r h)"
  "obeys G a \<Longrightarrow> obeys G (answer a)" "obeys G o' \<Longrightarrow> obeys G (upgraded o')"
  unfolding apiKeyMiddleware_def withAdminChannel_def answer_def upgraded_def by (auto intro!: obeys_intro)

lemma endpoints_obey:
  assumes "\<And>w. G w (sr_others sr w)" "Key cs \<in> X"
    and "\<And>cs. e = Websocket \<Longrightarrow> Key cs \<in> X \<Longrightarrow>
      obeys G (wsHandler app (sr_upgrade sr) (sr_others sr) (sr_reads sr) cs)"
  shows "worker_endpoint app sr r e = Some wh \<Longrightarrow> obeys G (wh cs)"
    and "admin_endpoint app sr r e = Some ah \<Longrightarrow> obeys G (ah cs)"
    and "public_endpoint app sr r e = Some ph \<Longrightarrow> obeys G (ph cs)"
  using media_obeys [OF assms(2,1)] assms(3) [OF _ assms(2)]
  by (auto simp: worker_endpoint_def admin_endpoint_def public_endpoint_def worker_obeys [OF assms(2)] admin_obeys [OF assms(2)]
      public_obeys(2-5) [OF assms(2)] public_obeys(6) clip_obeys [OF assms(2)] trim_obeys [OF assms(2)] split: endpoint_name.splits intro!: obeys_intro)

lemma offline_obeys [obeys_intro]: "obeys G (alert_offline app t xs)"
  by (induction xs) (auto intro!: obeys_intro)

text \<open>A request that opens a WebSocket is within the guarantee when its handler is.\<close>

lemma request_obeys:
  assumes "\<And>w. G w (sr_others sr w)" "request_within X r"
    and "\<And>cs. opens_websocket r \<Longrightarrow> Key cs \<in> X \<Longrightarrow>
      obeys G (wsHandler app (sr_upgrade sr) (sr_others sr) (sr_reads sr) cs)"
  shows "obeys G (ServeHTTP app sr r)"
proof -
  have "obeys G (serve_route app sr r e)"
    if "e = PublicStatus \<or> e = WorkerEvents \<or> e = Heartbeat \<or> r_PathValue r ''channel'' \<in> X"
      "\<And>q. e = Heartbeat \<Longrightarrow> r_Body r = HeartbeatPayload q \<Longrightarrow> set (req_Keys q) \<subseteq> X"
      "\<And>cs. e = Websocket \<Longrightarrow> Key cs \<in> X \<Longrightarrow> obeys G (wsHandler app (sr_upgrade sr) (sr_others sr) (sr_reads sr) cs)"
    for r e
    unfolding serve_route_def
    using that endpoints_obey [OF assms(1) _ that(3)] public_obeys(1) heartbeat_obeys events_obey
    by (auto split: option.split intro!: obeys_intro)
  note route = this
  show ?thesis
  proof (cases "find_route r")
    case None
    then show ?thesis by (simp add: ServeHTTP_def obeys_map ret_obeys)
  next
    case (Some ev)
    obtain e vs where ev: "find_route r = Some (e, vs)" using Some by (cases ev) simp
    have ws: "opens_websocket r" if "e = Websocket" using ev that by (simp add: opens_websocket_def)
    have "obeys G (serve_route app sr (r\<lparr>r_PathValue := (\<lambda>v. case map_of vs v of None \<Rightarrow> [] | Some x \<Rightarrow> x)\<rparr>) e)"
    proof (rule route)
      fix cs :: channel assume "e = Websocket" "Key cs \<in> X"
      then show "obeys G (wsHandler app (sr_upgrade sr) (sr_others sr) (sr_reads sr) cs)" using assms(3) ws by blast
    qed (use assms(2) ev in \<open>auto simp: request_within_def split: if_splits\<close>)
    then show ?thesis by (simp add: ServeHTTP_def ev obeys_map ret_obeys)
  qed
qed

lemma prune_obeys [obeys_intro]:
  "Key cs \<in> X \<Longrightarrow> obeys G (prune_streams app cs u ss)"
  "Key ` set css \<subseteq> X \<Longrightarrow> obeys G (prune_channels app css)"
proof -
  have *: "obeys G (prune_streams app cs u ss)" if "Key cs \<in> X" for cs u ss
    using that by (induction ss arbitrary: u) (auto intro!: obeys_intro)
  then show "Key cs \<in> X \<Longrightarrow> obeys G (prune_streams app cs u ss)" .
  show "Key ` set css \<subseteq> X \<Longrightarrow> obeys G (prune_channels app css)"
    by (induction css) (auto simp: prune_channel_def intro!: obeys_intro *)
qed

lemma sweep_obeys: "X = UNIV \<Longrightarrow> obeys G (run_sweep app s)"
  unfolding run_sweep_def databaseCleanup_def pruneExpiredStreams_def checkWorkerStatus_def cleanupIncomingStreams_def
  by (cases s) (auto intro!: obeys_intro)

lemma background_obeys:
  "obeys G (run_async_delete app k)" "ch \<in> X \<Longrightarrow> obeys G (QueueIncomingStream app ch url)"
  unfolding run_async_delete_def QueueIncomingStream_def by (intro obeys_intro; assumption)+

lemma pump_obeys: "ch \<in> X \<Longrightarrow> writePump c e (hubs w ch) = Some (ms, going, h) \<Longrightarrow> G w (w\<lparr>hubs := (hubs w)(ch := h)\<rparr>)"
  by (intro hub_moves hub_move.pumped)

lemma init_obeys: "X = UNIV \<Longrightarrow> obeys G (Init app)"
proof -
  assume u: "X = UNIV"
  have "obeys G (mkdirs css)" "obeys G (seed_workers bt t css)" for css bt t
    using u by (induction css) (auto intro!: obeys_intro)
  with u show ?thesis unfolding Init_def by (auto intro!: obeys_intro)
qed

end

text \<open>
  A guarantee that does not look at the hubs of its channels holds of a WebSocket handler as a whole,
  wherever other requests run inside it.
\<close>

locale blind_guarantee = guarantee G X for G :: "'b world \<Rightarrow> 'b world \<Rightarrow> bool" and X :: "string set" +
  assumes blind: "ch \<in> X \<Longrightarrow> G w (w\<lparr>hubs := (hubs w)(ch := h), upgrading := n\<rparr>)"
begin

lemma upgraded_obeys [obeys_intro]: "Key cs \<in> X \<Longrightarrow> obeys G (ws_upgraded cs up)"
  unfolding obeys_def by (simp add: ws_upgraded_def run_bind run_hub_op split: prod.split) (auto intro: blind)

lemma ws_obeys: "Key cs \<in> X \<Longrightarrow> (\<And>w. G w (others w)) \<Longrightarrow> obeys G (wsHandler app up others reads cs)"
  unfolding wsHandler_def ws_serve_def by (intro obeys_intro others_obeys; assumption)

lemma every_request_obeys:
  "(\<And>w. G w (sr_others sr w)) \<Longrightarrow> request_within X r \<Longrightarrow> obeys G (ServeHTTP app sr r)"
  by (rule request_obeys) (auto intro: ws_obeys)

end

end
