(* ===== verification/Server_Props.thy ===== *)
theory Server_Props
  imports Guarantee Samples "HOL-Library.Multiset"
begin

text \<open>
  The running server as a whole: requests in any order and with any content, the sweeps, builds and
  deletions its goroutines run, the write pumps, the release of the parked polls at shutdown, and the
  environment's faults. The invariants below
  hold in every state it can reach.
\<close>

section \<open>Runs\<close>

text \<open>
  \<open>server_run app u w\<close>: the server can get from \<open>u\<close> to \<open>w\<close>. What other requests do while a request
  sleeps or waits is itself a run. A WebSocket handler runs in steps, so that a reservation can be
  outstanding and a viewer connected while everything else runs: \<open>reserved\<close> (or refused), \<open>shook_hands\<close>,
  the initial sync, reads, and \<open>left\<close>. \<open>environment\<close> is everything outside the process: time passes, the
  driver and the disk fail as they please, other programs write to the storage.
\<close>

inductive server_run :: "'b app \<Rightarrow> 'b world \<Rightarrow> 'b world \<Rightarrow> bool" for app :: "'b app" where
  idle: "server_run app u u"
| request: "server_run app u w \<Longrightarrow> \<not> opens_websocket r \<Longrightarrow> (\<And>x. server_run app x (sr_others sr x)) \<Longrightarrow>
     run (ServeHTTP app sr r) w = (a, w') \<Longrightarrow> server_run app u w'"
| reserved: "server_run app u w \<Longrightarrow> cs \<in> set (Channels app) \<Longrightarrow> run (ws_reserve cs) w = (ok, w') \<Longrightarrow> server_run app u w'"
| shook_hands: "server_run app u w \<Longrightarrow> cs \<in> set (Channels app) \<Longrightarrow> 0 < upgrading w (Key cs) \<Longrightarrow>
     run (ws_upgraded cs up) w = (oc, w') \<Longrightarrow> server_run app u w'"
| synced: "server_run app u w \<Longrightarrow> cs \<in> set (Channels app) \<Longrightarrow> run (syncClient app cs c) w = (x, w') \<Longrightarrow> server_run app u w'"
| read: "server_run app u w \<Longrightarrow> cs \<in> set (Channels app) \<Longrightarrow> run (hub_op cs (ReadLoop c reads)) w = (e, w') \<Longrightarrow> server_run app u w'"
| left: "server_run app u w \<Longrightarrow> cs \<in> set (Channels app) \<Longrightarrow> run (ws_leave cs c) w = (b, w') \<Longrightarrow> server_run app u w'"
| swept: "server_run app u w \<Longrightarrow> (s, i, b) \<in> set (sweeps app) \<Longrightarrow> run (run_sweep app s) w = (x, w') \<Longrightarrow> server_run app u w'"
| built: "server_run app u w \<Longrightarrow> k \<in> set (pending_builds w) \<Longrightarrow> run (run_build app took k) w = (x, w') \<Longrightarrow> server_run app u w'"
| deleted: "server_run app u w \<Longrightarrow> p \<in> set (async_deletes w) \<Longrightarrow> run (run_async_delete app p) w = (x, w') \<Longrightarrow> server_run app u w'"
| announced: "server_run app u w \<Longrightarrow> run (QueueIncomingStream app ch url) w = (q, w') \<Longrightarrow> server_run app u w'"
| pumped: "server_run app u w \<Longrightarrow> writePump c e (hubs w ch) = Some (ms, going, h) \<Longrightarrow> server_run app u (w\<lparr>hubs := (hubs w)(ch := h)\<rparr>)"
| alerted: "server_run app u w \<Longrightarrow> server_run app u (w\<lparr>discord := d\<rparr>)"
| stopping: "server_run app u w \<Longrightarrow> server_run app u (w\<lparr>notifier := Release (notifier w)\<rparr>)"
| environment: "server_run app u w \<Longrightarrow> server_run app u (w\<lparr>conn := (conn w)\<lparr>faults := fs\<rparr>, stores := st, clock := t\<rparr>)"

text \<open>A server starts on any database with unique keys, once \<open>Init\<close> has succeeded.\<close>

definition server_reachable :: "'b app \<Rightarrow> 'b world \<Rightarrow> bool" where
  "server_reachable app w \<longleftrightarrow>
     (\<exists>c st now u. schema_ok (conn_db c) \<and> run (Init app) (new_world app c st now) = (Inr (), u) \<and> server_run app u w)"

context guarantee
begin

lemma then_obeys: "G u w \<Longrightarrow> obeys G m \<Longrightarrow> run m w = (x, w') \<Longrightarrow> G u w'"
  using trans [of u w w'] obeysD [of G m w] by simp

lemma server_run_guarantee:
  assumes "server_run app u w" "X = UNIV"
  shows "G u w"
  using assms(1)
proof (induction rule: server_run.induct)
  case (idle u)
  then show ?case by (rule same)
next
  case (request u w r sr a w')
  have "request_within X r" by (auto simp: request_within_def assms(2) split: option.split payload.split)
  then have "obeys G (ServeHTTP app sr r)" using request.hyps(2) by (intro request_obeys request.IH(2)) simp_all
  then show ?case by (rule then_obeys [OF request.IH(1) _ request.hyps(4)])
next
  case (reserved u w cs ok w')
  have "Key cs \<in> X" by (simp add: assms(2))
  then show ?case by (rule then_obeys [OF reserved.IH reserve_obeys reserved.hyps(3)])
next
  case (shook_hands u w cs up oc w')
  have "Key cs \<in> X" by (simp add: assms(2))
  from handshake_obeys [OF this shook_hands.hyps(3), of up] shook_hands.hyps(4) show ?case
    using trans [OF shook_hands.IH] by simp
next
  case (synced u w cs c x w')
  have "Key cs \<in> X" by (simp add: assms(2))
  then show ?case by (rule then_obeys [OF synced.IH sync_obeys synced.hyps(3)])
next
  case (read u w cs c reads e w')
  have "Key cs \<in> X" by (simp add: assms(2))
  then show ?case by (rule then_obeys [OF read.IH read_loop_obeys read.hyps(3)])
next
  case (left u w cs c b w')
  have "Key cs \<in> X" by (simp add: assms(2))
  then show ?case by (rule then_obeys [OF left.IH leave_obeys left.hyps(3)])
next
  case (swept u w s i b x w')
  show ?case by (rule then_obeys [OF swept.IH sweep_obeys [OF assms(2)] swept.hyps(3)])
next
  case (built u w k took x w')
  then show ?case using trans [OF built.IH build_obeys [OF built.hyps(2), of app took]] by simp
next
  case (deleted u w p x w')
  show ?case by (rule then_obeys [OF deleted.IH background_obeys(1) deleted.hyps(3)])
next
  case (announced u w ch url q w')
  have "ch \<in> X" by (simp add: assms(2))
  then show ?case by (rule then_obeys [OF announced.IH background_obeys(2) announced.hyps(2)])
next
  case (pumped u w c e ch ms going h)
  have "ch \<in> X" by (simp add: assms(2))
  then show ?case by (rule trans [OF pumped.IH pump_obeys [OF _ pumped.hyps(2)]])
next
  case (alerted u w d)
  show ?case by (rule trans [OF alerted.IH frame_discord])
next
  case (stopping u w)
  show ?case using trans [OF stopping.IH frame_counters [of w "Release (notifier w)" "counters w"]] by simp
next
  case (environment u w t st fs)
  have "store_move X (conn w) ((conn w)\<lparr>faults := fs\<rparr>)" by (rule store_move.read_only) simp
  from trans [OF trans [OF trans [OF environment.IH db_moves [OF this]] frame_stores] frame_clock] show ?case by simp
qed

lemma reachable_guarantee:
  assumes "server_reachable app w" "X = UNIV"
  shows "\<exists>c st now. schema_ok (conn_db c) \<and> G (new_world app c st now) w"
proof -
  obtain c st now u where s: "schema_ok (conn_db c)" "run (Init app) (new_world app c st now) = (Inr (), u)" "server_run app u w"
    using assms(1) unfolding server_reachable_def by blast
  have "G (new_world app c st now) u" using then_obeys [OF same init_obeys [OF assms(2)] s(2)] .
  from trans [OF this server_run_guarantee [OF s(3) assms(2)]] s(1) show ?thesis by blast
qed

end

section \<open>The tables keep their keys\<close>

interpretation keys: guarantee "\<lambda>w w'. schema_ok (world_db w) \<longrightarrow> schema_ok (world_db w')" UNIV
proof
  fix w :: "'b world" and c
  assume "store_move UNIV (conn w) c"
  then show "schema_ok (world_db w) \<longrightarrow> schema_ok (world_db (w\<lparr>conn := c\<rparr>))"
    by (cases rule: store_move.cases) (auto simp: world_db_def dest: store_step_schema_ok)
qed (auto simp: world_db_def)

section \<open>Channels do not touch each other\<close>

definition apart :: "string set \<Rightarrow> 'b world \<Rightarrow> 'b world \<Rightarrow> bool" where
  "apart X w w' \<longleftrightarrow> (\<forall>ch. ch \<notin> X \<longrightarrow> channel_rows ch (world_db w') = channel_rows ch (world_db w) \<and> hubs w' ch = hubs w ch)"

interpretation isolated: blind_guarantee "apart X" X for X
proof
  fix w :: "'b world" and c
  assume "store_move X (conn w) c"
  then show "apart X w (w\<lparr>conn := c\<rparr>)"
    by (cases rule: store_move.cases) (auto simp: world_db_def apart_def)
qed (auto simp: world_db_def apart_def)

section \<open>Hubs keep to their limits\<close>

lemma hub_steps:
  assumes "hub_reachable M \<lparr>the_hub = h, pending = n\<rparr>"
  shows "hub_reachable M \<lparr>the_hub = snd (Remove c h), pending = n\<rparr>"
    and "hub_reachable M \<lparr>the_hub = remove_each cs h, pending = n\<rparr>"
proof -
  have R: "hub_reachable M \<lparr>the_hub = snd (Remove c h), pending = n\<rparr>" if h: "hub_reachable M \<lparr>the_hub = h, pending = n\<rparr>" for c h
  proof -
    obtain b h1 where l: "remove_locked c h = (b, h1)" by fastforce
    have 1: "hub_reachable M \<lparr>the_hub = h1, pending = n\<rparr>"
      using hub_next [OF h hub_step.remove_entry] l by fastforce
    have "distinct (clients h)" using hub_reachable_inv [OF h] by (simp add: hub_inv_def)
    then have "b \<Longrightarrow> c \<notin> set (clients h1)" using l by (auto simp: remove_locked_def split: if_splits)
    then have "b \<Longrightarrow> hub_reachable M \<lparr>the_hub = close_client c h1, pending = n\<rparr>"
      using hub_next [OF 1 hub_step.close_removed, of c] by simp
    with 1 l show ?thesis by (cases b) (simp_all add: Remove_def)
  qed
  show "hub_reachable M \<lparr>the_hub = snd (Remove c h), pending = n\<rparr>" using R [OF assms] .
  show "hub_reachable M \<lparr>the_hub = remove_each cs h, pending = n\<rparr>" using assms
    by (induction cs arbitrary: h) (simp_all add: R)
qed

lemma hub_pop: "hub_reachable M \<lparr>the_hub = h, pending = n\<rparr> \<Longrightarrow> pump_pop c h = Some h1 \<Longrightarrow>
  hub_reachable M \<lparr>the_hub = h1, pending = n\<rparr>"
  using hub_next [OF _ hub_step.pump] by fastforce

lemma hub_written: "hub_reachable M \<lparr>the_hub = h, pending = n\<rparr> \<Longrightarrow>
  hub_reachable M \<lparr>the_hub = write_returns c h, pending = n\<rparr>"
  using hub_next [OF _ hub_step.wrote] by fastforce

lemma hub_move_reachable:
  assumes "hub_move h h'" "hub_reachable M \<lparr>the_hub = h, pending = n\<rparr>"
  shows "hub_reachable M \<lparr>the_hub = h', pending = n\<rparr>"
  using assms
proof (cases rule: hub_move.cases)
  case (sent c m ok)
  then show ?thesis using hub_next [OF assms(2) hub_step.try_send] by fastforce
next
  case (cast m)
  obtain stale h1 where sa: "send_all (clients h) m h = (stale, h1)" by fastforce
  then have "hub_reachable M \<lparr>the_hub = h1, pending = n\<rparr>"
    using hub_next [OF assms(2) hub_step.broadcast_send] by fastforce
  from hub_steps(2) [OF this] show ?thesis by (simp add: cast sa Broadcast_def)
next
  case (left c b)
  then show ?thesis using hub_steps(1) [OF assms(2), of c] by simp
next
  case (pumped c e ms going)
  then show ?thesis using hub_steps(1) [OF assms(2)] hub_pop [OF assms(2)] hub_written [OF assms(2)] hub_steps(1) [OF hub_written [OF assms(2)]]
    by (auto simp: writePump_def split: pump_event.splits option.splits if_splits prod.splits)
qed

definition hubs_ok :: "int \<Rightarrow> 'b world \<Rightarrow> bool" where
  "hubs_ok M w \<longleftrightarrow> (\<forall>ch. hub_reachable M \<lparr>the_hub = hubs w ch, pending = upgrading w ch\<rparr>)"

interpretation limits: guarantee "\<lambda>w w'. hubs_ok M w \<longrightarrow> hubs_ok M w'" UNIV for M
proof
  fix w :: "'b world" and ch h
  assume "hub_move (hubs w ch) h"
  then show "hubs_ok M w \<longrightarrow> hubs_ok M (w\<lparr>hubs := (hubs w)(ch := h)\<rparr>)"
    by (auto simp: hubs_ok_def intro: hub_move_reachable)
next
  fix w :: "'b world" and ch h
  assume r: "Reserve (hubs w ch) = (True, h)"
  have "hub_reachable M \<lparr>the_hub = h, pending = Suc (upgrading w ch)\<rparr>"
    if "hub_reachable M \<lparr>the_hub = hubs w ch, pending = upgrading w ch\<rparr>"
    using hub_next [OF that hub_step.reserve] r by fastforce
  then show "hubs_ok M w \<longrightarrow> hubs_ok M (w\<lparr>hubs := (hubs w)(ch := h), upgrading := (upgrading w)(ch := Suc (upgrading w ch))\<rparr>)"
    by (auto simp: hubs_ok_def)
next
  fix w :: "'b world" and ch n
  assume n: "upgrading w ch = Suc n"
  have "hub_reachable M \<lparr>the_hub = Unreserve (hubs w ch), pending = n\<rparr>"
    if "hub_reachable M \<lparr>the_hub = hubs w ch, pending = upgrading w ch\<rparr>"
    using hub_next [OF that hub_step.upgrade_failed] n by fastforce
  then show "hubs_ok M w \<longrightarrow> hubs_ok M (w\<lparr>hubs := (hubs w)(ch := Unreserve (hubs w ch)), upgrading := (upgrading w)(ch := n)\<rparr>)"
    by (auto simp: hubs_ok_def)
next
  fix w :: "'b world" and ch n c h
  assume n: "upgrading w ch = Suc n" "Add (hubs w ch) = (c, h)"
  have "hub_reachable M \<lparr>the_hub = h, pending = n\<rparr>"
    if "hub_reachable M \<lparr>the_hub = hubs w ch, pending = upgrading w ch\<rparr>"
    using hub_next [OF that hub_step.add] n by fastforce
  then show "hubs_ok M w \<longrightarrow> hubs_ok M (w\<lparr>hubs := (hubs w)(ch := h), upgrading := (upgrading w)(ch := n)\<rparr>)"
    by (auto simp: hubs_ok_def)
qed (auto simp: hubs_ok_def)

section \<open>Running jobs and started builds agree\<close>

definition builds_ok :: "'b world \<Rightarrow> bool" where
  "builds_ok w \<longleftrightarrow> (\<exists>act forg. vod_reachable \<lparr>reg = vods w, active = act, forgotten = forg\<rparr> \<and>
     mset act = image_mset (\<lambda>k. (task_job k, task_key k)) (mset (pending_builds w)))"

lemma builds_okI:
  "vod_reachable \<lparr>reg = vods w, active = act, forgotten = forg\<rparr> \<Longrightarrow>
   mset act = image_mset (\<lambda>k. (task_job k, task_key k)) (mset (pending_builds w)) \<Longrightarrow> builds_ok w"
  unfolding builds_ok_def by blast

lemma filter_key_remove1: "distinct (map fst xs) \<Longrightarrow> (a, b) \<in> set xs \<Longrightarrow> filter (\<lambda>y. fst y \<noteq> a) xs = remove1 (a, b) xs"
proof (induction xs)
  case (Cons y ys)
  show ?case
  proof (cases "y = (a, b)")
    case True
    with Cons.prems(1) have "filter (\<lambda>y. fst y \<noteq> a) ys = ys" by (force simp: filter_id_conv)
    with True show ?thesis by simp
  next
    case False
    with Cons.prems(2) have ab: "(a, b) \<in> set ys" by simp
    then have "a \<in> fst ` set ys" by force
    with Cons.prems(1) have "fst y \<noteq> a" by auto
    with Cons ab False show ?thesis by simp
  qed
qed simp

lemma build_move_reachable:
  assumes "build_move j v v'" "vod_reachable \<lparr>reg = v, active = act, forgotten = forg\<rparr>" "(j, k) \<in> set act"
  shows "vod_reachable \<lparr>reg = v', active = filter (\<lambda>a. fst a \<noteq> j) act, forgotten = forg\<rparr>"
  using assms
proof (induction rule: build_move.induct)
  case (build_phase p v v')
  from vod_next [OF build_phase.prems(1) vod_step.phase] build_phase.prems(2) build_phase.IH show ?case by force
next
  case (build_end v err now)
  from vod_next [OF build_end.prems(1) vod_step.finished] build_end.prems(2) show ?case by force
qed

interpretation builds: guarantee "\<lambda>w w'. builds_ok w \<longrightarrow> builds_ok w'" UNIV
proof
  fix w :: "'b world" and ch sid now j v
  assume c: "vod_claim ch sid now (vods w) = ((j, False), v)"
  then have "v = vods w" by (cases rule: claim_cases) auto
  then show "builds_ok w \<longrightarrow> builds_ok (w\<lparr>vods := v\<rparr>)" by simp
next
  fix w :: "'b world" and k :: vod_task and now v
  assume c: "vod_claim (Key (task_channel k)) (StreamID (tgt_stream (task_target k))) now (vods w) = ((task_job k, True), v)"
  show "builds_ok w \<longrightarrow> builds_ok (w\<lparr>vods := v, pending_builds := pending_builds w @ [k]\<rparr>)"
  proof
    assume "builds_ok w"
    then obtain act forg where a: "vod_reachable \<lparr>reg = vods w, active = act, forgotten = forg\<rparr>"
      "mset act = image_mset (\<lambda>k. (task_job k, task_key k)) (mset (pending_builds w))" unfolding builds_ok_def by blast
    have "vod_reachable \<lparr>reg = v, active = (task_job k, task_key k) # act, forgotten = forg\<rparr>"
      using vod_next [OF a(1) vod_step.claim_started] c by (fastforce simp: task_key_def)
    then show "builds_ok (w\<lparr>vods := v, pending_builds := pending_builds w @ [k]\<rparr>)"
      by (intro builds_okI [where act = "(task_job k, task_key k) # act"]) (simp_all add: a(2))
  qed
next
  fix w :: "'b world" and k :: vod_task and v
  assume k: "k \<in> set (pending_builds w)" "build_move (task_job k) (vods w) v"
  show "builds_ok w \<longrightarrow> builds_ok (w\<lparr>vods := v, pending_builds := remove1 k (pending_builds w)\<rparr>)"
  proof
    assume "builds_ok w"
    then obtain act forg where a: "vod_reachable \<lparr>reg = vods w, active = act, forgotten = forg\<rparr>"
      "mset act = image_mset (\<lambda>k. (task_job k, task_key k)) (mset (pending_builds w))" unfolding builds_ok_def by blast
    have m: "(task_job k, task_key k) \<in> set act"
      using k(1) arg_cong [OF a(2), of set_mset] by auto
    have d: "distinct (map fst act)" using vod_reachable_inv [OF a(1)] by (simp add: vod_inv_def)
    have "mset (filter (\<lambda>a. fst a \<noteq> task_job k) act)
        = image_mset (\<lambda>k. (task_job k, task_key k)) (mset (remove1 k (pending_builds w)))"
      using k(1) by (simp add: filter_key_remove1 [OF d m] a(2) image_mset_Diff)
    with build_move_reachable [OF k(2) a(1) m]
    show "builds_ok (w\<lparr>vods := v, pending_builds := remove1 k (pending_builds w)\<rparr>)"
      by (intro builds_okI [where act = "filter (\<lambda>a. fst a \<noteq> task_job k) act"]) simp_all
  qed
next
  fix w :: "'b world" and ch sid
  show "builds_ok w \<longrightarrow> builds_ok (w\<lparr>vods := vod_forget ch sid (vods w)\<rparr>)"
  proof
    assume "builds_ok w"
    then obtain act forg where a: "vod_reachable \<lparr>reg = vods w, active = act, forgotten = forg\<rparr>"
      "mset act = image_mset (\<lambda>k. (task_job k, task_key k)) (mset (pending_builds w))" unfolding builds_ok_def by blast
    from vod_next [OF a(1) vod_step.forget] a(2) show "builds_ok (w\<lparr>vods := vod_forget ch sid (vods w)\<rparr>)"
      by (intro builds_okI [where act = act]) simp_all
  qed
qed (auto simp: builds_ok_def)

section \<open>Every reachable state\<close>

text \<open>
  C11. Whatever requests arrive, in whatever order, and whatever fails, the database of a running server
  keeps the keys of its tables: no two streams of a channel share an identifier, no two lines of a
  stream an id, no two queue entries of a channel a URL, and a channel has one worker row and one
  restart flag at most.
\<close>

theorem server_keeps_table_keys:
  assumes "server_reachable app w"
  shows "distinct (map (\<lambda>s. (ChannelID s, StreamID s)) (streams (world_db w))) \<and>
    distinct (map (\<lambda>r. (row_channel r, row_stream r, row_id r)) (transcripts (world_db w))) \<and>
    distinct (map (\<lambda>r. (in_channel r, in_url r)) (incoming (world_db w))) \<and>
    distinct (map ChannelKey (worker_rows (world_db w))) \<and> distinct (map rs_channel (restarts (world_db w)))"
proof -
  have k: "stream_key = (\<lambda>s. (ChannelID s, StreamID s))" "row_key = (\<lambda>r. (row_channel r, row_stream r, row_id r))"
    "incoming_key = (\<lambda>r. (in_channel r, in_url r))"
    by (simp_all add: fun_eq_iff stream_key_def row_key_def incoming_key_def)
  show ?thesis
    using keys.reachable_guarantee [OF assms refl] by (auto simp: schema_ok_def world_db_def new_world_def simp flip: k)
qed

text \<open>
  C12. The hubs of a running server keep to their limits, whatever clients do and however the handshakes
  of several viewers interleave: in every reachable state the connection count of a channel is exactly
  its registered clients plus the handlers that have reserved a slot and are still in their handshake,
  it never exceeds the configured maximum, no client is registered twice, and each registered client is
  open and has at most 256 messages queued.
\<close>

theorem server_hubs_within_limits:
  assumes "server_reachable app w" "0 \<le> MaxConn app"
  shows "connections (hubs w ch) = int (length (clients (hubs w ch)) + upgrading w ch) \<and> connections (hubs w ch) \<le> MaxConn app \<and>
    distinct (clients (hubs w ch)) \<and>
    (\<forall>c \<in> set (clients (hubs w ch)). \<exists>cl. heap (hubs w ch) c = Some cl \<and> \<not> done_closed cl \<and> length (send cl) \<le> 256)"
proof -
  have "hubs_ok (MaxConn app) (new_world app c st now)" for c st now
    by (simp add: hubs_ok_def new_world_def hub_start)
  then have "hubs_ok (MaxConn app) w" using limits.reachable_guarantee [OF assms(1) refl, of "MaxConn app"] by blast
  then have "hub_inv \<lparr>the_hub = hubs w ch, pending = upgrading w ch\<rparr> \<and> maxConn (hubs w ch) = MaxConn app"
    unfolding hubs_ok_def using hub_reachable_inv by fastforce
  then show ?thesis using assms(2) by (auto simp: hub_inv_def send_capacity_def)
qed

text \<open>
  C17. The registry never lies about a build: in every reachable state a job is running exactly when it
  belongs to a build goroutine that was started and has not ended, and every such goroutine has a
  running job of its own. So a stream whose build died is never reported as building.
\<close>

theorem running_jobs_are_started_builds:
  assumes "server_reachable app w"
  shows "(is_running j (vods w) \<longleftrightarrow> (\<exists>k \<in> set (pending_builds w). task_job k = j)) \<and>
    distinct (map task_job (pending_builds w))"
proof -
  have "builds_ok (new_world app c st now)" for c st now
    by (rule builds_okI [where act = "[]" and forg = "[]"]) (simp_all add: new_world_def vod_start)
  then have "builds_ok w" using builds.reachable_guarantee [OF assms refl] by blast
  then obtain act forg where a: "vod_reachable \<lparr>reg = vods w, active = act, forgotten = forg\<rparr>"
    "mset act = image_mset (\<lambda>k. (task_job k, task_key k)) (mset (pending_builds w))" unfolding builds_ok_def by blast
  have inv: "vod_inv \<lparr>reg = vods w, active = act, forgotten = forg\<rparr>" using a(1) by (rule vod_reachable_inv)
  have jobs: "mset (map fst act) = mset (map task_job (pending_builds w))"
    using arg_cong [OF a(2), of "image_mset fst"] by (simp add: image_mset.compositionality comp_def)
  have "is_running j (vods w) \<longleftrightarrow> j \<in> set (map fst act)" using inv by (fastforce simp: vod_inv_def)
  also have "\<dots> \<longleftrightarrow> j \<in> set (map task_job (pending_builds w))" using jobs by (metis set_mset_mset)
  finally have "is_running j (vods w) \<longleftrightarrow> (\<exists>k \<in> set (pending_builds w). task_job k = j)" by auto
  moreover have "distinct (map task_job (pending_builds w))"
    using inv mset_eq_imp_distinct_iff [OF jobs] by (simp add: vod_inv_def)
  ultimately show ?thesis ..
qed

lemma find_route_entry:
  assumes "find_route r = Some (e, vs)"
  shows "\<exists>m p. (m, p, e) \<in> set routes \<and> match_segments p (path_segments (r_Path r)) = Some vs \<and>
    method_matches m (r_Method r)"
proof -
  let ?hit = "\<lambda>(m, p, e). method_matches m (r_Method r) \<and> match_segments p (path_segments (r_Path r)) \<noteq> None"
  obtain x rest where x: "filter ?hit routes = x # rest" using assms by (auto simp: find_route_def split: list.splits)
  then have "x \<in> set (filter ?hit routes)" by simp
  then have "x \<in> set routes" "?hit x" by simp_all
  with assms x show ?thesis by (cases x) (auto simp: find_route_def)
qed

lemma literal_binds_nothing: "match_segments [Lit l] xs = Some vs \<Longrightarrow> vs = []"
  by (cases xs; cases "tl xs") (auto split: if_splits)

text \<open>
  C3. Channels are isolated: a request whose path names a channel changes no row of any other channel,
  in any table, and reaches no viewer of another channel, whoever sends it and with whatever key.
\<close>

theorem requests_stay_in_their_channel:
  assumes "find_route r = Some (e, vs)" "map_of vs ''channel'' = Some ch" "ch' \<noteq> ch"
    and "\<forall>w. channel_rows ch' (world_db (sr_others sr w)) = channel_rows ch' (world_db w) \<and> hubs (sr_others sr w) ch' = hubs w ch'"
  shows "channel_rows ch' (world_db (snd (run (ServeHTTP app sr r) w))) = channel_rows ch' (world_db w) \<and>
    hubs (snd (run (ServeHTTP app sr r) w)) ch' = hubs w ch'"
proof -
  have "e \<noteq> Heartbeat"
  proof
    assume "e = Heartbeat"
    then obtain m p where p: "(m, p, Heartbeat) \<in> set routes" "match_segments p (path_segments (r_Path r)) = Some vs"
      using find_route_entry [OF assms(1)] by blast
    from p(1) have "p = [Lit ''status'']" by (auto simp: routes_def)
    with p(2) have "vs = []" using literal_binds_nothing by blast
    with assms(2) show False by simp
  qed
  with assms(1-3) have within: "request_within (- {ch'}) r" by (simp add: request_within_def)
  have others: "apart (- {ch'}) u (sr_others sr u)" for u using assms(4) by (simp add: apart_def)
  have "obeys (apart (- {ch'})) (ServeHTTP app sr r)" by (rule isolated.every_request_obeys [OF others within])
  from obeysD [OF this, of w] show ?thesis by (simp add: apart_def)
qed

section \<open>A running sample\<close>

text \<open>
  A server started on a database with one ended stream, whose only line has media, and then asked to
  build it.
\<close>

definition ended_stream :: dbconn where
  "ended_stream = \<lparr>conn_db = createSchema\<lparr>streams := [sample_stream ''a'' False 1],
     transcripts := [\<lparr>row_channel = ''ch'', row_stream = ''a'', row_id = 0, row_file = Some ''f'', row_timestamp = 0,
       row_segments = ''[]'', row_available = True, row_accurate = True\<rparr>]\<rparr>, faults = []\<rparr>"

definition started_world :: "unit world" where
  "started_world = snd (run (Init sample_app) (new_world sample_app ended_stream empty_store 100000000))"

definition build_request :: request where
  "build_request = (plain_request ''POST'' ''/ch/admin/vod/a'')\<lparr>
     r_Header := (\<lambda>h. if h = ''X-Admin-Key'' then ''adm'' else []),
     r_Query := (\<lambda>q. if q = ''format'' then ''m4a'' else [])\<rparr>"

definition asked_world :: "unit world" where
  "asked_world = snd (run (ServeHTTP sample_app quiet build_request) started_world)"

lemma started_reachable: "server_run sample_app started_world u \<Longrightarrow> server_reachable sample_app u"
proof -
  assume "server_run sample_app started_world u"
  moreover have "schema_ok (conn_db ended_stream)" by code_simp
  moreover have "fst (run (Init sample_app) (new_world sample_app ended_stream empty_store 100000000)) = Inr ()" by code_simp
  ultimately show ?thesis unfolding server_reachable_def started_world_def by (metis prod.collapse)
qed

lemma asked_reachable: "server_reachable sample_app asked_world"
proof (rule started_reachable)
  have ws: "\<not> opens_websocket build_request" by code_simp
  have "server_run sample_app x (sr_others quiet x)" for x by (simp add: quiet_def idle)
  then show "server_run sample_app started_world asked_world"
    unfolding asked_world_def by (intro server_run.request [OF idle _ _ prod.collapse [symmetric]]) (simp_all add: ws)
qed

theorem server_keeps_table_keys_witness:
  "streams (world_db asked_world) \<noteq> [] \<and> distinct (map (\<lambda>s. (ChannelID s, StreamID s)) (streams (world_db asked_world)))"
proof -
  have "streams (world_db asked_world) \<noteq> []" by code_simp
  with server_keeps_table_keys [OF asked_reachable] show ?thesis by blast
qed

theorem running_jobs_are_started_builds_witness:
  "is_running 0 (vods asked_world) \<and> length (pending_builds asked_world) = 1"
proof -
  have "map task_job (pending_builds asked_world) = [0]" by code_simp
  then have "\<exists>k \<in> set (pending_builds asked_world). task_job k = 0" "length (pending_builds asked_world) = 1"
    by (auto dest: map_eq_Cons_D)
  with running_jobs_are_started_builds [OF asked_reachable, of 0] show ?thesis by blast
qed

text \<open>One viewer has connected, and another is in its handshake.\<close>

definition watched_world :: "unit world" where
  "watched_world = snd (run (ws_upgraded sample_channel True) (snd (run (ws_reserve sample_channel) started_world)))"

definition handshake_world :: "unit world" where
  "handshake_world = snd (run (ws_reserve sample_channel) watched_world)"

lemma watched_run: "server_run sample_app started_world watched_world"
proof -
  have cs: "sample_channel \<in> set (Channels sample_app)" by simp
  have u: "0 < upgrading (snd (run (ws_reserve sample_channel) started_world)) (Key sample_channel)" by code_simp
  show ?thesis
    unfolding watched_world_def
    by (rule server_run.shook_hands [OF server_run.reserved [OF idle cs prod.collapse [symmetric]] cs u prod.collapse [symmetric]])
qed

lemma handshake_reachable: "server_reachable sample_app handshake_world"
  unfolding handshake_world_def
  by (rule started_reachable, rule server_run.reserved [OF watched_run _ prod.collapse [symmetric]]) simp

theorem server_hubs_within_limits_witness:
  "clients (hubs handshake_world ''ch'') = [0] \<and> upgrading handshake_world ''ch'' = 1 \<and>
   connections (hubs handshake_world ''ch'') = 2"
proof -
  have c: "clients (hubs handshake_world ''ch'') = [0]" "upgrading handshake_world ''ch'' = 1" by code_simp+
  have "0 \<le> MaxConn sample_app" by (simp add: sample_app_def)
  from server_hubs_within_limits [OF handshake_reachable this, of "''ch''"] c show ?thesis by simp
qed

theorem requests_stay_in_their_channel_witness:
  "channel_rows ''other'' (world_db (snd (run (ServeHTTP sample_app quiet build_request) started_world)))
     = channel_rows ''other'' (world_db started_world) \<and> pending_builds asked_world \<noteq> []"
proof -
  have f: "find_route build_request = Some (AdminPostVod, [(''channel'', ''ch''), (''streamID'', ''a'')])" by code_simp
  have "pending_builds asked_world \<noteq> []" by code_simp
  moreover have "sr_others quiet = (\<lambda>w :: unit world. w)" by (simp add: quiet_def)
  ultimately show ?thesis
    using requests_stay_in_their_channel [OF f, of "''ch''" "''other''" quiet sample_app started_world] by simp
qed

end
