(* ===== verification/Shutdown.thy ===== *)
theory Shutdown
  imports Server_Process Server_Props
begin

text \<open>
  The life of the process behind \<^verbatim>\<open>main\<close>: the goroutines of a running server and the shutdown, as a
  step relation. It models the second half of \<^verbatim>\<open>cmd/web/main.go\<close>, \<^verbatim>\<open>runPeriodic\<close>, \<^verbatim>\<open>App.Close\<close>,
  \<^verbatim>\<open>startWatchdog\<close>, \<^verbatim>\<open>runWatchdog\<close>, \<^verbatim>\<open>Bot.Close\<close>, \<^verbatim>\<open>Hub.Wait\<close> and \<^verbatim>\<open>Store.Close\<close>. What the shutdown waits
  for is state: requests in flight, sweeps, asynchronous deletions (\<^verbatim>\<open>async_deletes\<close> of the world),
  write pumps and the watchdog. What it does not wait for is \<open>detached\<close> (hijacked connections and
  requests that outlive the ten seconds), the VOD builds and the handlers of gateway messages. A handler
  is one step, but for the WebSocket handler, whose steps are those of \<^verbatim>\<open>wsHandler\<close>; the warm-up scan of
  \<^verbatim>\<open>store.Open\<close> and the goroutines that post to Discord webhooks, which change no state of the model,
  are not among the actors.
\<close>

section \<open>State\<close>

datatype stage =
    Serving
  | PollsReleased
  | Draining \<comment> \<open>in \<^verbatim>\<open>httpServer.Shutdown\<close>\<close>
  | ClosingBot \<comment> \<open>in \<^verbatim>\<open>Bot.Close\<close>, \<^verbatim>\<open>stop\<close> is closed\<close>
  | ClosingApp \<comment> \<open>in \<^verbatim>\<open>App.Close\<close>, the context is cancelled\<close>
  | WaitingHubs "string list" \<comment> \<open>the channels whose pumps are still waited for\<close>
  | StoreClosed
  | Exited
  | Aborted \<comment> \<open>\<^verbatim>\<open>os.Exit(1)\<close>: the listener failed\<close>

datatype loop_pc = Working | Selecting | Ended

text \<open>
  Where the goroutine of a request is: still to be answered, in the handshake of a WebSocket, past the
  point where the connection is hijacked from the HTTP server, or reading from its viewer.
\<close>

datatype handler_state =
    Answering request
  | Upgrading channel
  | Hijacked channel
  | Viewing channel nat

fun off_server :: "handler_state \<Rightarrow> bool" where
  "off_server (Hijacked cs) \<longleftrightarrow> True"
| "off_server (Viewing cs c) \<longleftrightarrow> True"
| "off_server _ \<longleftrightarrow> False"

record 'b live =
  lv_world :: "'b world"
  lv_stage :: stage
  in_flight :: "handler_state list"
  detached :: "handler_state list"
  lv_sweeps :: "(sweep \<times> loop_pc) list"
  ended_pumps :: "(string \<times> nat) set"
  watchdog :: loop_pc
  lv_bot :: bot_state
  session_open :: bool
  messages :: "(string \<times> string) list" \<comment> \<open>channel and text of messages whose handler has not run\<close>

text \<open>Derived state: \<^verbatim>\<open>app.ctx\<close> is done, \<^verbatim>\<open>b.stop\<close> is closed, the database handle is open.\<close>

fun stage_rank :: "stage \<Rightarrow> nat" where
  "stage_rank Serving = 0"
| "stage_rank PollsReleased = 1"
| "stage_rank Draining = 2"
| "stage_rank ClosingBot = 3"
| "stage_rank ClosingApp = 4"
| "stage_rank (WaitingHubs _) = 5"
| "stage_rank StoreClosed = 6"
| "stage_rank Exited = 7"
| "stage_rank Aborted = 0"

definition alive :: "'b live \<Rightarrow> bool" where
  "alive l \<longleftrightarrow> lv_stage l \<notin> {Exited, Aborted}"

definition cancelled :: "'b live \<Rightarrow> bool" where
  "cancelled l \<longleftrightarrow> 4 \<le> stage_rank (lv_stage l)"

definition bot_stopped :: "'b live \<Rightarrow> bool" where
  "bot_stopped l \<longleftrightarrow> 3 \<le> stage_rank (lv_stage l)"

definition store_open :: "'b live \<Rightarrow> bool" where
  "store_open l \<longleftrightarrow> stage_rank (lv_stage l) < 6"

definition pump_running :: "'b app \<Rightarrow> 'b live \<Rightarrow> string \<Rightarrow> nat \<Rightarrow> bool" where
  "pump_running app l ch c \<longleftrightarrow> ch \<in> Key ` set (Channels app) \<and> c < next_ref (hubs (lv_world l) ch) \<and> (ch, c) \<notin> ended_pumps l"

text \<open>
  The three waits: \<^verbatim>\<open>Hub.Wait\<close> of a channel, \<^verbatim>\<open>app.wg.Wait\<close> (the sweeps and the asynchronous deletions),
  and \<^verbatim>\<open>Bot.Close\<close>, which closes the session once the watchdog has returned.
\<close>

definition hub_Wait_returns :: "'b app \<Rightarrow> 'b live \<Rightarrow> string \<Rightarrow> bool" where
  "hub_Wait_returns app l ch \<longleftrightarrow> list_all (\<lambda>c. \<not> pump_running app l ch c) [0..<next_ref (hubs (lv_world l) ch)]"

definition tasks_Wait_returns :: "'b live \<Rightarrow> bool" where
  "tasks_Wait_returns l \<longleftrightarrow> list_all (\<lambda>t. snd t = Ended) (lv_sweeps l) \<and> async_deletes (lv_world l) = []"

definition Bot_Close :: "'b live \<Rightarrow> 'b live option" where
  "Bot_Close l = (if watchdog l = Ended then Some (l\<lparr>session_open := False\<rparr>) else None)"

lemma Bot_Close_Some: "Bot_Close l = Some l' \<longleftrightarrow> watchdog l = Ended \<and> l' = l\<lparr>session_open := False\<rparr>"
  by (auto simp: Bot_Close_def)

lemma hub_Wait_iff: "hub_Wait_returns app l ch \<longleftrightarrow> (\<forall>c. \<not> pump_running app l ch c)"
  by (auto simp: hub_Wait_returns_def list_all_iff pump_running_def)

text \<open>A pump whose write only the network can end.\<close>

definition stalled :: "'b app \<Rightarrow> 'b live \<Rightarrow> string \<Rightarrow> nat \<Rightarrow> bool" where
  "stalled app l ch c \<longleftrightarrow> pump_running app l ch c \<and> write_stuck c (hubs (lv_world l) ch)"

text \<open>The channel whose WebSocket the request opens; any other request is answered in one step.\<close>

definition websocket_channel :: "'b app \<Rightarrow> request \<Rightarrow> channel option" where
  "websocket_channel app r =
     (case find_route r of
        Some (Websocket, vs) \<Rightarrow> find_channel app (case map_of vs ''channel'' of None \<Rightarrow> [] | Some x \<Rightarrow> x)
      | _ \<Rightarrow> None)"

lemma websocket_request_runs_wsHandler:
  assumes "websocket_channel app r = Some cs"
  shows "ServeHTTP app sr r =
    map_state with_cors (upgraded (wsHandler app (sr_upgrade sr) (sr_others sr) (sr_reads sr) cs))"
proof -
  obtain vs where f: "find_route r = Some (Websocket, vs)" "find_channel app (case map_of vs ''channel'' of None \<Rightarrow> [] | Some x \<Rightarrow> x) = Some cs"
    using assms by (auto simp: websocket_channel_def split: option.splits endpoint_name.splits)
  obtain m p where "(m, p, Websocket) \<in> set routes" "method_matches m (r_Method r)"
    using find_route_entry [OF f(1)] by blast
  then have "r_Method r \<noteq> ''OPTIONS''" by (auto simp: routes_def method_matches_def)
  with f show ?thesis
    by (simp add: ServeHTTP_def serve_route_def worker_endpoint_def admin_endpoint_def public_endpoint_def withChannel_def)
qed

text \<open>The process as \<^verbatim>\<open>main\<close> leaves it when it starts to wait for a signal.\<close>

definition start_sweep :: "sweep \<times> int \<times> bool \<Rightarrow> sweep \<times> loop_pc" where
  "start_sweep t = (case t of (s, interval, immediately) \<Rightarrow> (s, if immediately then Working else Selecting))"

definition startWatchdog :: "bot option \<Rightarrow> loop_pc" where
  "startWatchdog bo = (case bo of None \<Rightarrow> Ended | Some _ \<Rightarrow> Selecting)"

definition live_start :: "bot option \<Rightarrow> unit res \<Rightarrow> 'b process \<Rightarrow> 'b live" where
  "live_start bo opened p =
     \<lparr>lv_world = pr_world p, lv_stage = Serving, in_flight = [], detached = [],
      lv_sweeps = map start_sweep (pr_sweeps p), ended_pumps = {},
      watchdog = startWatchdog bo, lv_bot = pr_bot p,
      session_open = (bo \<noteq> None \<and> opened = Inr ()), messages = []\<rparr>"

section \<open>Steps\<close>

text \<open>
  The loop of \<^verbatim>\<open>runPeriodic\<close> and of \<^verbatim>\<open>runWatchdog\<close>: the select takes a tick or, once the channel \<open>stop\<close>
  is closed, may return; with both ready Go picks either.
\<close>

fun loop_step :: "bool \<Rightarrow> loop_pc \<Rightarrow> loop_pc \<Rightarrow> bool" where
  "loop_step stop Selecting Working \<longleftrightarrow> True"
| "loop_step stop Selecting Ended \<longleftrightarrow> stop"
| "loop_step stop Working Selecting \<longleftrightarrow> True"
| "loop_step stop q q' \<longleftrightarrow> False"

definition watchdog_step :: "bool \<Rightarrow> loop_pc \<Rightarrow> loop_pc \<Rightarrow> bool" where
  "watchdog_step = loop_step"

text \<open>Who makes a step; the index of a sweep is its position in the schedule.\<close>

datatype actor =
    MainThread
  | Listener
  | Handler
  | DetachedHandler
  | Sweep nat
  | Deletion
  | Build
  | Pump
  | Network \<comment> \<open>the viewer's end of a connection takes a write, or breaks\<close>
  | Watchdog
  | Gateway
  | MessageHandler
  | Outside

text \<open>After \<^verbatim>\<open>Shutdown\<close>: on to the bot when one is configured, else to the application.\<close>

definition after_http :: "bot option \<Rightarrow> stage" where
  "after_http bo = (case bo of None \<Rightarrow> ClosingApp | Some _ \<Rightarrow> ClosingBot)"

text \<open>A step of a request's goroutine in the world, and what the goroutine goes on as.\<close>

inductive handler_step :: "'b app \<Rightarrow> 'b world \<Rightarrow> handler_state \<Rightarrow> 'b world \<Rightarrow> handler_state list \<Rightarrow> bool"
  for app :: "'b app" and w :: "'b world" where
  handler_answers: "websocket_channel app r = None \<Longrightarrow> (\<And>x. server_run app x (sr_others sr x)) \<Longrightarrow>
     run (serve_process app collectors sr r) w = (a, w') \<Longrightarrow> handler_step app w (Answering r) w' []"
| handler_refuses: "websocket_channel app r = Some cs \<Longrightarrow> run (ws_reserve cs) w = (False, w') \<Longrightarrow>
     handler_step app w (Answering r) w' []"
| handler_reserves: "websocket_channel app r = Some cs \<Longrightarrow> run (ws_reserve cs) w = (True, w') \<Longrightarrow>
     handler_step app w (Answering r) w' [Upgrading cs]"
| handler_hijacks: "handler_step app w (Upgrading cs) w [Hijacked cs]"
| handler_gives_up: "h \<in> {Upgrading cs, Hijacked cs} \<Longrightarrow> run (ws_upgraded cs False) w = (oc, w') \<Longrightarrow>
     handler_step app w h w' []"
| handler_connects: "run (ws_upgraded cs True) w = (Some c, w') \<Longrightarrow> handler_step app w (Hijacked cs) w' [Viewing cs c]"
| handler_syncs: "run (syncClient app cs c) w = (u, w') \<Longrightarrow> handler_step app w (Viewing cs c) w' [Viewing cs c]"
| handler_reads: "run (hub_op cs (ReadLoop c reads)) w = (e, w') \<Longrightarrow> handler_step app w (Viewing cs c) w' [Viewing cs c]"
| handler_leaves: "run (ws_leave cs c) w = (b, w') \<Longrightarrow> handler_step app w (Viewing cs c) w' []"

inductive live_step :: "'b app \<Rightarrow> bot option \<Rightarrow> actor \<Rightarrow> 'b live \<Rightarrow> 'b live \<Rightarrow> bool"
  for app :: "'b app" and bo :: "bot option" where
  arrive: "lv_stage l \<in> {Serving, PollsReleased} \<Longrightarrow> live_step app bo Listener l (l\<lparr>in_flight := Answering r # in_flight l\<rparr>)"
| handled: "alive l \<Longrightarrow> h \<in> set (in_flight l) \<Longrightarrow> handler_step app (lv_world l) h w hs \<Longrightarrow>
     live_step app bo Handler l (l\<lparr>in_flight := filter (Not \<circ> off_server) hs @ remove1 h (in_flight l),
       detached := filter off_server hs @ detached l, lv_world := w\<rparr>)"
| finished: "alive l \<Longrightarrow> h \<in> set (detached l) \<Longrightarrow> handler_step app (lv_world l) h w hs \<Longrightarrow>
     live_step app bo DetachedHandler l (l\<lparr>detached := hs @ remove1 h (detached l), lv_world := w\<rparr>)"
| sweep_selects: "alive l \<Longrightarrow> i < length (lv_sweeps l) \<Longrightarrow> lv_sweeps l ! i = (s, Selecting) \<Longrightarrow>
     loop_step (cancelled l) Selecting q \<Longrightarrow> live_step app bo (Sweep i) l (l\<lparr>lv_sweeps := (lv_sweeps l)[i := (s, q)]\<rparr>)"
| swept: "alive l \<Longrightarrow> i < length (lv_sweeps l) \<Longrightarrow> lv_sweeps l ! i = (s, Working) \<Longrightarrow>
     run (run_sweep app s) (lv_world l) = (x, w) \<Longrightarrow>
     live_step app bo (Sweep i) l (l\<lparr>lv_sweeps := (lv_sweeps l)[i := (s, Selecting)], lv_world := w\<rparr>)"
| deleted: "alive l \<Longrightarrow> k \<in> set (async_deletes (lv_world l)) \<Longrightarrow>
     run (run_async_delete app k) (lv_world l) = (x, w) \<Longrightarrow> live_step app bo Deletion l (l\<lparr>lv_world := w\<rparr>)"
| built: "alive l \<Longrightarrow> k \<in> set (pending_builds (lv_world l)) \<Longrightarrow>
     run (run_build app took k) (lv_world l) = (x, w) \<Longrightarrow> live_step app bo Build l (l\<lparr>lv_world := w\<rparr>)"
| pumped: "alive l \<Longrightarrow> pump_running app l ch c \<Longrightarrow> (e = PumpCtx \<Longrightarrow> cancelled l) \<Longrightarrow> \<not> stalled app l ch c \<Longrightarrow>
     writePump c e (hubs (lv_world l) ch) = Some (ms, going, h) \<Longrightarrow>
     live_step app bo Pump l (l\<lparr>lv_world := (lv_world l)\<lparr>hubs := (hubs (lv_world l))(ch := h)\<rparr>,
       ended_pumps := (if going then ended_pumps l else insert (ch, c) (ended_pumps l))\<rparr>)"
| write_ended: "alive l \<Longrightarrow> stalled app l ch c \<Longrightarrow> writePump c e (hubs (lv_world l) ch) = Some (ms, going, h) \<Longrightarrow>
     live_step app bo Network l (l\<lparr>lv_world := (lv_world l)\<lparr>hubs := (hubs (lv_world l))(ch := h)\<rparr>,
       ended_pumps := (if going then ended_pumps l else insert (ch, c) (ended_pumps l))\<rparr>)"
| watchdog_selects: "alive l \<Longrightarrow> watchdog l = Selecting \<Longrightarrow> watchdog_step (bot_stopped l) Selecting q \<Longrightarrow>
     live_step app bo Watchdog l (l\<lparr>watchdog := q\<rparr>)"
| watchdog_checked: "alive l \<Longrightarrow> watchdog l = Working \<Longrightarrow>
     checkHealth (Discord app) (clock (lv_world l)) lastAck opened (lv_bot l, discord (lv_world l)) = (b, d) \<Longrightarrow>
     live_step app bo Watchdog l (l\<lparr>watchdog := Selecting, lv_bot := b, lv_world := (lv_world l)\<lparr>discord := d\<rparr>,
       session_open := (if since (clock (lv_world l)) lastAck \<le> heartbeatStaleThreshold then session_open l
         else opened = Inr ())\<rparr>)"
| message: "alive l \<Longrightarrow> session_open l \<Longrightarrow>
     live_step app bo Gateway l (l\<lparr>messages := (ch, msg) # messages l\<rparr>)"
| gateway_event: "alive l \<Longrightarrow> bo \<noteq> None \<Longrightarrow>
     b \<in> {onConnect (clock (lv_world l)) (lv_bot l), onDisconnect (clock (lv_world l)) (lv_bot l)} \<Longrightarrow>
     live_step app bo Gateway l (l\<lparr>lv_bot := b\<rparr>)"
| announced: "alive l \<Longrightarrow> (ch, msg) \<in> set (messages l) \<Longrightarrow> bo = Some b \<Longrightarrow>
     run (onMessage app b names ch msg) (lv_world l) = (u, w) \<Longrightarrow>
     live_step app bo MessageHandler l (l\<lparr>messages := remove1 (ch, msg) (messages l), lv_world := w\<rparr>)"
| environment: "alive l \<Longrightarrow>
     live_step app bo Outside l (l\<lparr>lv_world := (lv_world l)\<lparr>conn := (conn (lv_world l))\<lparr>faults := fs\<rparr>, stores := st, clock := t\<rparr>\<rparr>)"
| listen_failed: "lv_stage l \<in> {Serving, PollsReleased} \<Longrightarrow> live_step app bo Listener l (l\<lparr>lv_stage := Aborted\<rparr>)"
| signalled: "lv_stage l = Serving \<Longrightarrow>
     live_step app bo MainThread l (l\<lparr>lv_stage := PollsReleased, lv_world := shutdown_world ReleasePolls (lv_world l)\<rparr>)"
| listener_closed: "lv_stage l = PollsReleased \<Longrightarrow> live_step app bo MainThread l (l\<lparr>lv_stage := Draining\<rparr>)"
| drained: "lv_stage l = Draining \<Longrightarrow> in_flight l = [] \<Longrightarrow> live_step app bo MainThread l (l\<lparr>lv_stage := after_http bo\<rparr>)"
| timed_out: "lv_stage l = Draining \<Longrightarrow>
     live_step app bo MainThread l (l\<lparr>lv_stage := after_http bo, in_flight := [], detached := in_flight l @ detached l\<rparr>)"
| bot_closed: "lv_stage l = ClosingBot \<Longrightarrow> Bot_Close l = Some l' \<Longrightarrow>
     live_step app bo MainThread l (l'\<lparr>lv_stage := ClosingApp\<rparr>)"
| tasks_done: "lv_stage l = ClosingApp \<Longrightarrow> tasks_Wait_returns l \<Longrightarrow> mset chs = mset (map Key (Channels app)) \<Longrightarrow>
     live_step app bo MainThread l (l\<lparr>lv_stage := WaitingHubs chs\<rparr>)"
| hub_done: "lv_stage l = WaitingHubs (ch # chs) \<Longrightarrow> hub_Wait_returns app l ch \<Longrightarrow>
     live_step app bo MainThread l (l\<lparr>lv_stage := WaitingHubs chs\<rparr>)"
| store_closed: "lv_stage l = WaitingHubs [] \<Longrightarrow> live_step app bo MainThread l (l\<lparr>lv_stage := StoreClosed\<rparr>)"
| exited: "lv_stage l = StoreClosed \<Longrightarrow> live_step app bo MainThread l (l\<lparr>lv_stage := Exited\<rparr>)"

text \<open>Sequences of steps of the given actors; Go visits the channels in any order.\<close>

inductive live_steps :: "'b app \<Rightarrow> bot option \<Rightarrow> actor set \<Rightarrow> 'b live \<Rightarrow> 'b live \<Rightarrow> bool"
  for app :: "'b app" and bo :: "bot option" and A :: "actor set" where
  stay: "live_steps app bo A l l"
| onward: "live_steps app bo A l k \<Longrightarrow> live_step app bo a k m \<Longrightarrow> a \<in> A \<Longrightarrow> live_steps app bo A l m"

lemma live_steps_one: "live_step app bo a l m \<Longrightarrow> a \<in> A \<Longrightarrow> live_steps app bo A l m"
  by (rule live_steps.onward [OF live_steps.stay])

lemma live_steps_trans: "live_steps app bo A l k \<Longrightarrow> live_steps app bo A k m \<Longrightarrow> live_steps app bo A l m"
  by (rotate_tac, induction rule: live_steps.induct) (auto intro: live_steps.onward)

section \<open>What the sweeps leave alone\<close>

text \<open>A hub gets calmer when no pump is added and no write on an open connection is begun.\<close>

definition calmer :: "hub \<Rightarrow> hub \<Rightarrow> bool" where
  "calmer h h' \<longleftrightarrow> next_ref h' = next_ref h \<and> (\<forall>c. write_stuck c h' \<longrightarrow> write_stuck c h)"

lemma calmer_refl [simp]: "calmer h h"
  by (simp add: calmer_def)

lemma calmer_trans: "calmer h h1 \<Longrightarrow> calmer h1 h2 \<Longrightarrow> calmer h h2"
  by (simp add: calmer_def)

lemmas stuck_defs = write_stuck_def writing_of_def conn_is_open_def

lemma calmer_Remove: "calmer h (snd (Remove c h))"
  by (auto simp: calmer_def stuck_defs Remove_def remove_locked_def close_client_def split: option.split prod.split bool.split)

lemma calmer_write_returns: "calmer h (write_returns c h)"
  by (auto simp: calmer_def stuck_defs write_returns_def split: option.split)

lemma calmer_TrySend: "TrySend c m h = (ok, h') \<Longrightarrow> calmer h h'"
  by (auto simp: calmer_def stuck_defs TrySend_def split: option.splits if_splits)

lemma calmer_Broadcast: "calmer h (Broadcast m h)"
proof -
  have sent: "send_all cs m h = (stale, h') \<Longrightarrow> calmer h h'" for cs stale h h'
    by (induction cs arbitrary: h stale) (auto split: prod.splits dest: calmer_TrySend intro: calmer_trans)
  have removed: "calmer h (remove_each cs h)" for cs h
    by (induction cs arbitrary: h) (auto intro: calmer_trans calmer_Remove)
  obtain stale h1 where sa: "send_all (clients h) m h = (stale, h1)" by fastforce
  from calmer_trans [OF sent [OF sa] removed] show ?thesis by (simp add: Broadcast_def sa)
qed

text \<open>A hub without clients is not touched at all.\<close>

lemma Broadcast_nobody: "clients h = [] \<Longrightarrow> Broadcast m h = h"
  by (simp add: Broadcast_def)

definition gentle :: "'b world \<Rightarrow> 'b world \<Rightarrow> bool" where
  "gentle w w' \<longleftrightarrow> pending_builds w' = pending_builds w \<and>
     (\<forall>ch. calmer (hubs w ch) (hubs w' ch) \<and> (clients (hubs w ch) = [] \<longrightarrow> hubs w' ch = hubs w ch))"

lemma gentle_rules [obeys_intro]:
  "obeys gentle (ret x)" "obeys gentle (sql g)" "obeys gentle (store h)" "obeys gentle time_Now" "obeys gentle unix_Now"
  "obeys gentle (broadcast ch msg)" "obeys gentle (alert k)"
  by (auto simp: gentle_def obeys_def run_bind run_sql run_store time_Now_def unix_Now_def broadcast_def alert_def
      calmer_Broadcast Broadcast_nobody split: prod.splits)

lemma gentle_bind [obeys_intro]: "obeys gentle m \<Longrightarrow> (\<And>x. obeys gentle (f x)) \<Longrightarrow> obeys gentle (m \<bind> f)"
  by (simp add: obeys_def gentle_def run_bind split: prod.split) (metis calmer_trans snd_conv)

lemma sweep_gentle: "obeys gentle (run_sweep app s)"
proof -
  have al: "obeys gentle (alert_offline app now xs)" for now xs
    by (induction xs) (auto intro!: obeys_intro)
  have st: "obeys gentle (prune_streams app cs b ss)" for cs b ss
    by (induction ss arbitrary: b) (auto intro!: obeys_intro)
  have ch: "obeys gentle (prune_channel app cs)" for cs
    by (auto simp: prune_channel_def broadcastPastStreams_def intro!: obeys_intro st)
  have "obeys gentle (prune_channels app css)" for css
    by (induction css) (auto intro!: obeys_intro ch)
  then show ?thesis
    by (cases s) (auto simp: run_sweep_def databaseCleanup_def pruneExpiredStreams_def checkWorkerStatus_def
        cleanupIncomingStreams_def intro!: obeys_intro al)
qed

lemma run_sweep_gentle: "run (run_sweep app s) w = (x, w') \<Longrightarrow> gentle w w'"
  using obeysD [OF sweep_gentle [of app s], of w] by simp

lemma run_async_delete_frame:
  "run (run_async_delete app k) w = (x, w') \<Longrightarrow>
     pending_builds w' = pending_builds w \<and> async_deletes w' = remove1 k (async_deletes w) \<and> hubs w' = hubs w"
  by (auto simp: run_async_delete_def run_bind run_store split: prod.splits)

section \<open>The process can always exit\<close>

text \<open>
  The goroutines \<^verbatim>\<open>main\<close> waits for; each lemma is one phase of the shutdown and uses only these.
\<close>

definition waited_for :: "actor set" where
  "waited_for = {MainThread, Watchdog, Deletion, Pump} \<union> range Sweep"

definition can_exit :: "'b app \<Rightarrow> bot option \<Rightarrow> 'b live \<Rightarrow> bool" where
  "can_exit app bo l \<longleftrightarrow> (\<exists>m. live_steps app bo waited_for l m \<and> lv_stage m = Exited)"

lemma can_exit_step: "live_step app bo a l m \<Longrightarrow> a \<in> waited_for \<Longrightarrow> can_exit app bo m \<Longrightarrow> can_exit app bo l"
  unfolding can_exit_def by (blast intro: live_steps_trans live_steps_one)

lemma waited_for_simps [simp]:
  "MainThread \<in> waited_for" "Watchdog \<in> waited_for" "Deletion \<in> waited_for" "Pump \<in> waited_for" "Sweep i \<in> waited_for"
  by (simp_all add: waited_for_def)

lemma alive_stage [simp]:
  "lv_stage l = Serving \<Longrightarrow> alive l" "lv_stage l = PollsReleased \<Longrightarrow> alive l" "lv_stage l = Draining \<Longrightarrow> alive l"
  "lv_stage l = ClosingBot \<Longrightarrow> alive l" "lv_stage l = ClosingApp \<Longrightarrow> alive l"
  "lv_stage l = WaitingHubs chs \<Longrightarrow> alive l" "lv_stage l = StoreClosed \<Longrightarrow> alive l"
  by (simp_all add: alive_def)

definition calm :: "'b app \<Rightarrow> 'b live \<Rightarrow> bool" where
  "calm app l \<longleftrightarrow> (\<forall>ch c. \<not> stalled app l ch c)"

lemma calm_frame [simp]:
  "calm app (l\<lparr>lv_stage := x\<rparr>) = calm app l" "calm app (l\<lparr>watchdog := y\<rparr>) = calm app l"
  "calm app (l\<lparr>lv_sweeps := ts\<rparr>) = calm app l" "calm app (l\<lparr>session_open := b\<rparr>) = calm app l"
  "calm app (l\<lparr>in_flight := hs, detached := ds\<rparr>) = calm app l" "calm app (l\<lparr>lv_bot := z, lv_world := w\<rparr>) = calm app (l\<lparr>lv_world := w\<rparr>)"
  by (simp_all add: calm_def stalled_def pump_running_def)

lemma calm_mono:
  assumes "calm app l" "\<forall>ch. calmer (hubs (lv_world l) ch) (hubs (lv_world m) ch)" "ended_pumps l \<subseteq> ended_pumps m"
  shows "calm app m"
  using assms by (fastforce simp: calm_def stalled_def pump_running_def calmer_def)

lemma exit_StoreClosed: "lv_stage l = StoreClosed \<Longrightarrow> can_exit app bo l"
  unfolding can_exit_def by (intro exI conjI, rule live_steps_one [OF live_step.exited]) simp_all

lemma exit_hubs_Nil: "lv_stage l = WaitingHubs [] \<Longrightarrow> can_exit app bo l"
  by (rule can_exit_step [OF live_step.store_closed]) (simp_all add: exit_StoreClosed)

lemma finite_running: "finite {c. pump_running app l ch c}"
  by (rule finite_subset [of _ "{..<next_ref (hubs (lv_world l) ch)}"]) (auto simp: pump_running_def)

lemma next_ref_Remove [simp]: "next_ref (snd (Remove c h)) = next_ref h"
  using calmer_Remove [of h c] by (simp add: calmer_def)

text \<open>A pump that is not stalled ends: its write fails, or it takes the cancelled context.\<close>

lemma pump_can_end:
  assumes "\<not> write_stuck c h"
  shows "\<exists>e h'. (e = PumpCtx \<or> e = PumpWrote False) \<and> writePump c e h = Some ([], False, h') \<and> calmer h h'"
proof (cases "writing_of c h")
  case None
  then show ?thesis
    by (intro exI [of _ PumpCtx] exI [of _ "snd (Remove c h)"]) (simp add: writePump_def calmer_Remove)
next
  case (Some m)
  then show ?thesis
    by (intro exI [of _ "PumpWrote False"] exI [of _ "snd (Remove c (write_returns c h))"])
      (simp add: writePump_def calmer_trans [OF calmer_write_returns calmer_Remove])
qed

lemma exit_hubs: "lv_stage l = WaitingHubs chs \<Longrightarrow> calm app l \<Longrightarrow> can_exit app bo l"
proof (induction chs arbitrary: l)
  case Nil
  from Nil(1) show ?case by (rule exit_hubs_Nil)
next
  case (Cons ch chs)
  from Cons.prems show ?case
  proof (induction "card {c. pump_running app l ch c}" arbitrary: l)
    case 0
    then have "\<not> pump_running app l ch c" for c using finite_running [of app l ch] by auto
    then show ?case
      by (intro can_exit_step [OF live_step.hub_done [OF 0(2)]]) (simp_all add: Cons.IH 0(3) hub_Wait_iff)
  next
    case (Suc n)
    then obtain c where c: "pump_running app l ch c" by (metis (mono_tags) card.empty empty_Collect_eq nat.distinct(1))
    have ns: "\<not> stalled app l ch c" using Suc.prems(2) by (simp add: calm_def)
    with c have "\<not> write_stuck c (hubs (lv_world l) ch)" by (simp add: stalled_def)
    then obtain e h where e: "writePump c e (hubs (lv_world l) ch) = Some ([], False, h)" "calmer (hubs (lv_world l) ch) h"
      using pump_can_end by blast
    let ?m = "l\<lparr>lv_world := (lv_world l)\<lparr>hubs := (hubs (lv_world l))(ch := h)\<rparr>, ended_pumps := insert (ch, c) (ended_pumps l)\<rparr>"
    have st: "live_step app bo Pump l ?m"
      using live_step.pumped [OF _ c _ ns e(1), of bo] Suc.prems by (simp add: cancelled_def)
    have "{c'. pump_running app ?m ch c'} = {c'. pump_running app l ch c'} - {c}"
      using e(2) by (auto simp: pump_running_def calmer_def)
    then have "n = card {c'. pump_running app ?m ch c'}" using Suc.hyps(2) c by simp
    moreover have "calm app ?m" by (rule calm_mono [OF Suc.prems(2)]) (use e(2) in auto)
    ultimately show ?case using Suc.prems by (intro can_exit_step [OF st] Suc.hyps(1)) simp_all
  qed
qed

text \<open>Waiting for the sweeps: a sweep at work finishes, a selecting one takes the cancelled context.\<close>

definition sweep_weight :: "'b live \<Rightarrow> nat" where
  "sweep_weight l = (\<Sum>t\<leftarrow>lv_sweeps l. case snd t of Working \<Rightarrow> 2 | Selecting \<Rightarrow> 1 | Ended \<Rightarrow> 0)"

lemma sum_list_update_less:
  "i < length ts \<Longrightarrow> f t < f (ts ! i) \<Longrightarrow> (\<Sum>t\<leftarrow>ts[i := t]. f t) < (\<Sum>t\<leftarrow>ts. (f t :: nat))"
  by (induction ts arbitrary: i) (auto split: nat.split)

lemma exit_deletions:
  assumes "lv_stage l = ClosingApp" "\<forall>t \<in> set (lv_sweeps l). snd t = Ended" "calm app l"
  shows "can_exit app bo l"
  using assms
proof (induction "length (async_deletes (lv_world l))" arbitrary: l)
  case 0
  then have "live_step app bo MainThread l (l\<lparr>lv_stage := WaitingHubs (map Key (Channels app))\<rparr>)"
    by (intro live_step.tasks_done) (simp_all add: tasks_Wait_returns_def list_all_iff)
  then show ?case by (rule can_exit_step) (simp_all add: exit_hubs 0)
next
  case (Suc n)
  then obtain k where k: "k \<in> set (async_deletes (lv_world l))" by (cases "async_deletes (lv_world l)") auto
  obtain x w where w: "run (run_async_delete app k) (lv_world l) = (x, w)"
    by (cases "run (run_async_delete app k) (lv_world l)")
  note f = run_async_delete_frame [OF w]
  then have "n = length (async_deletes w)" using k Suc.hyps(2) by (simp add: length_remove1)
  moreover have "calm app (l\<lparr>lv_world := w\<rparr>)" by (rule calm_mono [OF Suc.prems(3)]) (use f in auto)
  ultimately show ?case
    using Suc.prems by (intro can_exit_step [OF live_step.deleted [OF _ k w]] Suc.hyps(1)) simp_all
qed

lemma exit_ClosingApp: "lv_stage l = ClosingApp \<Longrightarrow> calm app l \<Longrightarrow> can_exit app bo l"
proof (induction "sweep_weight l" arbitrary: l rule: less_induct)
  case less
  show ?case
  proof (cases "\<forall>t \<in> set (lv_sweeps l). snd t = Ended")
    case True
    with less.prems show ?thesis by (intro exit_deletions)
  next
    case False
    then obtain i where i: "i < length (lv_sweeps l)" "snd (lv_sweeps l ! i) \<noteq> Ended"
      by (auto simp: in_set_conv_nth)
    obtain s pc where t: "lv_sweeps l ! i = (s, pc)" by fastforce
    obtain x w where w: "run (run_sweep app s) (lv_world l) = (x, w)"
      by (cases "run (run_sweep app s) (lv_world l)")
    have c: "cancelled l" using less.prems by (simp add: cancelled_def)
    have smaller: "can_exit app bo (l\<lparr>lv_sweeps := (lv_sweeps l)[i := (s, pc')], lv_world := w'\<rparr>)"
      if "(case pc' of Working \<Rightarrow> 2 | Selecting \<Rightarrow> 1 | Ended \<Rightarrow> 0) < (case pc of Working \<Rightarrow> 2 | Selecting \<Rightarrow> 1 | Ended \<Rightarrow> (0 :: nat))"
        "gentle (lv_world l) w'" for pc' and w' :: "'a world"
    proof (rule less.hyps)
      show "sweep_weight (l\<lparr>lv_sweeps := (lv_sweeps l)[i := (s, pc')], lv_world := w'\<rparr>) < sweep_weight l"
        using that(1) i(1) t by (auto simp: sweep_weight_def intro!: sum_list_update_less)
      show "calm app (l\<lparr>lv_sweeps := (lv_sweeps l)[i := (s, pc')], lv_world := w'\<rparr>)"
        by (rule calm_mono [OF less.prems(2)]) (use that(2) in \<open>auto simp: gentle_def\<close>)
    qed (simp add: less.prems)
    show ?thesis
    proof (cases pc)
      case Working
      with t run_sweep_gentle [OF w] show ?thesis
        by (intro can_exit_step [OF live_step.swept [OF _ i(1) _ w]]) (simp_all add: less.prems smaller)
    next
      case Selecting
      with t c smaller [of Ended "lv_world l"] show ?thesis
        by (intro can_exit_step [OF live_step.sweep_selects [OF _ i(1)]]) (simp_all add: less.prems gentle_def)
    next
      case Ended
      with t i(2) show ?thesis by simp
    qed
  qed
qed

lemma exit_ClosingBot_idle: "lv_stage l = ClosingBot \<Longrightarrow> watchdog l = Ended \<Longrightarrow> calm app l \<Longrightarrow> can_exit app bo l"
  by (rule can_exit_step [OF live_step.bot_closed [where l' = "l\<lparr>session_open := False\<rparr>"]])
    (simp_all add: exit_ClosingApp Bot_Close_Some)

lemma exit_ClosingBot_selecting: "lv_stage l = ClosingBot \<Longrightarrow> watchdog l = Selecting \<Longrightarrow> calm app l \<Longrightarrow> can_exit app bo l"
  by (rule can_exit_step [OF live_step.watchdog_selects [of _ Ended]]) (simp_all add: bot_stopped_def watchdog_step_def exit_ClosingBot_idle)

lemma exit_ClosingBot:
  assumes "lv_stage l = ClosingBot" "calm app l"
  shows "can_exit app bo l"
proof (cases "watchdog l")
  case Working
  obtain b d where cd: "checkHealth (Discord app) (clock (lv_world l)) None (Inr ()) (lv_bot l, discord (lv_world l)) = (b, d)"
    by fastforce
  let ?m = "l\<lparr>watchdog := Selecting, lv_bot := b, lv_world := (lv_world l)\<lparr>discord := d\<rparr>,
    session_open := (if since (clock (lv_world l)) None \<le> heartbeatStaleThreshold then session_open l else (Inr () :: unit res) = Inr ())\<rparr>"
  have "calm app ?m" by (rule calm_mono [OF assms(2)]) simp_all
  then have "can_exit app bo ?m" using assms(1) by (intro exit_ClosingBot_selecting) simp_all
  then show ?thesis
    using assms(1) by (intro can_exit_step [OF live_step.watchdog_checked [OF _ Working cd]]) simp_all
qed (simp_all add: assms exit_ClosingBot_selecting exit_ClosingBot_idle)

lemma exit_Draining: "lv_stage l = Draining \<Longrightarrow> calm app l \<Longrightarrow> can_exit app bo l"
  by (rule can_exit_step [OF live_step.timed_out])
    (simp_all add: after_http_def exit_ClosingBot exit_ClosingApp split: option.split)

lemma exit_PollsReleased: "lv_stage l = PollsReleased \<Longrightarrow> calm app l \<Longrightarrow> can_exit app bo l"
  by (rule can_exit_step [OF live_step.listener_closed]) (simp_all add: exit_Draining)

lemma can_exit_calm: "lv_stage l \<noteq> Aborted \<Longrightarrow> calm app l \<Longrightarrow> can_exit app bo l"
proof (cases "lv_stage l")
  case Serving
  assume c: "calm app l"
  have "calm app (l\<lparr>lv_stage := PollsReleased, lv_world := shutdown_world ReleasePolls (lv_world l)\<rparr>)"
    by (rule calm_mono [OF c]) (simp_all add: shutdown_world_def)
  then show ?thesis by (intro can_exit_step [OF live_step.signalled [OF Serving]]) (simp_all add: exit_PollsReleased)
next
  case Exited
  then show ?thesis unfolding can_exit_def by (blast intro: live_steps.stay)
qed (simp_all add: exit_PollsReleased exit_Draining exit_ClosingBot exit_ClosingApp exit_hubs exit_StoreClosed)

text \<open>The network can end every write that is under way.\<close>

lemma finite_stalled: "finite {(ch, c). stalled app l ch c}"
  by (rule finite_subset [of _ "Sigma (Key ` set (Channels app)) (\<lambda>ch. {..<next_ref (hubs (lv_world l) ch)})"])
    (auto simp: stalled_def pump_running_def)

lemma network_calms:
  assumes "alive l"
  shows "\<exists>m. live_steps app bo {Network} l m \<and> calm app m \<and> lv_stage m = lv_stage l"
  using assms
proof (induction "card {(ch, c). stalled app l ch c}" arbitrary: l rule: less_induct)
  case less
  show ?case
  proof (cases "calm app l")
    case True
    then show ?thesis by (blast intro: live_steps.stay)
  next
    case False
    then obtain ch c where st: "stalled app l ch c" by (auto simp: calm_def)
    let ?h = "write_returns c (hubs (lv_world l) ch)"
    let ?m = "l\<lparr>lv_world := (lv_world l)\<lparr>hubs := (hubs (lv_world l))(ch := ?h)\<rparr>\<rparr>"
    obtain msg where "writePump c (PumpWrote True) (hubs (lv_world l) ch) = Some ([msg], True, ?h)"
      using st by (auto simp: stalled_def write_stuck_def writePump_def)
    from live_step.write_ended [OF less.prems st this, of bo]
    have step: "live_step app bo Network l ?m" by simp
    have "calmer (hubs (lv_world l) ch') (hubs (lv_world ?m) ch')" for ch' by (simp add: calmer_write_returns)
    then have "{(ch, c). stalled app ?m ch c} \<subseteq> {(ch, c). stalled app l ch c}"
      by (auto simp: stalled_def pump_running_def calmer_def split: if_splits)
    moreover have "\<not> stalled app ?m ch c"
      by (auto simp: stalled_def stuck_defs write_returns_def split: option.splits)
    ultimately have "{(ch, c). stalled app ?m ch c} \<subset> {(ch, c). stalled app l ch c}" using st by blast
    then have "card {(ch, c). stalled app ?m ch c} < card {(ch, c). stalled app l ch c}"
      by (rule psubset_card_mono [OF finite_stalled])
    from less.hyps [OF this] less.prems obtain m
      where m: "live_steps app bo {Network} ?m m" "calm app m" "lv_stage m = lv_stage ?m" by (auto simp: alive_def)
    have "live_steps app bo {Network} l ?m" by (rule live_steps_one [OF step]) simp
    from live_steps_trans [OF this m(1)] m(2,3) show ?thesis by auto
  qed
qed

text \<open>
  C15. From every state a process that has not aborted can be in, however many requests, connections,
  builds and messages are outstanding, the shutdown needs no viewer to hang up and no request to finish:
  when no write pump is stuck inside a write to an open connection, the process can run to its orderly
  exit by steps of \<^verbatim>\<open>main\<close> and of the goroutines it waits for alone; and when some are, it can once the
  network has let those writes end. (A write has no deadline, so the network may not:
  \<open>stalled_viewer_blocks_shutdown\<close> below.)
\<close>

theorem shutdown_can_always_complete:
  assumes "lv_stage l \<noteq> Aborted"
  shows "((\<forall>ch c. \<not> stalled app l ch c) \<longrightarrow> (\<exists>m. live_steps app bo waited_for l m \<and> lv_stage m = Exited)) \<and>
    (\<exists>k m. live_steps app bo {Network} l k \<and> live_steps app bo waited_for k m \<and> lv_stage m = Exited)"
proof -
  have exit: "\<exists>m. live_steps app bo waited_for k m \<and> lv_stage m = Exited" if "calm app k" "lv_stage k \<noteq> Aborted" for k
    using can_exit_calm [OF that(2,1)] by (simp only: can_exit_def)
  have "\<exists>k. live_steps app bo {Network} l k \<and> calm app k \<and> lv_stage k \<noteq> Aborted" if "alive l"
    using network_calms [OF that] assms by metis
  moreover have "live_steps app bo {Network} l l \<and> live_steps app bo waited_for l l \<and> lv_stage l = Exited" if "\<not> alive l"
    using that assms by (auto simp: alive_def intro: live_steps.stay)
  ultimately show ?thesis using exit assms unfolding calm_def by metis
qed

section \<open>Reachable states\<close>

inductive live_reachable :: "'b launch \<Rightarrow> 'b process \<Rightarrow> 'b live \<Rightarrow> bool" for ln :: "'b launch" and p :: "'b process" where
  started: "web_main ln = Running p \<Longrightarrow> live_reachable ln p (live_start (ln_bot ln) (ln_opened ln) p)"
| stepped: "live_reachable ln p l \<Longrightarrow> live_step (pr_app p) (ln_bot ln) a l m \<Longrightarrow> live_reachable ln p m"

lemma web_main_Running:
  assumes "web_main ln = Running p"
  shows "\<exists>c w d. ln_connect ln (pr_plan p) = (c, Inr ()) \<and>
      run (Init (pr_app p)) (new_world (pr_app p) c (ln_stores ln) (ln_clock ln)) = (Inr (), w) \<and> pr_world p = w\<lparr>discord := d\<rparr> \<and>
      pr_sweeps p = sweeps (pr_app p)"
  using assms
  by (auto simp: web_main_def Let_def store_Open_def split: sum.splits if_splits prod.splits)

section \<open>The store closes last\<close>

definition stage_inv :: "bot option \<Rightarrow> 'b live \<Rightarrow> bool" where
  "stage_inv bo l \<longleftrightarrow>
     (bo = None \<or> 4 \<le> stage_rank (lv_stage l) \<longrightarrow> watchdog l = Ended \<and> \<not> session_open l) \<and>
     (3 \<le> stage_rank (lv_stage l) \<longrightarrow> in_flight l = []) \<and>
     (5 \<le> stage_rank (lv_stage l) \<longrightarrow> (\<forall>t \<in> set (lv_sweeps l). snd t = Ended))"

lemma stage_inv_start: "stage_inv (ln_bot ln) (live_start (ln_bot ln) opened p)"
  by (simp add: stage_inv_def live_start_def startWatchdog_def split: option.split)

lemma stage_inv_step: "live_step app bo a l m \<Longrightarrow> stage_inv bo l \<Longrightarrow> stage_inv bo m"
proof (induction rule: live_step.induct)
  case (sweep_selects l i s q)
  then show ?case by (auto simp: stage_inv_def) (metis nth_mem snd_conv loop_pc.distinct(5))+
next
  case (swept l i s x w)
  then show ?case by (auto simp: stage_inv_def) (metis nth_mem snd_conv loop_pc.distinct(3))+
qed (auto simp: stage_inv_def after_http_def Bot_Close_Some tasks_Wait_returns_def list_all_iff split: option.splits if_splits)

lemma live_reachable_inv: "live_reachable ln p l \<Longrightarrow> stage_inv (ln_bot ln) l"
  by (induction rule: live_reachable.induct) (auto intro: stage_inv_start stage_inv_step)

inductive_cases stepE: "live_step app bo a l m"


section \<open>A shutdown nothing is detached from\<close>

lemma writePump_next_ref: "writePump c e h = Some (ms, going, h') \<Longrightarrow> next_ref h' = next_ref h"
  by (auto simp: writePump_def pump_pop_def write_returns_def split: pump_event.splits option.splits list.splits if_splits)

definition settled :: "'b app \<Rightarrow> 'b live \<Rightarrow> bool" where
  "settled app l \<longleftrightarrow>
     4 \<le> stage_rank (lv_stage l) \<and> detached l = [] \<and> messages l = [] \<and> pending_builds (lv_world l) = [] \<and>
     (5 \<le> stage_rank (lv_stage l) \<longrightarrow> async_deletes (lv_world l) = []) \<and>
     (\<forall>cs \<in> set (Channels app). \<forall>c. pump_running app l (Key cs) c \<longrightarrow>
        (case lv_stage l of ClosingApp \<Rightarrow> True | WaitingHubs chs \<Rightarrow> Key cs \<in> set chs | _ \<Rightarrow> False))"

lemma settled_mono:
  "settled app l \<Longrightarrow> lv_stage m = lv_stage l \<Longrightarrow> detached m = [] \<Longrightarrow> messages m = [] \<Longrightarrow> pending_builds (lv_world m) = [] \<Longrightarrow>
   async_deletes (lv_world m) = async_deletes (lv_world l) \<Longrightarrow>
   (\<And>ch c. pump_running app m ch c \<Longrightarrow> pump_running app l ch c) \<Longrightarrow> settled app m"
  by (auto simp: settled_def)

lemma settled_step: "live_step app bo a l m \<Longrightarrow> stage_inv bo l \<Longrightarrow> settled app l \<Longrightarrow> settled app m"
proof (induction rule: live_step.induct)
  case (swept l i s x w)
  have "\<not> 5 \<le> stage_rank (lv_stage l)" using swept nth_mem [OF swept(2)] by (auto simp: stage_inv_def)
  moreover have "4 \<le> stage_rank (lv_stage l)" using swept(6) by (simp add: settled_def)
  ultimately have "lv_stage l = ClosingApp" by (cases "lv_stage l") simp_all
  then show ?case using swept run_sweep_gentle [OF swept(4)] by (simp add: settled_def gentle_def)
next
  case (deleted l k x w)
  have "\<not> 5 \<le> stage_rank (lv_stage l)" using deleted by (auto simp: settled_def)
  then show ?case
    using deleted run_async_delete_frame [OF deleted(3)] by (simp add: settled_def pump_running_def)
next
  case (pumped l ch c e ms going h)
  then have "detached l = []" "messages l = []" "pending_builds (lv_world l) = []" by (simp_all add: settled_def)
  then show ?case
    using writePump_next_ref [OF pumped(5)]
    by (intro settled_mono [OF pumped(7)]) (auto simp: pump_running_def split: if_splits)
next
  case (write_ended l ch c e ms going h)
  then have "detached l = []" "messages l = []" "pending_builds (lv_world l) = []" by (simp_all add: settled_def)
  then show ?case
    using writePump_next_ref [OF write_ended(3)]
    by (intro settled_mono [OF write_ended(5)]) (auto simp: pump_running_def split: if_splits)
next
  case (tasks_done l chs)
  then have "set chs = Key ` set (Channels app)" by (metis list.set_map mset_eq_setD)
  with tasks_done show ?case by (simp add: settled_def tasks_Wait_returns_def)
next
  case (hub_done l ch chs)
  then show ?case by (auto simp: settled_def pump_running_def hub_Wait_iff)
qed (auto simp: settled_def stage_inv_def pump_running_def Bot_Close_Some split: stage.splits if_splits)

lemma settled_steps:
  assumes "live_steps app bo A l m" "stage_inv bo l" "settled app l"
  shows "stage_inv bo m \<and> settled app m"
  using assms by (induction rule: live_steps.induct) (auto intro: stage_inv_step settled_step)

text \<open>
  C14. When nothing is detached as \<^verbatim>\<open>App.Close\<close> begins (every request was drained in time, no viewer is
  connected, no build runs, no message handler is pending), then once the store is closed the process
  is at rest: every deletion was carried out, every sweep, the watchdog and every write pump has
  ended, and no goroutine of the server makes another step.
\<close>

theorem drained_shutdown_leaves_nothing:
  assumes "live_reachable ln p k" and "lv_stage k = ClosingApp"
    and "detached k = []" and "messages k = []" and "pending_builds (lv_world k) = []"
    and "live_steps (pr_app p) (ln_bot ln) UNIV k l" and "\<not> store_open l"
  shows "async_deletes (lv_world l) = [] \<and> pending_builds (lv_world l) = [] \<and> in_flight l = [] \<and> watchdog l = Ended \<and>
    (\<forall>t \<in> set (lv_sweeps l). snd t = Ended) \<and> (\<forall>ch c. \<not> pump_running (pr_app p) l ch c) \<and>
    (\<forall>a m. live_step (pr_app p) (ln_bot ln) a l m \<longrightarrow> a \<in> {MainThread, Gateway, Outside})"
proof -
  have "settled (pr_app p) k" using assms(2-5) by (simp add: settled_def)
  with settled_steps [OF assms(6) live_reachable_inv [OF assms(1)]]
  have inv: "stage_inv (ln_bot ln) l" and st: "settled (pr_app p) l" by auto
  have r: "6 \<le> stage_rank (lv_stage l)" using assms(7) by (simp add: store_open_def)
  then have q: "in_flight l = []" "\<forall>t \<in> set (lv_sweeps l). snd t = Ended" "watchdog l = Ended" "\<not> session_open l"
      "detached l = []" "messages l = []" "pending_builds (lv_world l) = []" "async_deletes (lv_world l) = []"
    using inv st by (auto simp: stage_inv_def settled_def)
  have "\<not> pump_running (pr_app p) l ch c" for ch c
    using st r by (cases "lv_stage l") (auto simp: settled_def pump_running_def)
  moreover from this have "a \<in> {MainThread, Gateway, Outside}" if "live_step (pr_app p) (ln_bot ln) a l m" for a m
    using that q r by (cases rule: stepE) (auto simp: stalled_def dest!: nth_mem)
  ultimately show ?thesis using q by blast
qed

section \<open>A viewer that does not read\<close>

lemma write_stuck_other:
  assumes "writePump c' e h = Some (ms, going, h')" "c' \<noteq> c"
  shows "write_stuck c h' = write_stuck c h"
proof -
  have "heap (snd (Remove c' h)) c = heap h c" "heap (write_returns c' h) c = heap h c" for h
    using assms(2) by (auto simp: Remove_def remove_locked_def close_client_def write_returns_def split: option.split)
  then have "heap h' c = heap h c"
    using assms by (auto simp: writePump_def pump_pop_def split: option.splits pump_event.splits list.splits if_splits)
  then show ?thesis by (simp add: stuck_defs)
qed

lemma run_build_hubs: "run (run_build app took k) w = (x, w') \<Longrightarrow> hubs w' = hubs w"
  using runs_buildVod [of k app took, unfolded runs_build_def, rule_format, of "w\<lparr>pending_builds := remove1 k (pending_builds w)\<rparr>"]
  by (auto simp: run_build_def run_bind beside_build_def)

lemma onMessage_hubs: "run (onMessage app b names ch msg) w = (u, w') \<Longrightarrow> hubs w' = hubs w"
proof -
  have "keeps hubs (onMessage app b names ch msg)"
    unfolding onMessage_def QueueIncomingStream_def bumpAdminChange_def
    by (intro keeps_intro keeps_sql; simp)+
  then show "run (onMessage app b names ch msg) w = (u, w') \<Longrightarrow> hubs w' = hubs w" by (metis keeps_run)
qed

lemma stalled_frame:
  "stalled app l ch c \<Longrightarrow> hubs (lv_world m) = hubs (lv_world l) \<Longrightarrow> ended_pumps m = ended_pumps l \<Longrightarrow> stalled app m ch c"
  by (simp add: stalled_def pump_running_def)

lemma blocked_step:
  "live_step app bo a l m \<Longrightarrow> stage_inv bo l \<Longrightarrow> a \<notin> {Network, DetachedHandler} \<Longrightarrow>
   lv_stage l = WaitingHubs chs \<Longrightarrow> ch \<in> set chs \<Longrightarrow> stalled app l ch c \<Longrightarrow>
   (\<exists>chs'. lv_stage m = WaitingHubs chs' \<and> ch \<in> set chs') \<and> stalled app m ch c"
proof (induction rule: live_step.induct)
  case (swept l i s x w)
  then show ?case using nth_mem [OF swept(2)] by (auto simp: stage_inv_def)
next
  case (deleted l k x w)
  then show ?case using run_async_delete_frame [OF deleted(3)] by (auto intro: stalled_frame)
next
  case (built l k took x w)
  then show ?case using run_build_hubs [OF built(3)] by (auto intro: stalled_frame)
next
  case (announced l ch' msg b names u w)
  then show ?case using onMessage_hubs [OF announced(4)] by (auto intro: stalled_frame)
next
  case (pumped l ch' c' e ms going h)
  then have ne: "(ch', c') \<noteq> (ch, c)" by auto
  show ?case
  proof (cases "ch' = ch")
    case True
    with ne pumped write_stuck_other [OF pumped(5), of c] writePump_next_ref [OF pumped(5)] show ?thesis
      by (auto simp: stalled_def pump_running_def)
  next
    case False
    with pumped show ?thesis by (auto simp: stalled_def pump_running_def)
  qed
next
  case (hub_done l ch' chs')
  then have "ch' \<noteq> ch" by (auto simp: stalled_def hub_Wait_iff)
  with hub_done show ?case by (auto intro: stalled_frame)
qed (auto simp: stage_inv_def intro: stalled_frame)

text \<open>
  A viewer that stops reading holds the shutdown up: while \<^verbatim>\<open>App.Close\<close> waits for a hub with a write
  pump stuck inside a write to an open connection, nothing but the network, or a handler of a connection
  the HTTP server no longer knows, can get the process any further. There is no write deadline, and
  \<^verbatim>\<open>App.Close\<close> closes no connection and waits without a limit.
\<close>

theorem stalled_viewer_blocks_shutdown:
  assumes "live_reachable ln p l" "lv_stage l = WaitingHubs chs" "ch \<in> set chs" "stalled (pr_app p) l ch c"
    and "live_steps (pr_app p) (ln_bot ln) (- {Network, DetachedHandler}) l m"
  shows "(\<exists>chs'. lv_stage m = WaitingHubs chs' \<and> ch \<in> set chs') \<and> stalled (pr_app p) m ch c"
proof -
  have "live_steps app bo A l m \<Longrightarrow> stage_inv bo l \<Longrightarrow> A = - {Network, DetachedHandler} \<Longrightarrow>
      lv_stage l = WaitingHubs chs \<Longrightarrow> ch \<in> set chs \<Longrightarrow> stalled app l ch c \<Longrightarrow>
      stage_inv bo m \<and> (\<exists>chs'. lv_stage m = WaitingHubs chs' \<and> ch \<in> set chs') \<and> stalled app m ch c"
    for app :: "'a app" and bo A l m
  proof (induction rule: live_steps.induct)
    case (onward l k a m)
    then obtain chs' where k: "stage_inv bo k" "lv_stage k = WaitingHubs chs'" "ch \<in> set chs'" "stalled app k ch c" by auto
    from onward.hyps(3) onward.prems(2) have "a \<notin> {Network, DetachedHandler}" by simp
    from blocked_step [OF onward.hyps(2) k(1) this k(2-4)] stage_inv_step [OF onward.hyps(2) k(1)] show ?case by blast
  qed blast
  from this [OF assms(5) live_reachable_inv [OF assms(1)] refl assms(2-4)] show ?thesis by blast
qed

section \<open>A sample life\<close>

lemma live_steps_reachable:
  "live_steps (pr_app p) (ln_bot ln) A l m \<Longrightarrow> live_reachable ln p l \<Longrightarrow> live_reachable ln p m"
  by (induction rule: live_steps.induct) (auto intro: live_reachable.stepped)

lemma live_steps_mono: "live_steps app bo A l m \<Longrightarrow> A \<subseteq> B \<Longrightarrow> live_steps app bo B l m"
  by (induction rule: live_steps.induct) (auto intro: live_steps.intros)

lemma init_gentle: "obeys gentle (Init app)"
proof -
  have os: "obeys gentle (os f)" for f by (simp add: os_def gentle_rules)
  have "obeys gentle (mkdirs css)" for css by (induction css) (auto intro!: obeys_intro os)
  moreover have "obeys gentle (seed_workers v now css)" for v now css by (induction css) (auto intro!: obeys_intro)
  ultimately show ?thesis by (auto simp: Init_def intro!: obeys_intro os)
qed

lemma started_without_builds:
  assumes "web_main ln = Running p"
  shows "pending_builds (pr_world p) = [] \<and> (\<forall>ch. hubs (pr_world p) ch = NewHub (MaxConn (pr_app p)))"
proof -
  obtain c w d where "run (Init (pr_app p)) (new_world (pr_app p) c (ln_stores ln) (ln_clock ln)) = (Inr (), w)"
    and "pr_world p = w\<lparr>discord := d\<rparr>" using web_main_Running [OF assms] by blast
  then show ?thesis
    using obeysD [OF init_gentle [of "pr_app p"], of "new_world (pr_app p) c (ln_stores ln) (ln_clock ln)"]
    by (simp add: new_world_def gentle_def NewHub_def)
qed

text \<open>The sample server is started, stopped while idle, and runs to its exit.\<close>

definition idle_closing :: "unit process \<Rightarrow> unit live" where
  "idle_closing p = (live_start None (Inr ()) p)\<lparr>lv_stage := ClosingApp, lv_world := shutdown_world ReleasePolls (pr_world p)\<rparr>"

lemma idle_calm: "web_main ln = Running p \<Longrightarrow> calm (pr_app p) (idle_closing p)"
  using started_without_builds [of ln p]
  by (simp add: calm_def stalled_def pump_running_def idle_closing_def live_start_def shutdown_world_def NewHub_def)

lemma sample_life:
  "\<exists>p l. web_main sample_launch = Running p \<and> live_reachable sample_launch p (idle_closing p) \<and>
     live_steps (pr_app p) (ln_bot sample_launch) UNIV (idle_closing p) l \<and> lv_stage l = Exited"
proof -
  obtain p where p: "web_main sample_launch = Running p" using sample_launch_runs by blast
  have calm: "calm (pr_app p) (idle_closing p)" by (rule idle_calm [OF p])
  have bo: "ln_bot sample_launch = None" "ln_opened sample_launch = Inr ()" by (simp_all add: sample_launch_def)
  let ?l = "live_start None (Inr ()) p"
  let ?a = "?l\<lparr>lv_stage := PollsReleased, lv_world := shutdown_world ReleasePolls (pr_world p)\<rparr>"
  have "live_reachable sample_launch p ?l" using live_reachable.started [OF p] by (simp add: bo)
  then have "live_reachable sample_launch p ?a"
    using live_step.signalled [of ?l "pr_app p" "ln_bot sample_launch"]
    by (auto intro: live_reachable.stepped simp: live_start_def)
  then have "live_reachable sample_launch p (?a\<lparr>lv_stage := Draining\<rparr>)"
    by (rule live_reachable.stepped) (rule live_step.listener_closed, simp)
  then have "live_reachable sample_launch p (?a\<lparr>lv_stage := Draining\<rparr>\<lparr>lv_stage := after_http (ln_bot sample_launch)\<rparr>)"
    by (rule live_reachable.stepped) (rule live_step.drained, simp_all add: live_start_def)
  then have r: "live_reachable sample_launch p (idle_closing p)"
    by (simp add: idle_closing_def live_start_def bo after_http_def)
  have "lv_stage (idle_closing p) \<noteq> Aborted" by (simp add: idle_closing_def)
  then obtain l where "live_steps (pr_app p) (ln_bot sample_launch) waited_for (idle_closing p) l" "lv_stage l = Exited"
    using can_exit_calm [of "idle_closing p" "pr_app p" "ln_bot sample_launch"] calm by (auto simp: can_exit_def)
  then show ?thesis using p r live_steps_mono by blast
qed

theorem shutdown_can_always_complete_witness:
  "\<exists>p m. web_main sample_launch = Running p \<and> lv_stage (idle_closing p) = ClosingApp \<and>
     live_steps (pr_app p) None waited_for (idle_closing p) m \<and> lv_stage m = Exited"
proof -
  obtain p where p: "web_main sample_launch = Running p" using sample_launch_runs by blast
  have s: "lv_stage (idle_closing p) = ClosingApp" by (simp add: idle_closing_def)
  have "\<forall>ch c. \<not> stalled (pr_app p) (idle_closing p) ch c" using idle_calm [OF p] unfolding calm_def .
  moreover have "lv_stage (idle_closing p) \<noteq> Aborted" by (simp add: s)
  ultimately show ?thesis using p s shutdown_can_always_complete [of "idle_closing p" "pr_app p" None] by blast
qed


theorem drained_shutdown_leaves_nothing_witness:
  "\<exists>p l. web_main sample_launch = Running p \<and> live_reachable sample_launch p (idle_closing p) \<and>
     live_steps (pr_app p) (ln_bot sample_launch) UNIV (idle_closing p) l \<and> lv_stage l = Exited \<and>
     async_deletes (lv_world l) = [] \<and> list_all (\<lambda>t. snd t = Ended) (lv_sweeps l)"
proof -
  obtain p l where p: "web_main sample_launch = Running p" "live_reachable sample_launch p (idle_closing p)"
    "live_steps (pr_app p) (ln_bot sample_launch) UNIV (idle_closing p) l" "lv_stage l = Exited" using sample_life by blast
  have k: "lv_stage (idle_closing p) = ClosingApp" "detached (idle_closing p) = []" "messages (idle_closing p) = []"
    "pending_builds (lv_world (idle_closing p)) = []"
    using started_without_builds [OF p(1)] by (simp_all add: idle_closing_def live_start_def shutdown_world_def)
  have "\<not> store_open l" using p(4) by (simp add: store_open_def)
  from drained_shutdown_leaves_nothing [OF p(2) k p(3) this] p show ?thesis by (auto simp: list_all_iff)
qed

section \<open>A stalled viewer in a sample life\<close>

lemma sweeps_come_to_rest:
  assumes "lv_stage l = Serving" "\<forall>ch. clients (hubs (lv_world l) ch) = []"
  shows "\<exists>ts w. live_steps app bo UNIV l (l\<lparr>lv_sweeps := ts, lv_world := w\<rparr>) \<and> hubs w = hubs (lv_world l) \<and>
    (\<forall>t \<in> set ts. snd t \<noteq> Working)"
  using assms
proof (induction "\<Sum>t\<leftarrow>lv_sweeps l. if snd t = Working then 1 else 0 :: nat" arbitrary: l rule: less_induct)
  case less
  show ?case
  proof (cases "\<forall>t \<in> set (lv_sweeps l). snd t \<noteq> Working")
    case True
    then show ?thesis by (intro exI [of _ "lv_sweeps l"] exI [of _ "lv_world l"]) (simp add: live_steps.stay)
  next
    case False
    then obtain i s where i: "i < length (lv_sweeps l)" "lv_sweeps l ! i = (s, Working)"
      by (auto simp: in_set_conv_nth)
    obtain x w where w: "run (run_sweep app s) (lv_world l) = (x, w)"
      by (cases "run (run_sweep app s) (lv_world l)")
    have h: "hubs w = hubs (lv_world l)" using run_sweep_gentle [OF w] less.prems(2) by (auto simp: gentle_def)
    let ?m = "l\<lparr>lv_sweeps := (lv_sweeps l)[i := (s, Selecting)], lv_world := w\<rparr>"
    have step: "live_steps app bo UNIV l ?m"
      by (rule live_steps_one [OF live_step.swept [OF _ i w]]) (simp_all add: less.prems)
    have "(\<Sum>t\<leftarrow>lv_sweeps ?m. if snd t = Working then 1 else 0 :: nat) < (\<Sum>t\<leftarrow>lv_sweeps l. if snd t = Working then 1 else 0)"
      using i by (auto intro!: sum_list_update_less)
    from less.hyps [OF this] obtain ts w' where
      "live_steps app bo UNIV ?m (l\<lparr>lv_sweeps := ts, lv_world := w'\<rparr>)" "hubs w' = hubs (lv_world l)" "\<forall>t \<in> set ts. snd t \<noteq> Working"
      using less.prems h by auto
    with live_steps_trans [OF step] show ?thesis by blast
  qed
qed

lemma sweeps_end:
  assumes "lv_stage l = ClosingApp" "\<forall>t \<in> set (lv_sweeps l). snd t \<noteq> Working"
  shows "\<exists>ts. live_steps app bo UNIV l (l\<lparr>lv_sweeps := ts\<rparr>) \<and> (\<forall>t \<in> set ts. snd t = Ended)"
  using assms
proof (induction "\<Sum>t\<leftarrow>lv_sweeps l. if snd t = Selecting then 1 else 0 :: nat" arbitrary: l rule: less_induct)
  case less
  show ?case
  proof (cases "\<forall>t \<in> set (lv_sweeps l). snd t = Ended")
    case True
    then show ?thesis by (intro exI [of _ "lv_sweeps l"]) (simp add: live_steps.stay)
  next
    case False
    then obtain i where j: "i < length (lv_sweeps l)" "snd (lv_sweeps l ! i) \<noteq> Ended" by (auto simp: in_set_conv_nth)
    obtain s q where sq: "lv_sweeps l ! i = (s, q)" by fastforce
    have "q = Selecting" using less.prems(2) nth_mem [OF j(1)] j(2) sq by (cases q) auto
    with j sq have i: "i < length (lv_sweeps l)" "lv_sweeps l ! i = (s, Selecting)" by simp_all
    let ?m = "l\<lparr>lv_sweeps := (lv_sweeps l)[i := (s, Ended)]\<rparr>"
    have step: "live_steps app bo UNIV l ?m"
      by (rule live_steps_one [OF live_step.sweep_selects [OF _ i]]) (simp_all add: less.prems cancelled_def)
    have "(\<Sum>t\<leftarrow>lv_sweeps ?m. if snd t = Selecting then 1 else 0 :: nat) < (\<Sum>t\<leftarrow>lv_sweeps l. if snd t = Selecting then 1 else 0)"
      using i by (auto intro!: sum_list_update_less)
    moreover have "\<forall>t \<in> set (lv_sweeps ?m). snd t \<noteq> Working"
      using less.prems(2) by (auto dest!: set_update_subset_insert [THEN subsetD])
    ultimately obtain ts where "live_steps app bo UNIV ?m (l\<lparr>lv_sweeps := ts\<rparr>)" "\<forall>t \<in> set ts. snd t = Ended"
      using less.hyps [of ?m] less.prems(1) by auto
    with live_steps_trans [OF step] show ?thesis by blast
  qed
qed

lemma deletions_end:
  assumes "lv_stage l = ClosingApp"
  shows "\<exists>w. live_steps app bo UNIV l (l\<lparr>lv_world := w\<rparr>) \<and> async_deletes w = [] \<and> hubs w = hubs (lv_world l)"
  using assms
proof (induction "length (async_deletes (lv_world l))" arbitrary: l)
  case 0
  then show ?case by (intro exI [of _ "lv_world l"]) (simp add: live_steps.stay)
next
  case (Suc n)
  then obtain k where k: "k \<in> set (async_deletes (lv_world l))" by (cases "async_deletes (lv_world l)") auto
  obtain x w where w: "run (run_async_delete app k) (lv_world l) = (x, w)"
    by (cases "run (run_async_delete app k) (lv_world l)")
  note f = run_async_delete_frame [OF w]
  then have n: "n = length (async_deletes (lv_world (l\<lparr>lv_world := w\<rparr>)))" using k Suc.hyps(2) by (simp add: length_remove1)
  have step: "live_steps app bo UNIV l (l\<lparr>lv_world := w\<rparr>)"
    by (rule live_steps_one [OF live_step.deleted [OF _ k w]]) (simp_all add: Suc.prems)
  from Suc.hyps(1) [OF n] Suc.prems f live_steps_trans [OF step] show ?case by fastforce
qed

text \<open>
  The sample server gets a viewer, who pings once and then stops reading: the pump is inside the write
  of the pong when the process is told to stop.
\<close>

theorem stalled_viewer_blocks_shutdown_witness:
  "\<exists>p l. live_reachable sample_launch p l \<and> lv_stage l = WaitingHubs [''ch''] \<and> stalled (pr_app p) l ''ch'' 0 \<and>
     (\<forall>m. live_steps (pr_app p) None (- {Network, DetachedHandler}) l m \<longrightarrow> lv_stage m \<noteq> Exited)"
proof -
  let ?cs = "make_channel ''tmp'' (hd (cfg_Channels launch_config))"
  let ?r = "plain_request ''GET'' ''/ch/websocket''"
  obtain p where p: "web_main sample_launch = Running p" "MaxConn (pr_app p) = 10000" "Channels (pr_app p) = [?cs]"
    using sample_launch_app by blast
  have bo: "ln_bot sample_launch = None" "ln_opened sample_launch = Inr ()" by (simp_all add: sample_launch_def)
  have k: "Key ?cs = ''ch''" by code_simp
  have "find_route ?r = Some (Websocket, [(''channel'', ''ch'')])" by code_simp
  then have ws: "websocket_channel (pr_app p) ?r = Some ?cs" using k by (simp add: websocket_channel_def find_channel_def p(3))
  let ?l = "live_start None (Inr ()) p"
  have l: "live_reachable sample_launch p ?l" using live_reachable.started [OF p(1)] by (simp add: bo)
  have h: "\<forall>ch. hubs (lv_world ?l) ch = NewHub 10000" using started_without_builds [OF p(1)] p(2) by (simp add: live_start_def)
  have "lv_stage ?l = Serving" "\<forall>ch. clients (hubs (lv_world ?l) ch) = []" using h by (simp_all add: live_start_def NewHub_def)
  from sweeps_come_to_rest [OF this, of "pr_app p" None] obtain ts w
    where w: "live_steps (pr_app p) None UNIV ?l (?l\<lparr>lv_sweeps := ts, lv_world := w\<rparr>)" "hubs w = hubs (lv_world ?l)"
      "\<forall>t \<in> set ts. snd t \<noteq> Working" by blast
  define a where "a = ?l\<lparr>lv_sweeps := ts, lv_world := w\<rparr>"
  have a: "live_reachable sample_launch p a" using live_steps_reachable [of p sample_launch] w(1) l by (simp add: a_def bo)
  have a_sel: "lv_stage a = Serving" "in_flight a = []" "detached a = []" "ended_pumps a = {}" "lv_sweeps a = ts"
    "hubs (lv_world a) ''ch'' = NewHub 10000"
    using h w(2) by (simp_all add: a_def live_start_def)
  have step: "live_reachable sample_launch p m" if "live_reachable sample_launch p k" "live_step (pr_app p) None x k m" for k x m
    using live_reachable.stepped [OF that(1)] that(2) by (simp add: bo)
  obtain w1 where w1: "run (ws_reserve ?cs) (lv_world a) = (True, w1)" "hubs w1 ''ch'' = snd (Reserve (NewHub 10000))"
    using a_sel(6) k by (simp add: ws_reserve_def run_bind run_hub_op Reserve_def NewHub_def)
  obtain w2 where w2: "run (ws_upgraded ?cs True) w1 = (Some 0, w2)" "hubs w2 ''ch'' = snd (Add (snd (Reserve (NewHub 10000))))"
    using w1(2) k by (simp add: ws_upgraded_def run_bind run_hub_op Reserve_def NewHub_def Add_def Let_def)
  obtain w3 where w3: "run (hub_op ?cs (ReadLoop 0 [Ping 1])) w2 = (None, w3)"
      "hubs w3 ''ch'' = snd (TrySend 0 (EventPong 1) (snd (Add (snd (Reserve (NewHub 10000))))))"
    using w2(2) k by (simp add: run_hub_op)
  let ?h = "snd (TrySend 0 (EventPong 1) (snd (Add (snd (Reserve (NewHub 10000))))))"
  obtain h4 where h4: "writePump 0 PumpTake (hubs w3 ''ch'') = Some ([], True, h4)" "next_ref h4 = 1"
      "write_stuck 0 h4" "\<not> write_stuck 0 (hubs w3 ''ch'')" "next_ref (hubs w3 ''ch'') = 1"
    unfolding w3(2) by (simp add: writePump_def pump_pop_def stuck_defs TrySend_def Add_def Reserve_def NewHub_def Let_def send_capacity_def)
  let ?b0 = "a\<lparr>in_flight := [Answering ?r]\<rparr>"
  let ?b1 = "?b0\<lparr>in_flight := [Upgrading ?cs], detached := [], lv_world := w1\<rparr>"
  let ?b2 = "?b1\<lparr>in_flight := [], detached := [Hijacked ?cs], lv_world := w1\<rparr>"
  let ?b3 = "?b2\<lparr>detached := [Viewing ?cs 0], lv_world := w2\<rparr>"
  let ?b4 = "?b3\<lparr>detached := [Viewing ?cs 0], lv_world := w3\<rparr>"
  let ?w4 = "w3\<lparr>hubs := (hubs w3)(''ch'' := h4)\<rparr>"
  let ?b5 = "?b4\<lparr>lv_world := ?w4, ended_pumps := {}\<rparr>"
  have "live_reachable sample_launch p ?b0" using step [OF a live_step.arrive [where l = a and r = ?r]] a_sel by simp
  then have "live_reachable sample_launch p ?b1"
    using step live_step.handled [of ?b0 "Answering ?r" "pr_app p" w1 "[Upgrading ?cs]" None]
      handler_step.handler_reserves [OF ws w1(1)] a_sel by simp
  then have "live_reachable sample_launch p ?b2"
    using step live_step.handled [of ?b1 "Upgrading ?cs" "pr_app p" w1 "[Hijacked ?cs]" None]
      handler_step.handler_hijacks [of "pr_app p" w1 ?cs] a_sel by simp
  then have "live_reachable sample_launch p ?b3"
    using step live_step.finished [of ?b2 "Hijacked ?cs" "pr_app p" w2 "[Viewing ?cs 0]" None]
      handler_step.handler_connects [OF w2(1)] a_sel by simp
  then have "live_reachable sample_launch p ?b4"
    using step live_step.finished [of ?b3 "Viewing ?cs 0" "pr_app p" w3 "[Viewing ?cs 0]" None]
      handler_step.handler_reads [OF w3(1)] a_sel by simp
  then have "live_reachable sample_launch p ?b5"
    using step live_step.pumped [of ?b4 "pr_app p" "''ch''" 0 PumpTake "[]" True h4 None] h4 a_sel p(3) k
    by (simp add: pump_running_def stalled_def)
  then have "live_reachable sample_launch p (?b5\<lparr>lv_stage := PollsReleased, lv_world := shutdown_world ReleasePolls ?w4\<rparr>)"
    using step live_step.signalled [of ?b5 "pr_app p" None] a_sel by simp
  from step [OF this live_step.listener_closed]
  have "live_reachable sample_launch p (?b5\<lparr>lv_world := shutdown_world ReleasePolls ?w4, lv_stage := Draining\<rparr>)" by simp
  from step [OF this live_step.drained]
  have c: "live_reachable sample_launch p (?b5\<lparr>lv_world := shutdown_world ReleasePolls ?w4, lv_stage := ClosingApp\<rparr>)"
    (is "live_reachable _ _ ?c") by (simp add: after_http_def)
  have "lv_stage ?c = ClosingApp" "\<forall>t \<in> set (lv_sweeps ?c). snd t \<noteq> Working" using w(3) a_sel(5) by simp_all
  from sweeps_end [OF this, of "pr_app p" None] obtain us
    where us: "live_steps (pr_app p) None UNIV ?c (?c\<lparr>lv_sweeps := us\<rparr>)" "\<forall>t \<in> set us. snd t = Ended" by blast
  have "lv_stage (?c\<lparr>lv_sweeps := us\<rparr>) = ClosingApp" by simp
  from deletions_end [OF this, of "pr_app p" None] obtain w5
    where w5: "live_steps (pr_app p) None UNIV (?c\<lparr>lv_sweeps := us\<rparr>) (?c\<lparr>lv_sweeps := us, lv_world := w5\<rparr>)"
      "async_deletes w5 = []" "hubs w5 = hubs ?w4" by (auto simp: shutdown_world_def)
  have d: "live_reachable sample_launch p (?c\<lparr>lv_sweeps := us, lv_world := w5\<rparr>)" (is "live_reachable _ _ ?d")
    using live_steps_reachable [of p sample_launch] live_steps_trans [OF us(1) w5(1)] c by (simp add: bo)
  have "live_step (pr_app p) None MainThread ?d (?d\<lparr>lv_stage := WaitingHubs [''ch'']\<rparr>)"
    by (rule live_step.tasks_done) (use us(2) w5(2) p(3) k in \<open>simp_all add: tasks_Wait_returns_def list_all_iff\<close>)
  from step [OF d this] have e: "live_reachable sample_launch p (?d\<lparr>lv_stage := WaitingHubs [''ch'']\<rparr>)" (is "live_reachable _ _ ?e") .
  have st: "stalled (pr_app p) ?e ''ch'' 0"
    using h4(2,3) w5(3) a_sel(4) p(3) k by (simp add: stalled_def pump_running_def)
  have stage: "lv_stage ?e = WaitingHubs [''ch'']" "''ch'' \<in> set [''ch'']" by simp_all
  have "lv_stage m \<noteq> Exited" if "live_steps (pr_app p) None (- {Network, DetachedHandler}) ?e m" for m
    using stalled_viewer_blocks_shutdown [OF e stage st, of m] that by (auto simp: bo)
  with e st stage(1) show ?thesis by blast
qed

end
