(* ===== verification/Logging.thy ===== *)
theory Logging
  imports Prelude
begin

text \<open>
  \<^verbatim>\<open>internal/logging/logging.go\<close>: the process-wide logger. A \<^verbatim>\<open>slog.Handler\<close> is either a handler of
  the standard library (text or JSON, with a writer, a minimal level and what \<^verbatim>\<open>With\<close> and
  \<^verbatim>\<open>WithGroup\<close> added to it) or the code's \<^verbatim>\<open>multiHandler\<close>, which may hold either kind. Writing a
  record to a writer is a parameter (\<open>emit\<close>: \<^verbatim>\<open>None\<close>, or the error); the rotating file is the
  record of its settings. The lemmas show that nesting is invisible (a multi handler behaves as the
  list of its leaves), and the property says where a record ends up.
\<close>

section \<open>Handlers\<close>

datatype log_scope = Attrs "(string \<times> string) list" | Group string

record log_record =
  Level :: int
  Message :: string

datatype log_format = TextFormat | JSONFormat

record rotating_file =
  Filename :: string
  MaxSize :: int \<comment> \<open>megabytes\<close>
  MaxBackups :: int
  MaxAge :: int \<comment> \<open>days\<close>
  LocalTime :: bool
  Compress :: bool

datatype log_writer = Stdout | RotatingFile rotating_file

datatype slog_handler =
    stdHandler log_format log_writer int "log_scope list"
  | multiHandler "slog_handler list"

text \<open>One output: the format, the writer, the attributes and groups in force, and the record.\<close>

type_synonym log_output = "log_format \<times> log_writer \<times> log_scope list \<times> log_record"

text \<open>\<^verbatim>\<open>errors.Join\<close> of messages: no error for the empty list, else the messages on lines of their own.\<close>

fun join_lines :: "string list \<Rightarrow> string" where
  "join_lines [] = []"
| "join_lines [m] = m"
| "join_lines (m # ms) = m @ CHR 0x0A # join_lines ms"

definition errors_Join :: "string list \<Rightarrow> string option" where
  "errors_Join ms = (if ms = [] then None else Some (join_lines ms))"

fun handler_Enabled :: "slog_handler \<Rightarrow> int \<Rightarrow> bool" where
  "handler_Enabled (stdHandler f w lv sc) level \<longleftrightarrow> lv \<le> level"
| "handler_Enabled (multiHandler hs) level \<longleftrightarrow> list_ex (\<lambda>h. handler_Enabled h level) hs"

text \<open>
  The loop of \<^verbatim>\<open>multiHandler.Handle\<close> returns what was written, in order, and the errors it collected.
\<close>

fun handler_Handle ::
  "(log_output \<Rightarrow> string option) \<Rightarrow> slog_handler \<Rightarrow> log_record \<Rightarrow> log_output list \<times> string option"
and handle_each ::
  "(log_output \<Rightarrow> string option) \<Rightarrow> slog_handler list \<Rightarrow> log_record \<Rightarrow> log_output list \<times> string list" where
  "handler_Handle emit (stdHandler f w lv sc) r = ([(f, w, sc, r)], emit (f, w, sc, r))"
| "handler_Handle emit (multiHandler hs) r =
     (case handle_each emit hs r of (outs, errs) \<Rightarrow> (outs, errors_Join errs))"
| "handle_each emit [] r = ([], [])"
| "handle_each emit (h # hs) r =
     (let (outs, errs) =
        (if handler_Enabled h (Level r)
         then (case handler_Handle emit h r of (os, e) \<Rightarrow> (os, case e of None \<Rightarrow> [] | Some m \<Rightarrow> [m]))
         else ([], []))
      in case handle_each emit hs r of (outs', errs') \<Rightarrow> (outs @ outs', errs @ errs'))"

fun handler_With :: "log_scope \<Rightarrow> slog_handler \<Rightarrow> slog_handler" where
  "handler_With s (stdHandler f w lv sc) = stdHandler f w lv (sc @ [s])"
| "handler_With s (multiHandler hs) = multiHandler (map (handler_With s) hs)"

definition handler_WithAttrs :: "(string \<times> string) list \<Rightarrow> slog_handler \<Rightarrow> slog_handler" where
  "handler_WithAttrs attrs = handler_With (Attrs attrs)"

definition handler_WithGroup :: "string \<Rightarrow> slog_handler \<Rightarrow> slog_handler" where
  "handler_WithGroup name = handler_With (Group name)"

section \<open>The logger of the process\<close>

definition LevelDebug :: int where "LevelDebug = -4"
definition LevelInfo :: int where "LevelInfo = 0"

definition log_file :: "string \<Rightarrow> rotating_file" where
  "log_file logPath = \<lparr>Filename = logPath, MaxSize = 1, MaxBackups = 10, MaxAge = 90, LocalTime = True,
     Compress = False\<rparr>"

definition logging_Setup :: "string \<Rightarrow> slog_handler" where
  "logging_Setup logPath = multiHandler
     [stdHandler TextFormat Stdout LevelInfo [],
      stdHandler JSONFormat (RotatingFile (log_file logPath)) LevelDebug []]"

text \<open>\<^verbatim>\<open>slog.Info(...)\<close> and its siblings: the record is built only for an enabled level; the error is dropped.\<close>

definition slog_Log :: "(log_output \<Rightarrow> string option) \<Rightarrow> slog_handler \<Rightarrow> log_record \<Rightarrow> log_output list" where
  "slog_Log emit h r = (if handler_Enabled h (Level r) then fst (handler_Handle emit h r) else [])"

section \<open>A handler is the list of its leaves\<close>

fun leaves :: "slog_handler \<Rightarrow> (log_format \<times> log_writer \<times> int \<times> log_scope list) list" where
  "leaves (stdHandler f w lv sc) = [(f, w, lv, sc)]"
| "leaves (multiHandler hs) = concat (map leaves hs)"

definition leaf_outputs ::
  "log_record \<Rightarrow> (log_format \<times> log_writer \<times> int \<times> log_scope list) list \<Rightarrow> log_output list" where
  "leaf_outputs r ls = map (\<lambda>(f, w, lv, sc). (f, w, sc, r)) (filter (\<lambda>(f, w, lv, sc). lv \<le> Level r) ls)"

definition failures :: "(log_output \<Rightarrow> string option) \<Rightarrow> log_output list \<Rightarrow> string list" where
  "failures emit os = concat (map (\<lambda>o'. case emit o' of None \<Rightarrow> [] | Some m \<Rightarrow> [m]) os)"

lemma leaf_outputs_simps [simp]:
  "leaf_outputs r [] = []"
  "leaf_outputs r (ls @ ls') = leaf_outputs r ls @ leaf_outputs r ls'"
  "leaf_outputs r ((f, w, lv, sc) # ls) = (if lv \<le> Level r then [(f, w, sc, r)] else []) @ leaf_outputs r ls"
  by (simp_all add: leaf_outputs_def)

lemma failures_simps [simp]:
  "failures emit [] = []"
  "failures emit (o' # os) = (case emit o' of None \<Rightarrow> [] | Some m \<Rightarrow> [m]) @ failures emit os"
  "failures emit (os @ os') = failures emit os @ failures emit os'"
  by (simp_all add: failures_def)

lemma Enabled_leaves: "handler_Enabled h level \<longleftrightarrow> (\<exists>(f, w, lv, sc) \<in> set (leaves h). lv \<le> level)"
  by (induction h) (auto simp: list_ex_iff)

lemma not_Enabled_silent: "\<not> handler_Enabled h (Level r) \<Longrightarrow> leaf_outputs r (leaves h) = []"
  by (auto simp: Enabled_leaves leaf_outputs_def filter_empty_conv split: prod.splits)

lemma join_lines_Cons: "ms \<noteq> [] \<Longrightarrow> join_lines (m # ms) = m @ CHR 0x0A # join_lines ms"
  by (cases ms) simp_all

lemma join_lines_append:
  "ms \<noteq> [] \<Longrightarrow> ms' \<noteq> [] \<Longrightarrow> join_lines (ms @ ms') = join_lines ms @ CHR 0x0A # join_lines ms'"
  by (induction ms rule: join_lines.induct) (simp_all add: join_lines_Cons)

text \<open>
  Every leaf that accepts the level is written to, once and in the order of the tree, and the joined
  message lists the failures in that order: nested joins read as one.
\<close>

lemma errors_Join_nested:
  assumes "errors_Join ms' = errors_Join ns"
  shows "errors_Join ((case errors_Join ms of None \<Rightarrow> [] | Some m \<Rightarrow> [m]) @ ms') = errors_Join (ms @ ns)"
proof -
  from assms have "ms' = [] \<longleftrightarrow> ns = []" and "join_lines ms' = join_lines ns"
    by (auto simp: errors_Join_def split: if_splits)
  then show ?thesis
    by (cases "ms = []"; cases "ns = []") (auto simp: errors_Join_def join_lines_append join_lines_Cons)
qed

lemma Handle_leaves:
  "handler_Enabled h (Level r) \<Longrightarrow>
     handler_Handle emit h r = (leaf_outputs r (leaves h), errors_Join (failures emit (leaf_outputs r (leaves h))))"
  "fst (handle_each emit hs r) = leaf_outputs r (concat (map leaves hs)) \<and>
     errors_Join (snd (handle_each emit hs r)) =
       errors_Join (failures emit (leaf_outputs r (concat (map leaves hs))))"
proof (induction emit h r and emit hs r rule: handler_Handle_handle_each.induct)
  case (1 emit f w lv sc r)
  then show ?case by (simp add: errors_Join_def split: option.splits)
next
  case (4 emit h hs r)
  obtain outs' errs' where rest: "handle_each emit hs r = (outs', errs')"
    by (cases "handle_each emit hs r")
  show ?case
  proof (cases "handler_Enabled h (Level r)")
    case True
    then show ?thesis
      using 4 rest errors_Join_nested [of errs' _ "failures emit (leaf_outputs r (leaves h))"] by simp
  next
    case False
    then show ?thesis
      using 4 rest by (simp add: not_Enabled_silent)
  qed
qed (auto split: prod.splits)

section \<open>Where a record ends up\<close>

lemma leaves_With: "leaves (handler_With s h) = map (\<lambda>(f, w, lv, sc). (f, w, lv, sc @ [s])) (leaves h)"
proof (induction h)
  case (multiHandler hs)
  then show ?case by (induction hs) simp_all
qed simp

lemma leaves_fold_With:
  "leaves (fold handler_With ss h) = map (\<lambda>(f, w, lv, sc). (f, w, lv, sc @ ss)) (leaves h)"
  by (induction ss arbitrary: h) (auto simp: leaves_With split: prod.splits)

lemma slog_Log_leaves: "slog_Log emit h r = leaf_outputs r (leaves h)"
  by (simp add: slog_Log_def Handle_leaves(1) not_Enabled_silent)

definition console_line :: "log_scope list \<Rightarrow> log_record \<Rightarrow> log_output list" where
  "console_line scopes r = (if LevelInfo \<le> Level r then [(TextFormat, Stdout, scopes, r)] else [])"

definition file_line :: "string \<Rightarrow> log_scope list \<Rightarrow> log_record \<Rightarrow> log_output list" where
  "file_line path scopes r =
     (if LevelDebug \<le> Level r then [(JSONFormat, RotatingFile (log_file path), scopes, r)] else [])"

lemma leaf_outputs_Setup:
  "leaf_outputs r (leaves (fold handler_With scopes (logging_Setup path))) =
     console_line scopes r @ file_line path scopes r"
  by (simp add: leaves_fold_With logging_Setup_def console_line_def file_line_def)

text \<open>
  However a logger was derived from the one \<^verbatim>\<open>Setup\<close> installs (any chain of \<^verbatim>\<open>With\<close> and
  \<^verbatim>\<open>WithGroup\<close>), a record of level Info and above is printed on the console, one of level Debug and
  above goes to the rotating file, each with every attribute and group of the chain in order; a
  writer that fails keeps the record from no other writer, and the error returned joins exactly the
  failures.
\<close>

theorem records_reach_console_and_file:
  "slog_Log emit (fold handler_With scopes (logging_Setup path)) r =
     console_line scopes r @ file_line path scopes r \<and>
   handler_Handle emit (fold handler_With scopes (logging_Setup path)) r =
     (console_line scopes r @ file_line path scopes r,
      errors_Join (failures emit (console_line scopes r @ file_line path scopes r)))"
proof -
  let ?h = "fold handler_With scopes (logging_Setup path)"
  have "handler_Handle emit ?h r =
      (leaf_outputs r (leaves ?h), errors_Join (failures emit (leaf_outputs r (leaves ?h))))"
  proof (cases "handler_Enabled ?h (Level r)")
    case False
    have "fold handler_With scopes (multiHandler hs) = multiHandler (map (fold handler_With scopes) hs)" for hs
      by (induction scopes arbitrary: hs) (simp_all add: comp_def)
    then obtain hs where "?h = multiHandler hs" by (auto simp: logging_Setup_def)
    then show ?thesis
      using Handle_leaves(2) [of emit hs r] by (auto simp: errors_Join_def split: prod.splits if_splits)
  qed (rule Handle_leaves(1))
  then show ?thesis by (simp only: slog_Log_leaves leaf_outputs_Setup)
qed

end
