(* ===== verification/Metrics.thy ===== *)
theory Metrics
  imports Complex_Main FFmpeg
begin

text \<open>
  \<^verbatim>\<open>internal/metrics/metrics.go\<close>: the collectors the server registers when the package is initialised.
  The Prometheus library is a parameter: its registry is a function that takes a descriptor and
  panics (\<^const>\<open>None\<close>) or returns the registry with it. What the library documents (a registration
  fails for a name already taken, for an ill-formed name and for buckets that do not increase) is a
  hypothesis of the theorem that starting the process does not panic here.
\<close>

section \<open>Descriptors\<close>

datatype metric_kind =
    Gauge
  | Counter
  | GaugeFunc
  | Histogram "rat list option" \<comment> \<open>\<^const>\<open>None\<close>: the default buckets of the library\<close>

record metric_desc =
  metric_name :: string
  metric_help :: string
  metric_kind :: metric_kind
  metric_labels :: "string list"

definition metric_ActiveConnections :: metric_desc where
  "metric_ActiveConnections = \<lparr>metric_name = ''lt_active_connections'',
     metric_help = ''The current number of active connections.'',
     metric_kind = Gauge, metric_labels = []\<rparr>"

definition metric_TotalConnections :: metric_desc where
  "metric_TotalConnections = \<lparr>metric_name = ''lt_total_connections'',
     metric_help = ''The total number of connections.'',
     metric_kind = Counter, metric_labels = []\<rparr>"

definition metric_ConnectionDuration :: metric_desc where
  "metric_ConnectionDuration = \<lparr>metric_name = ''lt_connection_duration_seconds'',
     metric_help = ''The duration of connections in seconds.'',
     metric_kind = Histogram (Some [1, 5, 10, 30, 60, 300, 600, 1800, 3600, 5400, 7200, 14400]),
     metric_labels = []\<rparr>"

definition metric_MessagesTotal :: metric_desc where
  "metric_MessagesTotal = \<lparr>metric_name = ''lt_messages_total'',
     metric_help = ''The total number of messages.'',
     metric_kind = Counter, metric_labels = []\<rparr>"

definition metric_MessageProcessingDuration :: metric_desc where
  "metric_MessageProcessingDuration = \<lparr>metric_name = ''lt_message_processing_duration_seconds'',
     metric_help = ''The duration of message processing.'',
     metric_kind = Histogram None,
     metric_labels = []\<rparr>"

definition metric_MediaProcessingDuration :: metric_desc where
  "metric_MediaProcessingDuration = \<lparr>metric_name = ''lt_media_processing_duration_seconds'',
     metric_help = ''The duration of media processing steps in seconds.'',
     metric_kind = Histogram (Some [1 / 100, 5 / 100, 1 / 10, 5 / 10, 1, 25 / 10, 5, 10]),
     metric_labels = [''step'', ''key'']\<rparr>"

definition metric_RequestProcessingDuration :: metric_desc where
  "metric_RequestProcessingDuration = \<lparr>metric_name = ''lt_request_processing_duration_seconds'',
     metric_help = ''The duration of request processing steps in seconds.'',
     metric_kind = Histogram (Some [1 / 10000, 5 / 10000, 1 / 1000, 5 / 1000, 1 / 100, 25 / 1000, 5 / 100, 1 / 10, 25 / 100, 5 / 10, 1, 25 / 10, 5, 10]),
     metric_labels = [''handler'', ''step'', ''key'']\<rparr>"

definition metric_ServerOOS :: metric_desc where
  "metric_ServerOOS = \<lparr>metric_name = ''lt_server_oos'',
     metric_help = ''The total number of times the server was out-of-sync with the client.'',
     metric_kind = Counter, metric_labels = []\<rparr>"

definition metric_WebsocketError :: metric_desc where
  "metric_WebsocketError = \<lparr>metric_name = ''lt_websocket_errors'',
     metric_help = ''The total number of errors for the Websocket.'',
     metric_kind = Counter, metric_labels = []\<rparr>"

definition metric_Http400Errors :: metric_desc where
  "metric_Http400Errors = \<lparr>metric_name = ''lt_400_errors'',
     metric_help = ''The total number of HTTP 4xx client errors.'',
     metric_kind = Counter, metric_labels = []\<rparr>"

definition metric_Http500Errors :: metric_desc where
  "metric_Http500Errors = \<lparr>metric_name = ''lt_500_errors'',
     metric_help = ''The total number of HTTP 5xx server errors.'',
     metric_kind = Counter, metric_labels = []\<rparr>"

definition metric_MemoryUsage :: metric_desc where
  "metric_MemoryUsage = \<lparr>metric_name = ''lt_memory_usage_bytes'',
     metric_help = ''The current memory usage.'',
     metric_kind = GaugeFunc, metric_labels = []\<rparr>"

definition metric_ClientsPerKey :: metric_desc where
  "metric_ClientsPerKey = \<lparr>metric_name = ''lt_clients_per_key'',
     metric_help = ''The number of clients per key.'',
     metric_kind = Gauge, metric_labels = [''key'']\<rparr>"

definition metric_TotalAudioPlayed :: metric_desc where
  "metric_TotalAudioPlayed = \<lparr>metric_name = ''lt_total_audio_played_per_key'',
     metric_help = ''The total number of successful calls to the /audio endpoint.'',
     metric_kind = Counter, metric_labels = [''key'']\<rparr>"

definition metric_StreamAudioPlayed :: metric_desc where
  "metric_StreamAudioPlayed = \<lparr>metric_name = ''lt_stream_audio_played_per_key'',
     metric_help = ''The number of successful calls to the /audio endpoint in a given stream period.'',
     metric_kind = Gauge, metric_labels = [''key'']\<rparr>"

definition metric_TotalVideoPlayed :: metric_desc where
  "metric_TotalVideoPlayed = \<lparr>metric_name = ''lt_total_video_played_per_key'',
     metric_help = ''The total number of successful calls to the /video endpoint.'',
     metric_kind = Counter, metric_labels = [''key'']\<rparr>"

definition metric_StreamVideoPlayed :: metric_desc where
  "metric_StreamVideoPlayed = \<lparr>metric_name = ''lt_stream_video_played_per_key'',
     metric_help = ''The number of successful calls to the /video endpoint in a given stream period.'',
     metric_kind = Gauge, metric_labels = [''key'']\<rparr>"

definition metric_TotalFramesDownloads :: metric_desc where
  "metric_TotalFramesDownloads = \<lparr>metric_name = ''lt_total_frame_downloads_per_key'',
     metric_help = ''The total number of successful calls to the /frame endpoint.'',
     metric_kind = Counter, metric_labels = [''key'']\<rparr>"

definition metric_StreamFramesDownloads :: metric_desc where
  "metric_StreamFramesDownloads = \<lparr>metric_name = ''lt_stream_frame_downloads_per_key'',
     metric_help = ''The number of successful calls to the /frame endpoint in a given stream period.'',
     metric_kind = Gauge, metric_labels = [''key'']\<rparr>"

definition metric_TotalTranscriptFetches :: metric_desc where
  "metric_TotalTranscriptFetches = \<lparr>metric_name = ''lt_total_transcript_fetches_per_key'',
     metric_help = ''The total number of successful calls to the /transcript endpoint (past stream transcripts).'',
     metric_kind = Counter, metric_labels = [''key'']\<rparr>"

definition metric_StreamTranscriptFetches :: metric_desc where
  "metric_StreamTranscriptFetches = \<lparr>metric_name = ''lt_stream_transcript_fetches_per_key'',
     metric_help = ''The number of successful calls to the /transcript endpoint in a given stream period.'',
     metric_kind = Gauge, metric_labels = [''key'']\<rparr>"

definition metric_TranscriptFetchLines :: metric_desc where
  "metric_TranscriptFetchLines = \<lparr>metric_name = ''lt_transcript_fetch_lines'',
     metric_help = ''The number of transcript lines returned by the /transcript endpoint.'',
     metric_kind = Histogram (Some [0, 10, 50, 100, 250, 500, 1000, 2500, 5000, 10000]),
     metric_labels = [''key'']\<rparr>"

definition metric_PastStreamFetchAge :: metric_desc where
  "metric_PastStreamFetchAge = \<lparr>metric_name = ''lt_past_stream_fetch_age_seconds'',
     metric_help = ''The age of a past stream, in seconds, when its transcript was fetched.'',
     metric_kind = Histogram (Some [3600, 21600, 43200, 86400, 172800, 604800, 1209600, 2592000, 7776000, 15552000, 31536000]),
     metric_labels = [''key'']\<rparr>"

definition metric_TotalAudioClipped :: metric_desc where
  "metric_TotalAudioClipped = \<lparr>metric_name = ''lt_total_audio_clipped_per_key'',
     metric_help = ''The total number of successful audio clips created.'',
     metric_kind = Counter, metric_labels = [''key'']\<rparr>"

definition metric_StreamAudioClipped :: metric_desc where
  "metric_StreamAudioClipped = \<lparr>metric_name = ''lt_stream_audio_clipped_per_key'',
     metric_help = ''The total number of successful audio clips created in a given stream period.'',
     metric_kind = Gauge, metric_labels = [''key'']\<rparr>"

definition metric_TotalVideoClipped :: metric_desc where
  "metric_TotalVideoClipped = \<lparr>metric_name = ''lt_total_video_clipped_per_key'',
     metric_help = ''The total number of successful video clips created.'',
     metric_kind = Counter, metric_labels = [''key'']\<rparr>"

definition metric_StreamVideoClipped :: metric_desc where
  "metric_StreamVideoClipped = \<lparr>metric_name = ''lt_stream_video_clipped_per_key'',
     metric_help = ''The total number of successful video clips created in a given stream period.'',
     metric_kind = Gauge, metric_labels = [''key'']\<rparr>"

definition metric_TotalAudioTrimmed :: metric_desc where
  "metric_TotalAudioTrimmed = \<lparr>metric_name = ''lt_total_audio_trim_per_key'',
     metric_help = ''The total number of successful audio clips trimmed.'',
     metric_kind = Counter, metric_labels = [''key'']\<rparr>"

definition metric_StreamAudioTrimmed :: metric_desc where
  "metric_StreamAudioTrimmed = \<lparr>metric_name = ''lt_stream_audio_trim_per_key'',
     metric_help = ''The total number of successful audio clips trimmed in a given stream period.'',
     metric_kind = Gauge, metric_labels = [''key'']\<rparr>"

definition metric_TotalVideoTrimmed :: metric_desc where
  "metric_TotalVideoTrimmed = \<lparr>metric_name = ''lt_total_video_trim_per_key'',
     metric_help = ''The total number of successful video clips trimmed.'',
     metric_kind = Counter, metric_labels = [''key'']\<rparr>"

definition metric_StreamVideoTrimmed :: metric_desc where
  "metric_StreamVideoTrimmed = \<lparr>metric_name = ''lt_stream_video_trim_per_key'',
     metric_help = ''The total number of successful video clips trimmed in a given stream period.'',
     metric_kind = Gauge, metric_labels = [''key'']\<rparr>"

definition metric_ActivatedStreams :: metric_desc where
  "metric_ActivatedStreams = \<lparr>metric_name = ''lt_activated_streams_per_key'',
     metric_help = ''Details of the currently active stream per key, with the value as the start timestamp.'',
     metric_kind = Gauge, metric_labels = [''key'', ''stream_id'', ''stream_title'']\<rparr>"

text \<open>The package-level variables, in the order Go initialises them.\<close>

definition all_metrics :: "metric_desc list" where
  "all_metrics =
     [metric_ActiveConnections, metric_TotalConnections, metric_ConnectionDuration,
      metric_MessagesTotal, metric_MessageProcessingDuration,
      metric_MediaProcessingDuration, metric_RequestProcessingDuration, metric_ServerOOS,
      metric_WebsocketError, metric_Http400Errors, metric_Http500Errors, metric_MemoryUsage,
      metric_ClientsPerKey, metric_TotalAudioPlayed, metric_StreamAudioPlayed,
      metric_TotalVideoPlayed, metric_StreamVideoPlayed, metric_TotalFramesDownloads,
      metric_StreamFramesDownloads, metric_TotalTranscriptFetches,
      metric_StreamTranscriptFetches, metric_TranscriptFetchLines,
      metric_PastStreamFetchAge, metric_TotalAudioClipped, metric_StreamAudioClipped,
      metric_TotalVideoClipped, metric_StreamVideoClipped, metric_TotalAudioTrimmed,
      metric_StreamAudioTrimmed, metric_TotalVideoTrimmed, metric_StreamVideoTrimmed,
      metric_ActivatedStreams]"

lemmas metric_defs =
  metric_ActiveConnections_def metric_TotalConnections_def metric_ConnectionDuration_def
  metric_MessagesTotal_def metric_MessageProcessingDuration_def
  metric_MediaProcessingDuration_def metric_RequestProcessingDuration_def
  metric_ServerOOS_def metric_WebsocketError_def metric_Http400Errors_def
  metric_Http500Errors_def metric_MemoryUsage_def metric_ClientsPerKey_def
  metric_TotalAudioPlayed_def metric_StreamAudioPlayed_def metric_TotalVideoPlayed_def
  metric_StreamVideoPlayed_def metric_TotalFramesDownloads_def
  metric_StreamFramesDownloads_def metric_TotalTranscriptFetches_def
  metric_StreamTranscriptFetches_def metric_TranscriptFetchLines_def
  metric_PastStreamFetchAge_def metric_TotalAudioClipped_def metric_StreamAudioClipped_def
  metric_TotalVideoClipped_def metric_StreamVideoClipped_def metric_TotalAudioTrimmed_def
  metric_StreamAudioTrimmed_def metric_TotalVideoTrimmed_def metric_StreamVideoTrimmed_def
  metric_ActivatedStreams_def

text \<open>The value of \<^verbatim>\<open>MemoryUsage\<close> is read when it is collected: the allocated bytes as a \<^verbatim>\<open>float64\<close>.\<close>

definition MemoryUsage_value :: "nat \<Rightarrow> nat" where
  "MemoryUsage_value alloc = round53 alloc"

section \<open>Registration\<close>

text \<open>\<^verbatim>\<open>promauto.NewX\<close> registers on the default registry and panics when that fails.\<close>

fun register_all :: "('r \<Rightarrow> metric_desc \<Rightarrow> 'r option) \<Rightarrow> 'r \<Rightarrow> metric_desc list \<Rightarrow> 'r option" where
  "register_all register r [] = Some r"
| "register_all register r (d # ds) =
     (case register r d of None \<Rightarrow> None | Some r' \<Rightarrow> register_all register r' ds)"

fun name_char :: "bool \<Rightarrow> char \<Rightarrow> bool" where
  "name_char first c \<longleftrightarrow>
     c \<in> set ''abcdefghijklmnopqrstuvwxyzABCDEFGHIJKLMNOPQRSTUVWXYZ_'' \<or> (\<not> first \<and> c \<in> set ''0123456789'')"

fun well_formed_name :: "string \<Rightarrow> bool" where
  "well_formed_name [] \<longleftrightarrow> False"
| "well_formed_name (c # cs) \<longleftrightarrow> name_char True c \<and> list_all (name_char False) cs"

fun increasing :: "rat list \<Rightarrow> bool" where
  "increasing (x # y # xs) \<longleftrightarrow> x < y \<and> increasing (y # xs)"
| "increasing xs \<longleftrightarrow> True"

definition well_formed_desc :: "metric_desc \<Rightarrow> bool" where
  "well_formed_desc d \<longleftrightarrow>
     well_formed_name (metric_name d) \<and> list_all well_formed_name (metric_labels d) \<and> distinct (metric_labels d) \<and>
     (case metric_kind d of
        Histogram b \<Rightarrow> ''le'' \<notin> set (metric_labels d) \<and> (case b of None \<Rightarrow> True | Some bs \<Rightarrow> increasing bs)
      | _ \<Rightarrow> True)"

lemma register_all_total:
  assumes law: "\<And>r d. well_formed_desc d \<Longrightarrow> metric_name d \<notin> names r \<Longrightarrow>
      \<exists>r'. register r d = Some r' \<and> names r' = insert (metric_name d) (names r)"
    and "list_all well_formed_desc ds" and "distinct (map metric_name ds)"
    and "set (map metric_name ds) \<inter> names r = {}"
  shows "\<exists>r'. register_all register r ds = Some r' \<and> names r' = set (map metric_name ds) \<union> names r"
  using assms(2-)
proof (induction ds arbitrary: r)
  case (Cons d ds)
  then obtain r' where r': "register r d = Some r'" "names r' = insert (metric_name d) (names r)"
    using law [of d r] by auto
  with Cons.prems show ?case using Cons.IH [of r'] by auto
qed simp

lemma metric_names_distinct: "distinct (map metric_name all_metrics)"
  by code_simp

lemma all_metrics_well_formed: "list_all well_formed_desc all_metrics"
  by code_simp

text \<open>
  Initialising the package does not panic on a registry that holds none of its names: the collectors
  have pairwise different, well-formed names and increasing buckets, and all of them end up registered.
\<close>

theorem metrics_register_without_panic:
  assumes "\<And>r d. well_formed_desc d \<Longrightarrow> metric_name d \<notin> names r \<Longrightarrow>
      \<exists>r'. register r d = Some r' \<and> names r' = insert (metric_name d) (names r)"
    and "set (map metric_name all_metrics) \<inter> names r = {}"
  shows "\<exists>r'. register_all register r all_metrics = Some r' \<and> set (map metric_name all_metrics) \<subseteq> names r'"
  using register_all_total [OF assms(1) all_metrics_well_formed metric_names_distinct assms(2)] by auto

theorem metrics_register_without_panic_witness:
  "\<exists>r'. register_all (\<lambda>r d. if metric_name d \<in> set r then None else Some (metric_name d # r)) [''go_goroutines''] all_metrics
      = Some r' \<and> set (map metric_name all_metrics) \<subseteq> set r'"
proof (rule metrics_register_without_panic)
  show "set (map metric_name all_metrics) \<inter> set [''go_goroutines''] = {}" by code_simp
qed simp

end
