(* ===== verification/Load_Test.thy ===== *)
theory Load_Test
  imports Prelude "HOL-Library.Word" "HOL-Library.Signed_Division" "HOL-Library.Multiset"
begin

text \<open>
  \<^verbatim>\<open>cmd/perf-test/main.go\<close>: the load test client. Each connection is a goroutine; what it does to
  the shared counters and to the list of latencies is a list of atomic actions, and a run is any
  complete interleaving of the goroutines' lists (\<open>picks\<close> says whose turn it is). What dialing,
  reading and the clock give is the record \<open>attempt\<close>; \<open>unmarshal\<close> is \<^verbatim>\<open>json.Unmarshal\<close> of the event
  field. Durations are Go's 64-bit nanoseconds.
\<close>

section \<open>Flags, attempts and shared state\<close>

record lt_flags =
  targetURL :: string
  conns :: int
  rate :: int
  duration :: int
  mode :: string

definition lt_defaults :: lt_flags where
  "lt_defaults = \<lparr>targetURL = ''ws://localhost:8080/mock/websocket'', conns = 100, rate = 10,
     duration = 10 * 1000000000, mode = ''active''\<rparr>"

record attempt =
  at_dial :: "gerr option"
  at_read :: "string res" \<comment> \<open>the first message\<close>
  at_elapsed :: int

record counters =
  success :: "64 word"
  failures :: "64 word"
  activeConns :: "64 word"
  latencies :: "int list"

definition no_counts :: counters where
  "no_counts = \<lparr>success = 0, failures = 0, activeConns = 0, latencies = []\<rparr>"

datatype lt_action = AddFailure | AppendLatency int | AddSuccess | AddActive int

fun apply_action :: "lt_action \<Rightarrow> counters \<Rightarrow> counters" where
  "apply_action AddFailure c = c\<lparr>failures := failures c + 1\<rparr>"
| "apply_action (AppendLatency l) c = c\<lparr>latencies := latencies c @ [l]\<rparr>"
| "apply_action AddSuccess c = c\<lparr>success := success c + 1\<rparr>"
| "apply_action (AddActive n) c = c\<lparr>activeConns := activeConns c + of_int n\<rparr>"

section \<open>One connection\<close>

text \<open>The error returns up to the check of the first event; a latency is measured only behind it.\<close>

definition first_sync :: "(string \<Rightarrow> string res) \<Rightarrow> attempt \<Rightarrow> int option" where
  "first_sync unmarshal a =
     (case at_dial a of
        Some e \<Rightarrow> None
      | None \<Rightarrow> (case at_read a of
          Inl e \<Rightarrow> None
        | Inr message \<Rightarrow> (case unmarshal message of
            Inl e \<Rightarrow> None
          | Inr event \<Rightarrow> (if event \<noteq> ''sync'' then None else Some (at_elapsed a)))))"

definition active_client :: "(string \<Rightarrow> string res) \<Rightarrow> attempt \<Rightarrow> lt_action list" where
  "active_client unmarshal a =
     (case first_sync unmarshal a of
        None \<Rightarrow> [AddFailure]
      | Some latency \<Rightarrow> [AppendLatency latency, AddSuccess, AddActive 1, AddActive (-1)])"

definition rate_client :: "(string \<Rightarrow> string res) \<Rightarrow> attempt \<Rightarrow> lt_action list" where
  "rate_client unmarshal a =
     (case first_sync unmarshal a of
        None \<Rightarrow> [AddFailure]
      | Some latency \<Rightarrow> [AppendLatency latency, AddSuccess])"

section \<open>Running the goroutines\<close>

text \<open>
  One interleaving: each pick runs the next action of that goroutine. It is complete when
  \<^verbatim>\<open>wg.Wait\<close> would return, with nothing left to do for any of them.
\<close>

fun interleave :: "nat list \<Rightarrow> 'a list list \<Rightarrow> 'a list option" where
  "interleave [] gs = (if list_all (\<lambda>g. g = []) gs then Some [] else None)"
| "interleave (i # is) gs =
     (if i < length gs
      then (case gs ! i of
              [] \<Rightarrow> None
            | a # r \<Rightarrow> map_option (\<lambda>as. a # as) (interleave is (gs[i := r])))
      else None)"

definition run_clients :: "nat list \<Rightarrow> lt_action list list \<Rightarrow> counters option" where
  "run_clients picks gs = map_option (\<lambda>as. fold apply_action as no_counts) (interleave picks gs)"

section \<open>Statistics\<close>

fun min_max :: "int \<Rightarrow> int \<Rightarrow> int \<Rightarrow> int list \<Rightarrow> int \<times> int \<times> int" where
  "min_max tot lo hi [] = (tot, lo, hi)"
| "min_max tot lo hi (l # ls) =
     min_max (wrap64 (tot + l)) (if l < lo then l else lo) (if hi < l then l else hi) ls"

definition latency_stats :: "int list \<Rightarrow> (int \<times> int \<times> int) option" where
  "latency_stats ls =
     (case ls of
        [] \<Rightarrow> None
      | l # _ \<Rightarrow> (case min_max 0 l l ls of
          (tot, lo, hi) \<Rightarrow> Some (lo, hi, tot sdiv int (length ls))))"

section \<open>The two modes and \<^verbatim>\<open>main\<close>\<close>

datatype lt_outcome =
    Fatal string
  | Panics string
  | Complete "64 word" "64 word" "(int \<times> int \<times> int) option"

definition report :: "counters \<Rightarrow> lt_outcome" where
  "report c = Complete (success c) (failures c) (latency_stats (latencies c))"

definition runActiveTest ::
  "(string \<Rightarrow> string res) \<Rightarrow> (nat \<Rightarrow> attempt) \<Rightarrow> nat list \<Rightarrow> lt_flags \<Rightarrow> counters option" where
  "runActiveTest unmarshal attempts picks fl =
     run_clients picks (map (\<lambda>i. active_client unmarshal (attempts i)) [0..<nat (conns fl)])"

text \<open>The interval between connections; \<^verbatim>\<open>time.NewTicker\<close> panics on one that is not positive.\<close>

definition rate_interval :: "int \<Rightarrow> int" where
  "rate_interval r = (if 0 < r then 1000000000 sdiv r else 1000000)"

text \<open>The loop starts a connection per tick until the stop channel wins the select.\<close>

datatype rate_event = Tick | StopTimer

fun rate_loop :: "rate_event list \<Rightarrow> nat option" where
  "rate_loop [] = None"
| "rate_loop (StopTimer # es) = Some 0"
| "rate_loop (Tick # es) = map_option Suc (rate_loop es)"

definition runRateTest ::
  "(string \<Rightarrow> string res) \<Rightarrow> (nat \<Rightarrow> attempt) \<Rightarrow> nat list \<Rightarrow> rate_event list \<Rightarrow> counters option" where
  "runRateTest unmarshal attempts picks es =
     (case rate_loop es of
        None \<Rightarrow> None
      | Some n \<Rightarrow> run_clients picks (map (\<lambda>i. rate_client unmarshal (attempts i)) [0..<n]))"

text \<open>\<^const>\<open>None\<close>: the run is not over (the picks or the events are not a complete run).\<close>

definition lt_main ::
  "(string \<Rightarrow> bool) \<Rightarrow> (string \<Rightarrow> string res) \<Rightarrow> (nat \<Rightarrow> attempt) \<Rightarrow> nat list \<Rightarrow> rate_event list \<Rightarrow>
     lt_flags \<Rightarrow> lt_outcome option" where
  "lt_main url_parses unmarshal attempts picks es fl =
     (if mode fl = ''active'' then
        (if \<not> url_parses (targetURL fl) then Some (Fatal ''Invalid URL:'')
         else map_option report (runActiveTest unmarshal attempts picks fl))
      else if mode fl = ''rate'' then
        (if \<not> url_parses (targetURL fl) then Some (Fatal ''Invalid URL:'')
         else if rate_interval (rate fl) \<le> 0 then Some (Panics ''non-positive interval for NewTicker'')
         else map_option report (runRateTest unmarshal attempts picks es))
      else Some (Fatal (''Unknown mode: '' @ mode fl)))"

section \<open>The counts do not depend on the interleaving\<close>

lemma interleave_mset: "interleave picks gs = Some as \<Longrightarrow> mset as = (\<Sum>g\<leftarrow>gs. mset g)"
proof (induction picks arbitrary: gs as)
  case Nil
  then have "list_all (\<lambda>g. g = []) gs" "as = []" by (auto split: if_splits)
  then show ?case by (induction gs) auto
next
  case (Cons i picks)
  then obtain a r as' where i: "i < length gs" "gs ! i = a # r" "interleave picks (gs[i := r]) = Some as'"
    and as: "as = a # as'"
    by (auto split: if_splits list.splits)
  have "(\<Sum>g\<leftarrow>gs. mset g) = add_mset a (\<Sum>g\<leftarrow>gs[i := r]. mset g)"
    using i(1,2) by (induction gs arbitrary: i) (auto split: nat.splits)
  then show ?case using Cons.IH [OF i(3)] as by simp
qed

lemma fold_actions:
  "fold apply_action as c =
     \<lparr>success = success c + of_nat (count (mset as) AddSuccess),
      failures = failures c + of_nat (count (mset as) AddFailure),
      activeConns = activeConns c + of_int (\<Sum>a\<leftarrow>as. case a of AddActive n \<Rightarrow> n | _ \<Rightarrow> 0),
      latencies = latencies c @ concat (map (\<lambda>a. case a of AppendLatency l \<Rightarrow> [l] | _ \<Rightarrow> []) as)\<rparr>"
proof (induction as arbitrary: c)
  case (Cons a as)
  then show ?case by (cases a) simp_all
qed simp

lemma all_done_length: "list_all (\<lambda>g. g = []) gs \<Longrightarrow> sum_list (map length gs) = 0"
  by (induction gs) auto

text \<open>A run can always be completed: whoever still has something to do is picked.\<close>

lemma interleave_exists: "\<exists>picks as. interleave picks gs = Some as"
proof (induction "sum_list (map length gs)" arbitrary: gs)
  case 0
  then have "list_all (\<lambda>g. g = []) gs" by (simp add: list_all_iff)
  then show ?case by (intro exI [of _ "[]"]) simp
next
  case (Suc n)
  then have "\<not> list_all (\<lambda>g. g = []) gs" using all_done_length [of gs] by (metis nat.distinct(1))
  then obtain i where i: "i < length gs" "gs ! i \<noteq> []" by (auto simp: list_all_length)
  then obtain a r where g: "gs ! i = a # r" by (cases "gs ! i") auto
  have "sum_list (map length gs) = Suc (sum_list (map length (gs[i := r])))"
    using i(1) g by (induction gs arbitrary: i) (auto split: nat.splits)
  with Suc.hyps(2) have "n = sum_list (map length (gs[i := r]))" by simp
  from Suc.hyps(1) [OF this] obtain picks as where "interleave picks (gs[i := r]) = Some as" by blast
  then show ?case using i g by (intro exI [of _ "i # picks"] exI [of _ "a # as"]) simp
qed

text \<open>What a client contributes, whichever mode it runs in.\<close>

definition client_of :: "(string \<Rightarrow> string res) \<Rightarrow> (attempt \<Rightarrow> lt_action list) \<Rightarrow> bool" where
  "client_of unmarshal client \<longleftrightarrow> client = active_client unmarshal \<or> client = rate_client unmarshal"

definition synced :: "(string \<Rightarrow> string res) \<Rightarrow> attempt list \<Rightarrow> int list" where
  "synced unmarshal ats = List.map_filter (first_sync unmarshal) ats"

definition rejected :: "(string \<Rightarrow> string res) \<Rightarrow> attempt list \<Rightarrow> attempt list" where
  "rejected unmarshal ats = filter (\<lambda>a. first_sync unmarshal a = None) ats"

definition latency_of :: "lt_action \<Rightarrow> int list" where
  "latency_of a = (case a of AppendLatency l \<Rightarrow> [l] | _ \<Rightarrow> [])"

definition active_of :: "lt_action \<Rightarrow> int" where
  "active_of a = (case a of AddActive n \<Rightarrow> n | _ \<Rightarrow> 0)"

lemma action_values [simp]:
  "latency_of AddFailure = []" "latency_of (AppendLatency l) = [l]" "latency_of AddSuccess = []"
  "latency_of (AddActive n) = []" "active_of AddFailure = 0" "active_of (AppendLatency l) = 0"
  "active_of AddSuccess = 0" "active_of (AddActive n) = n"
  by (simp_all add: latency_of_def active_of_def)

lemma client_totals:
  assumes "client_of unmarshal client"
  defines "M ats \<equiv> (\<Sum>g\<leftarrow>map client ats. mset g)"
  shows "count (M ats) AddSuccess = length (synced unmarshal ats)"
    and "count (M ats) AddFailure = length (rejected unmarshal ats)"
    and "(\<Sum>a\<in>#M ats. active_of a) = 0"
    and "(\<Sum>a\<in>#M ats. mset (latency_of a)) = mset (synced unmarshal ats)"
  using assms(1) unfolding M_def
  by (induction ats)
    (auto simp: client_of_def active_client_def rate_client_def synced_def rejected_def map_filter_simps
       split: option.splits)

lemma synced_rejected: "length (synced unmarshal ats) + length (rejected unmarshal ats) = length ats"
  by (induction ats) (auto simp: synced_def rejected_def map_filter_simps split: option.splits)

lemma run_clients_result:
  assumes "client_of unmarshal client" and "run_clients picks (map client ats) = Some c"
  shows "success c = of_nat (length (synced unmarshal ats))"
    and "failures c = of_nat (length (rejected unmarshal ats))"
    and "activeConns c = 0"
    and "mset (latencies c) = mset (synced unmarshal ats)"
proof -
  from assms(2) obtain as where as: "interleave picks (map client ats) = Some as"
    and c: "c = fold apply_action as no_counts"
    by (auto simp: run_clients_def)
  have m: "mset as = (\<Sum>g\<leftarrow>map client ats. mset g)" by (rule interleave_mset [OF as])
  have "(\<Sum>a\<leftarrow>as. active_of a) = (\<Sum>a\<in>#mset as. active_of a)"
    by (simp flip: sum_mset_sum_list)
  moreover have "mset (concat (map latency_of as)) = (\<Sum>a\<in>#mset as. mset (latency_of a))"
    by (induction as) simp_all
  ultimately show "success c = of_nat (length (synced unmarshal ats))"
    and "failures c = of_nat (length (rejected unmarshal ats))"
    and "activeConns c = 0"
    and "mset (latencies c) = mset (synced unmarshal ats)"
    using client_totals [OF assms(1), of ats]
    unfolding c fold_actions m active_of_def latency_of_def by (simp_all add: no_counts_def)
qed

section \<open>What is printed\<close>

lemma wrap_add: "((x + h) mod m - h + y + h) mod m - h = (x + y + h) mod m - (h :: int)"
proof -
  have "((x + h) mod m - h + y + h) mod m = ((x + h) mod m + y) mod m" by simp
  also have "\<dots> = (x + h + y) mod m" by (rule mod_add_left_eq)
  also have "x + h + y = x + y + h" by simp
  finally show ?thesis by simp
qed

lemma wrap64_add: "wrap64 (wrap64 x + y) = wrap64 (x + y)"
  by (simp only: wrap64_def wrap_add)

lemma min_max_sums:
  "min_max (wrap64 t) lo hi ls = (wrap64 (t + sum_list ls), fold min ls lo, fold max ls hi)"
proof (induction ls arbitrary: t lo hi)
  case (Cons l ls)
  have "(if l < lo then l else lo) = min l lo" and "(if hi < l then l else hi) = max l hi" by auto
  then show ?case using Cons.IH [of "t + l" "min l lo" "max l hi"] by (simp add: wrap64_add add.assoc)
qed simp

lemma latency_stats_eq:
  "latency_stats ls =
     (if ls = [] then None
      else Some (Min (set ls), Max (set ls), wrap64 (sum_list ls) sdiv int (length ls)))"
proof (cases ls)
  case (Cons l ls')
  have "min_max 0 l l ls = (wrap64 (sum_list ls), fold min ls l, fold max ls l)"
    using min_max_sums [of 0 l l ls] by simp
  then show ?thesis
    using Cons by (simp add: latency_stats_def Min.set_eq_fold [symmetric] Max.set_eq_fold [symmetric])
qed (simp add: latency_stats_def)

lemma latency_stats_mset:
  assumes "mset ls = mset ls'"
  shows "latency_stats ls = latency_stats ls'"
proof -
  have "sum_list ls = sum_list ls'" using assms by (metis sum_mset_sum_list)
  moreover have "set ls = set ls'" by (rule mset_eq_setD [OF assms])
  moreover have "length ls = length ls'" by (rule mset_eq_length [OF assms])
  moreover have "ls = [] \<longleftrightarrow> ls' = []" using assms by auto
  ultimately show ?thesis by (simp only: latency_stats_eq)
qed

text \<open>The report of a test over the given attempts, whatever their order.\<close>

definition summary :: "(string \<Rightarrow> string res) \<Rightarrow> attempt list \<Rightarrow> lt_outcome" where
  "summary unmarshal ats =
     Complete (of_nat (length (synced unmarshal ats))) (of_nat (length (rejected unmarshal ats)))
       (latency_stats (synced unmarshal ats))"

lemma report_clients:
  assumes "client_of unmarshal client" and "run_clients picks (map client ats) = Some c"
  shows "report c = summary unmarshal ats"
  unfolding report_def summary_def latency_stats_mset [OF run_clients_result(4) [OF assms]]
    run_clients_result(1,2) [OF assms] ..

definition attempted :: "(nat \<Rightarrow> attempt) \<Rightarrow> rate_event list \<Rightarrow> lt_flags \<Rightarrow> attempt list" where
  "attempted attempts es fl =
     map attempts [0..<(if mode fl = ''active'' then nat (conns fl) else (case rate_loop es of None \<Rightarrow> 0 | Some n \<Rightarrow> n))]"

lemma lt_main_cases:
  assumes "lt_main url_parses unmarshal attempts picks es fl = Some r"
  shows "r = (if mode fl \<noteq> ''active'' \<and> mode fl \<noteq> ''rate'' then Fatal (''Unknown mode: '' @ mode fl)
     else if \<not> url_parses (targetURL fl) then Fatal ''Invalid URL:''
     else if mode fl = ''rate'' \<and> rate_interval (rate fl) \<le> 0 then Panics ''non-positive interval for NewTicker''
     else summary unmarshal (attempted attempts es fl))"
proof -
  have m: "map (\<lambda>i. client (attempts i)) [0..<n] = map client (map attempts [0..<n])"
    for client :: "attempt \<Rightarrow> lt_action list" and n
    by simp
  have cl: "client_of unmarshal (active_client unmarshal)" "client_of unmarshal (rate_client unmarshal)"
    by (simp_all add: client_of_def)
  show ?thesis
    using assms cl [THEN report_clients]
    by (auto simp: lt_main_def runActiveTest_def runRateTest_def attempted_def m simp del: map_map
       split: if_splits option.splits)
qed

lemma rate_interval_pos: "0 < rate_interval r \<longleftrightarrow> r \<le> 1000000000"
proof (cases "0 < r")
  case True
  have "1000000000 sdiv r = 1000000000 div r" using True by (simp add: signed_divide_int_def)
  then show ?thesis using True by (simp add: rate_interval_def pos_imp_zdiv_pos_iff)
qed (simp add: rate_interval_def)

text \<open>
  C40. A finished load test reports the same figures whatever the interleaving of its connections: the
  number of attempts that got their \<^verbatim>\<open>sync\<close> event, the number that did not, and the minimum, maximum and
  mean latency of the former; the two counts add up to the attempts made. A bad mode or URL is fatal
  before any connection, and more than a thousand million connections per second panic the ticker.
\<close>

theorem load_test_report:
  assumes "lt_main url_parses unmarshal attempts picks es fl = Some r"
  shows "r = (if mode fl \<noteq> ''active'' \<and> mode fl \<noteq> ''rate'' then Fatal (''Unknown mode: '' @ mode fl)
     else if \<not> url_parses (targetURL fl) then Fatal ''Invalid URL:''
     else if mode fl = ''rate'' \<and> 1000000000 < rate fl then Panics ''non-positive interval for NewTicker''
     else summary unmarshal (attempted attempts es fl)) \<and>
    length (synced unmarshal (attempted attempts es fl)) + length (rejected unmarshal (attempted attempts es fl)) =
      length (attempted attempts es fl)"
  using lt_main_cases [OF assms] rate_interval_pos [of "rate fl"]
  by (auto simp: not_less synced_rejected)

text \<open>The average lies between the minimum and the maximum when the sum of the latencies fits.\<close>

theorem average_between_extremes:
  assumes "latency_stats ls = Some (lo, hi, avg)" and "\<forall>l \<in> set ls. 0 \<le> l" and "sum_list ls < 2 ^ 63"
  shows "lo \<le> avg \<and> avg \<le> hi \<and> lo \<in> set ls \<and> hi \<in> set ls \<and> (\<forall>l \<in> set ls. lo \<le> l \<and> l \<le> hi)"
proof -
  from assms(1) have ne: "ls \<noteq> []" and v: "lo = Min (set ls)" "hi = Max (set ls)"
      "avg = wrap64 (sum_list ls) sdiv int (length ls)"
    by (auto simp: latency_stats_eq split: if_splits)
  have b: "lo \<le> l" "l \<le> hi" if "l \<in> set ls" for l using that v by simp_all
  have "int (length ls) * lo \<le> sum_list ls" "sum_list ls \<le> int (length ls) * hi"
    using b by (induction ls) (force simp: algebra_simps)+
  moreover have "0 \<le> sum_list ls" using assms(2) by (simp add: sum_list_nonneg)
  moreover have "0 < int (length ls)" using ne by simp
  moreover have "lo = (int (length ls) * lo) div int (length ls)" "hi = (int (length ls) * hi) div int (length ls)"
    using ne by simp_all
  ultimately have "lo \<le> sum_list ls div int (length ls)" "sum_list ls div int (length ls) \<le> hi"
    by (metis zdiv_mono1)+
  moreover have "avg = sum_list ls div int (length ls)"
    using v(3) \<open>0 \<le> sum_list ls\<close> assms(3) ne by (simp add: signed_divide_int_def sgn_if)
  ultimately show ?thesis using b v ne by simp
qed

text \<open>A test can always be brought to its end: some interleaving completes once the timer has fired.\<close>

lemma rate_loop_stops: "StopTimer \<in> set es \<Longrightarrow> \<exists>n. rate_loop es = Some n"
  by (induction es rule: rate_loop.induct) auto

theorem load_test_finishes:
  assumes "StopTimer \<in> set es"
  shows "\<exists>picks r. lt_main url_parses unmarshal attempts picks es fl = Some r"
proof -
  obtain n where n: "rate_loop es = Some n" using rate_loop_stops [OF assms] by blast
  let ?gs = "if mode fl = ''active'' then map (\<lambda>i. active_client unmarshal (attempts i)) [0..<nat (conns fl)]
    else map (\<lambda>i. rate_client unmarshal (attempts i)) [0..<n]"
  obtain picks as where "interleave picks ?gs = Some as" using interleave_exists [of ?gs] by blast
  then have "\<exists>r. lt_main url_parses unmarshal attempts picks es fl = Some r"
    using n by (auto simp: lt_main_def runActiveTest_def runRateTest_def run_clients_def split: if_splits)
  then show ?thesis by blast
qed

section \<open>How many connections are open at once\<close>

text \<open>
  In active mode a client that got its event holds its connection for the whole duration, or until the
  server closes it; the next client is started ten milliseconds later at the earliest. \<open>connected i\<close> is
  the instant client \<open>i\<close> begins to hold, \<open>closed i\<close> when the server closes its connection, if it does.
\<close>

definition ramp_delay :: int where "ramp_delay = 10 * 1000000"

definition hold_until :: "int \<Rightarrow> int option \<Rightarrow> int \<Rightarrow> int" where
  "hold_until since closed dur = (case closed of None \<Rightarrow> since + dur | Some c \<Rightarrow> min c (since + dur))"

definition open_at :: "lt_flags \<Rightarrow> (nat \<Rightarrow> int) \<Rightarrow> (nat \<Rightarrow> int option) \<Rightarrow> int \<Rightarrow> nat list" where
  "open_at fl connected closed t =
     filter (\<lambda>i. connected i \<le> t \<and> t < hold_until (connected i) (closed i) (duration fl)) [0..<nat (conns fl)]"

lemma ramp_spacing:
  assumes "\<And>i. connected i + ramp_delay \<le> connected (Suc i)"
  shows "connected i + int n * ramp_delay \<le> connected (i + n)"
proof (induction n)
  case (Suc n)
  then show ?case using assms [of "i + n"] by (simp add: algebra_simps)
qed simp

text \<open>
  However many connections are asked for, no more are ever open at once than the test lasts ramp
  delays, and one: the first ones are given up before the last ones are made.
\<close>

theorem ramp_limits_open_connections:
  assumes "\<And>i. connected i + ramp_delay \<le> connected (Suc i)"
  shows "length (open_at fl connected closed t) \<le> nat (duration fl div ramp_delay) + 1"
proof (cases "open_at fl connected closed t = []")
  case False
  let ?A = "set (open_at fl connected closed t)"
  have A: "connected i \<le> t" "t < connected i + duration fl" if "i \<in> ?A" for i
    using that by (auto simp: open_at_def hold_until_def split: option.splits)
  have ne: "?A \<noteq> {}" using False by simp
  let ?lo = "Min ?A" and ?hi = "Max ?A"
  have le: "?lo \<le> ?hi" using ne by simp
  have "connected ?lo + int (?hi - ?lo) * ramp_delay \<le> connected ?hi"
    using ramp_spacing [of connected ?lo "?hi - ?lo", OF assms] le by simp
  also have "\<dots> < connected ?lo + duration fl"
    using A(1) [of ?hi] A(2) [of ?lo] ne by (meson Max_in Min_in finite_set le_less_trans)
  finally have "int (?hi - ?lo) * ramp_delay \<le> duration fl" by simp
  then have "(int (?hi - ?lo) * ramp_delay) div ramp_delay \<le> duration fl div ramp_delay"
    by (rule zdiv_mono1) (simp add: ramp_delay_def)
  then have "int (?hi - ?lo) \<le> duration fl div ramp_delay" by (simp add: ramp_delay_def)
  then have span: "?hi - ?lo \<le> nat (duration fl div ramp_delay)" by linarith
  have "?A \<subseteq> {?lo..?hi}" by auto
  then have "card ?A \<le> ?hi - ?lo + 1" using card_mono [of "{?lo..?hi}" ?A] le by simp
  moreover have "length (open_at fl connected closed t) = card ?A"
    by (rule distinct_card [symmetric]) (simp add: open_at_def)
  ultimately show ?thesis using span by linarith
qed simp

theorem ramp_limits_open_connections_witness:
  "length (open_at (lt_defaults\<lparr>conns := 7, duration := 30000000\<rparr>) (\<lambda>i. int i * 10000000) (\<lambda>i. None) 55000000) = 3 \<and>
   nat (30000000 div ramp_delay) + 1 = 4 \<and>
   length (open_at (lt_defaults\<lparr>conns := 7, duration := 30000000\<rparr>) (\<lambda>i. int i * 10000000) (\<lambda>i. None) 55000000) \<le> nat (30000000 div ramp_delay) + 1"
proof -
  have "length (open_at (lt_defaults\<lparr>conns := 7, duration := 30000000\<rparr>) (\<lambda>i. int i * 10000000) (\<lambda>i. None) 55000000) = 3"
    by code_simp
  moreover have "nat (30000000 div ramp_delay) + 1 = 4" by (simp add: ramp_delay_def)
  ultimately show ?thesis
    using ramp_limits_open_connections [of "\<lambda>i. int i * 10000000" "lt_defaults\<lparr>conns := 7, duration := 30000000\<rparr>" "\<lambda>i. None" 55000000]
    by (simp add: ramp_delay_def)
qed

section \<open>A sample test\<close>

definition sample_event :: "string \<Rightarrow> string res" where
  "sample_event message = (if message = [] then Inl (ErrOther ''unexpected end of JSON input'') else Inr message)"

definition sample_attempt :: "nat \<Rightarrow> attempt" where
  "sample_attempt i =
     \<lparr>at_dial = (if i = 1 then Some (ErrOther ''bad handshake'') else None),
      at_read = Inr (if i = 2 then ''ping'' else ''sync''), at_elapsed = 10 + 5 * int i\<rparr>"

definition sample_flags :: lt_flags where "sample_flags = lt_defaults\<lparr>conns := 4\<rparr>"

theorem load_test_report_witness:
  "summary sample_event (attempted sample_attempt [] sample_flags) = Complete 2 2 (Some (10, 25, 17)) \<and>
   lt_main (\<lambda>u. True) sample_event sample_attempt [3, 1, 0, 0, 3, 3, 2, 3, 0, 0] [] sample_flags =
     Some (summary sample_event (attempted sample_attempt [] sample_flags))"
proof -
  have r: "lt_main (\<lambda>u. True) sample_event sample_attempt [3, 1, 0, 0, 3, 3, 2, 3, 0, 0] [] sample_flags =
      Some (Complete 2 2 (Some (10, 25, 17)))"
    by code_simp
  from load_test_report [OF r]
  have "Complete 2 2 (Some (10, 25, 17)) = summary sample_event (attempted sample_attempt [] sample_flags)"
    by (simp add: sample_flags_def lt_defaults_def)
  then show ?thesis using r by simp
qed

theorem average_between_extremes_witness:
  "(10 :: int) \<le> 17 \<and> (17 :: int) \<le> 25 \<and> latency_stats [25, 10] = Some (10, 25, 17)"
proof -
  have s: "latency_stats [25, 10] = Some (10, 25, 17)" by code_simp
  from average_between_extremes [OF s] s show ?thesis by simp
qed

end
