(* ===== verification/Spec2Isabelle.thy ===== *)
theory Spec2Isabelle
  imports Routes_Props Worker_Props Media_Props Events_Props Public_Props Admin_Props Vod_Props Maintenance_Props Bot_Props
    R2_Storage R2_Cleanup FFmpeg Migration Server_Process Server_Props Shutdown Logging Metrics Load_Test
begin

text \<open>
  \<^bold>\<open>The live transcript server, modelled and verified.\<close>

  The program (Go) receives the transcript of live streams from a worker, keeps it in SQLite, keeps the
  media of each line in a storage backend (the local disk or Cloudflare R2), and fans both out to
  viewers over WebSockets. Around that core it cuts clips, renders whole streams, serves two long
  polls, retires old streams, watches a Discord bot and has an admin page. Three command line tools
  migrate an old database, empty an R2 prefix and put the server under load.

  \<^bold>\<open>How the code is modelled.\<close>
  Structs are records with the Go field names, Go errors are values of \<open>gerr\<close>, and a fallible call
  returns \<open>'a res\<close>, which is \<open>gerr + 'a\<close>. A pure or single-component method is a function on the
  component's state. A handler or sweep is an action of the state monad over \<open>world\<close> (theory World),
  which holds everything the \<^verbatim>\<open>App\<close> value changes; a handler is run whole, and where it sleeps or parks the
  model lets an argument change the world there (\<open>others\<close>, or the rounds of a wait). Where goroutines
  really race (the hub, the notifier, the merge pipeline, the build registry) the critical sections are
  the steps of an inductive relation, and properties hold for every reachable state. Above the handlers
  stand two more relations: \<open>server_run\<close>, the states a server reaches by whole handlers, sweeps, builds and
  deletions in any order, and \<open>live_step\<close>, the process with its goroutines from the start to its exit,
  which refines it.
  Faults are schedules in the state: one entry per statement for the SQL driver, one per system call
  for the disk, so every error path of a method is reached by some initial state. Integers of the
  code are \<open>int\<close> with the 64-bit wrap written out where the code adds to a stored value (\<open>wrap64\<close>),
  float64 times are exact integers in units of the smallest subnormal with rounding written out (FFmpeg).
  The functions of other packages (the processor, the JSON and YAML codecs, \<^verbatim>\<open>strings.ToLower\<close>, the S3
  client, the archive server) are fields of \<open>app\<close> or arguments.

  \<^bold>\<open>Theories, from the bottom up.\<close>
  \<^item> Prelude, GoStrings, Paths: error values, 64-bit wrap, list lemmas; the parts of \<^verbatim>\<open>strings\<close>,
    \<^verbatim>\<open>strconv\<close> and \<^verbatim>\<open>path/filepath\<close> the program calls.
  \<^item> Model (\<^verbatim>\<open>internal/model\<close>, \<^verbatim>\<open>internal/ws/events.go\<close>), Keys (\<^verbatim>\<open>storage/keys.go\<close>, \<^verbatim>\<open>isValidID\<close>): data types
    and the storage keys; keys of valid identifiers are injective and stay under their stream's prefix.
  \<^item> Tables, Store (\<^verbatim>\<open>internal/store\<close>): tables as lists of rows, connections, transactions; every query
    and method. Store_Props: primary keys, all-or-nothing transactions, the line sequence, counts.
  \<^item> Storage, Disk, LocalStorage, R2_Storage (\<^verbatim>\<open>internal/storage\<close>): the interface, its contract
    and both backends.
  \<^item> Notifier (\<^verbatim>\<open>internal/notify\<close>), Hub (\<^verbatim>\<open>internal/ws/hub.go\<close>), VodRegistry (the registry of
    \<^verbatim>\<open>server/vod.go\<close>), Merge (\<^verbatim>\<open>media/merge.go\<close>): the concurrent parts, with their step relations.
  \<^item> Config, Webhook, Bot, FFmpeg: \<^verbatim>\<open>internal/config\<close> and \<^verbatim>\<open>internal/archive\<close>, \<^verbatim>\<open>internal/discord\<close>,
    \<^verbatim>\<open>media/processor.go\<close>.
  \<^item> World (\<^verbatim>\<open>server/app.go\<close>), Lifecycle (\<^verbatim>\<open>lifecycle.go\<close>), Worker_Handlers, Events, Web_Socket,
    Public_Handlers, Vod_Build, Maintenance, Admin_Handlers, Routes: \<^verbatim>\<open>internal/server\<close>, one
    action per handler with every early return; Routes holds the route table and \<open>ServeHTTP\<close>.
  \<^item> Server_Process (\<^verbatim>\<open>cmd/web\<close>, \<^verbatim>\<open>config.Load\<close>, \<^verbatim>\<open>store.Open\<close>), Migration (\<^verbatim>\<open>cmd/migrate\<close>),
    R2_Cleanup (\<^verbatim>\<open>cmd/r2-cleanup\<close>), Load_Test (\<^verbatim>\<open>cmd/perf-test\<close>): the four programs.
  \<^item> Channel_Rows, Guarantee: which rows belong to a channel and which of them a store operation may
    touch; the locale \<open>guarantee\<close>, with one lemma per handler, sweep and build. Server_Props: server runs
    and the invariants of every state they reach.
  \<^item> Shutdown (the rest of \<^verbatim>\<open>cmd/web/main.go\<close>, \<^verbatim>\<open>runPeriodic\<close>, \<^verbatim>\<open>App.Close\<close>, \<^verbatim>\<open>Bot.Close\<close>, \<^verbatim>\<open>runWatchdog\<close>,
    \<^verbatim>\<open>Hub.Wait\<close>): the stages of \<^verbatim>\<open>main\<close>, what each waits for, and what it leaves behind on purpose.
  \<^item> Logging (\<^verbatim>\<open>internal/logging\<close>), Metrics (\<^verbatim>\<open>internal/metrics\<close>): the fan-out of log records, the
    registered collectors.
  \<^item> Samples: a concrete application and worlds on which the model is evaluated; the witnesses use it.
  \<^item> Frames: what an action leaves alone, by rules that follow the structure of the handlers; the
    theories ending in \<open>_Props\<close> hold the properties of the component they are named after.

  \<^bold>\<open>Interfaces.\<close>
  \<open>media_store\<close> (Storage) is the contract of the \<^verbatim>\<open>Storage\<close> interface over the map from keys to
  objects a backend implements; \<open>atomic_store\<close> adds that a failed save leaves no trace. The local
  backend interprets \<open>atomic_store\<close>. \<open>s3_service\<close> (R2_Storage) is the documented behaviour of the S3 calls;
  every service that has it gives a \<open>media_store\<close> (\<^theory_text>\<open>sublocale\<close>), and an in-memory service with pages and
  failing calls interprets it. \<open>keyed_table\<close> (Tables) is a table with a primary key and an upsert,
  interpreted for the four upserted tables of Store. \<open>guarantee G X\<close> (Guarantee) is a preorder \<open>G\<close> on worlds
  that contains every move a component offers on the channels \<open>X\<close> (a store operation, a hub move, a claim
  of the build registry); its lemmas derive that each handler, each sweep and each run of the server stays
  within \<open>G\<close>. Server_Props interprets it four times: \<open>keys\<close> (the tables keep their primary keys), \<open>isolated\<close>
  (the channels outside \<open>X\<close> are untouched), \<open>limits\<close> (hubs stay within their cap) and \<open>builds\<close> (running jobs
  are those of started builds).

  \<^bold>\<open>What the theorems show.\<close>
  \<^item> Access: a protected route answers 503 or 403 and changes nothing without the configured key, and
    no request without the key changes the database (Routes_Props).
  \<^item> Transcripts: a line is stored exactly when its identifier is the next one, and the answer
    to the worker tells which; deletions and replacements are all-or-nothing; a sync keeps the media
    already uploaded (Store_Props, Worker_Props).
  \<^item> Media: a 200 for an upload means that the line is marked and its raw and audio objects can be read
    (Media_Props); saves are atomic and folder deletions exact on both backends (LocalStorage,
    R2_Storage); viewers are served nothing but media objects, clips cover their range (Public_Props).
  \<^item> Streams: activation ends the live stream, retention keeps the most recent ones, pruning removes
    exactly the expired ones, deletion spares live ones, edits change only their fields
    (Lifecycle_Props, Maintenance_Props, Admin_Props).
  \<^item> Concurrency: the hub never exceeds its cap, and a broadcast reaches a client or evicts it; no
    wake-up of a long poll is lost; the merge writes the chunks in order and always returns; at most one
    build of a stream runs, and a started build always ends its job (Hub, Notifier, Merge, VodRegistry,
    Vod_Props).
  \<^item> The whole server: in every state it can reach the tables have unique keys, every hub is
    within its cap with counters that match its clients, and each running job is that of one started
    build; a request touches the rows and viewers of no channel but the one it names (Server_Props). The
    live process stays within these runs until it exits; its own goroutines can always bring it to
    the exit; the store closes behind the sweeps, the watchdog and the requests that were drained,
    and, when nothing is detached, behind every goroutine (Shutdown).
  \<^item> Discord and tools: one alert per outage, one queued link per announcement, payloads within the
    API's limits (Bot_Props, Webhook); migrated transcripts read back; the cleanup stays within its prefix;
    a load test reports the same figures whatever the interleaving of its connections (Load_Test). A log
    record reaches the console and the file by its level alone (Logging).
  \<^item> Defects of the code, as theorems about the faithful model: \<open>reactivated_old_stream_stays_live\<close>,
    \<open>deleted_stream_gets_rival_build\<close>, \<open>failed_media_read_erases_media\<close>, \<open>cleanup_counts_refused_objects\<close>,
    \<open>truncated_migration_completes\<close>, \<open>migrated_streams_look_old\<close>, \<open>failed_stop_drops_queue\<close>,
    \<open>ramp_limits_open_connections\<close>, and the panic of the load test in \<open>load_test_report\<close>.

  \<^bold>\<open>Bounds and fuel.\<close>
  The merge has 32 slots (\<open>mergeConcurrency\<close>), as in the code. The R2 methods get the number of
  page requests their context's lifetime allows; running out is the context's error, which is the answer of
  the code, and the exactness theorems hold for every such number. The cleanup tool has no
  deadline: \<open>cleanup_pages\<close> returns \<^const>\<open>None\<close> when its fuel is used up, and
  \<open>cleanup_ends_within_prefix\<close> gives the number of requests after which it has ended. Every other loop
  is structural recursion over a list or has a proved measure.

  \<^bold>\<open>Not modelled.\<close>
  The log calls in the handlers, the values of the Prometheus collectors (except the activation gauge,
  which handlers read back through its labels), the page \<^verbatim>\<open>admin_ui.html\<close>, the wire formats of JSON, YAML
  and WebSocket frames, the SQLite driver and the rotation of the log file, which are libraries. The
  listener and the signal are steps of \<open>live_step\<close>. Time passes in a run as the environment pleases: the
  ten seconds of the HTTP shutdown are a step that may be taken at any moment, and fairness is not
  assumed, so that \<open>shutdown_can_always_complete\<close> says that the exit stays within reach, not when it is
  reached. A goroutine that posts a webhook is the entry it adds to the outbox.
  The handlers' \<open>MergeRawAudio\<close> runs one schedule of the pipeline, which
  \<open>merge_pipeline_sequential\<close> justifies: every schedule returns the same merged file.
\<close>

end
